(* ===== verification/Prelude.thy ===== *)
theory Prelude
  imports Complex_Main
begin

text \<open>
  What every component of the development shares: the model of Go's
  \<^verbatim>\<open>time.Time\<close> and \<^verbatim>\<open>time.Duration\<close>, maps with deletion, rotations of lists,
  and the collections of facts the component proofs use.

  A \<open>time\<close> is the number of nanoseconds since Go's zero time (year 1), so
  \<^verbatim>\<open>t.IsZero()\<close> is \<open>t = 0\<close>, \<^verbatim>\<open>t.After(u)\<close> is \<open>t > u\<close>,
  \<^verbatim>\<open>t.Before(u)\<close> is \<open>t < u\<close> and \<^verbatim>\<open>t.Add(d)\<close> is \<open>t + d\<close>. A \<open>duration\<close> is a
  signed number of nanoseconds; \<^verbatim>\<open>t.Sub(u)\<close>, and with it \<^verbatim>\<open>time.Since\<close> and
  \<^verbatim>\<open>time.Until\<close>, saturates at the limits of \<^verbatim>\<open>int64\<close>, which is written out.
  Each reading of the clock in the source is an argument of the model.
\<close>

named_theorems state_defs \<open>unfolding of the state operations of a component\<close>

type_synonym time = int
type_synonym duration = int

abbreviation (input) zero_time :: time where
  "zero_time \<equiv> 0"

definition max_int64 :: int where
  "max_int64 = 2 ^ 63 - 1"

definition min_int64 :: int where
  "min_int64 = - (2 ^ 63)"

definition time_sub :: "time \<Rightarrow> time \<Rightarrow> duration" where
  "time_sub t u = max min_int64 (min max_int64 (t - u))"

text \<open>Arithmetic on \<^verbatim>\<open>int64\<close> wraps around.\<close>

definition wrap64 :: "int \<Rightarrow> int" where
  "wrap64 x = (x + 2 ^ 63) mod 2 ^ 64 - 2 ^ 63"

lemma wrap64_id: "min_int64 \<le> x \<Longrightarrow> x \<le> max_int64 \<Longrightarrow> wrap64 x = x"
  by (simp add: wrap64_def min_int64_def max_int64_def)

lemma wrap64_range: "min_int64 \<le> wrap64 x \<and> wrap64 x \<le> max_int64"
proof -
  have "0 \<le> (x + 2 ^ 63) mod (2 ^ 64)" "(x + 2 ^ 63) mod 2 ^ 64 < (2 ^ 64 :: int)"
    by simp_all
  then show ?thesis by (simp add: wrap64_def min_int64_def max_int64_def)
qed

text \<open>The units of package \<^verbatim>\<open>time\<close>.\<close>

definition millisecond :: duration where
  "millisecond = 1000000"

definition second :: duration where
  "second = 1000 * millisecond"

definition minute :: duration where
  "minute = 60 * second"

definition hour :: duration where
  "hour = 60 * minute"

lemmas time_units = millisecond_def second_def minute_def hour_def

lemma time_sub_greater_iff:
  assumes "min_int64 \<le> d" and "d < max_int64"
  shows "d < time_sub t u \<longleftrightarrow> d < t - u"
  using assms by (auto simp: time_sub_def)

lemma time_sub_le_iff:
  assumes "min_int64 \<le> d" and "d < max_int64"
  shows "time_sub t u \<le> d \<longleftrightarrow> t - u \<le> d"
  using time_sub_greater_iff [OF assms] by (simp add: not_less [symmetric])

lemma time_sub_less_iff:
  assumes "min_int64 < d" and "d \<le> max_int64"
  shows "time_sub t u < d \<longleftrightarrow> t - u < d"
  using assms by (auto simp: time_sub_def)

lemma time_sub_self [simp]: "time_sub t t = 0"
  by (simp add: time_sub_def max_int64_def min_int64_def)

lemma time_sub_mono: "t \<le> t' \<Longrightarrow> time_sub t u \<le> time_sub t' u"
  by (auto simp: time_sub_def)

lemma time_sub_nonneg: "u \<le> t \<Longrightarrow> 0 \<le> time_sub t u"
  by (auto simp: time_sub_def max_int64_def)

text \<open>Positions visited by a round-robin scan of a list of length \<open>n\<close> that starts at \<open>k\<close>.\<close>

definition rotation :: "nat \<Rightarrow> 'a list \<Rightarrow> 'a list" where
  "rotation k xs = map (\<lambda>i. xs ! ((k + i) mod length xs)) [0..<length xs]"

lemma length_rotation [simp]: "length (rotation k xs) = length xs"
  by (simp add: rotation_def)

lemma nth_rotation [simp]:
  "i < length xs \<Longrightarrow> rotation k xs ! i = xs ! ((k + i) mod length xs)"
  by (simp add: rotation_def)

lemma rotation_Nil [simp]: "rotation k [] = []"
  by (simp add: rotation_def)

lemma rotation_eq_rotate: "rotation k xs = rotate k xs"
  by (rule nth_equalityI) (auto simp: nth_rotate add.commute)

lemma set_rotation [simp]: "set (rotation k xs) = set xs"
  by (simp add: rotation_eq_rotate)

lemma distinct_rotation [simp]: "distinct (rotation k xs) \<longleftrightarrow> distinct xs"
  by (simp add: rotation_eq_rotate)

lemma rotation_mod: "rotation (k mod length xs) xs = rotation k xs"
  by (rule nth_equalityI) (auto simp: mod_simps)

text \<open>The first element of a list that satisfies a predicate, with its position.\<close>

fun find_from :: "nat \<Rightarrow> ('a \<Rightarrow> bool) \<Rightarrow> 'a list \<Rightarrow> (nat \<times> 'a) option" where
  "find_from k P [] = None"
| "find_from k P (x # xs) = (if P x then Some (k, x) else find_from (Suc k) P xs)"

lemma find_from_None_iff: "find_from k P xs = None \<longleftrightarrow> (\<forall>x\<in>set xs. \<not> P x)"
  by (induction xs arbitrary: k) auto

lemma find_from_SomeD:
  "find_from k P xs = Some (i, x) \<Longrightarrow>
     k \<le> i \<and> i - k < length xs \<and> xs ! (i - k) = x \<and> P x \<and> (\<forall>j < i - k. \<not> P (xs ! j))"
proof (induction xs arbitrary: k)
  case Nil
  then show ?case by simp
next
  case (Cons y ys)
  show ?case
  proof (cases "P y")
    case True
    with Cons.prems show ?thesis by simp
  next
    case False
    with Cons.prems have "find_from (Suc k) P ys = Some (i, x)" by simp
    note IH = Cons.IH [OF this]
    have "i - k = Suc (i - Suc k)" using IH by linarith
    with IH False show ?thesis by (auto simp: less_Suc_eq_0_disj)
  qed
qed

text \<open>Deleting a key: Go's \<^verbatim>\<open>delete(m, k)\<close>.\<close>

abbreviation map_delete :: "'k \<Rightarrow> ('k \<Rightarrow> 'v option) \<Rightarrow> ('k \<Rightarrow> 'v option)" where
  "map_delete k m \<equiv> m(k := None)"

text \<open>Reading a map of strings: Go's \<^verbatim>\<open>m[k]\<close> is the zero value when the key is absent.\<close>

definition lookup_str :: "('k \<Rightarrow> string option) \<Rightarrow> 'k \<Rightarrow> string" where
  "lookup_str m k = (case m k of None \<Rightarrow> [] | Some v \<Rightarrow> v)"

lemma lookup_str_simps [simp]:
  "m k = None \<Longrightarrow> lookup_str m k = []"
  "m k = Some v \<Longrightarrow> lookup_str m k = v"
  by (simp_all add: lookup_str_def)

lemma lookup_str_upd [simp]:
  "lookup_str (m(k \<mapsto> v)) k' = (if k' = k then v else lookup_str m k')"
  by (simp add: lookup_str_def)

end
