(* ===== verification/Go_Errors.thy ===== *)
theory Go_Errors
  imports Go_Strings
begin

text \<open>
  Go errors as trees. \<open>ErrFmt\<close> is \<^verbatim>\<open>fmt.Errorf\<close>: literal text and the errors
  wrapped with \<^verbatim>\<open>%w\<close>, in the order of the format string. The other constructors are
  the package's own error types and sentinels (\<^verbatim>\<open>HttpStatusError\<close>,
  \<^verbatim>\<open>CloudflareError\<close>, \<^verbatim>\<open>ErrSSRFBlocked\<close>, ...) and those of the standard library
  the code asks for with \<^verbatim>\<open>errors.Is\<close> and \<^verbatim>\<open>errors.As\<close>. \<open>err_tree\<close> lists an
  error and everything it wraps in the pre-order in which those two functions look.
\<close>

datatype challenge_type =
  ChallengeJS | ChallengeTurnstile | ChallengeBlock | ChallengeManagedAt200

fun challenge_name :: "challenge_type \<Rightarrow> string" where
  "challenge_name ChallengeJS = ''js_challenge''"
| "challenge_name ChallengeTurnstile = ''managed_challenge''"
| "challenge_name ChallengeBlock = ''block''"
| "challenge_name ChallengeManagedAt200 = ''managed_challenge_200''"

record cloudflare_error =
  cf_type :: challenge_type
  cf_status :: int
  cf_ray :: string

datatype go_error =
    ErrText string
  | ErrFmt "err_part list"
  | HttpStatusError int
  | CloudflareErr cloudflare_error
  | ErrSSRFBlocked
  | ErrFetchModeUnsupported
  | ErrUnknownTLSProfile
  | ErrCanceled
  | ErrDeadlineExceeded
  | NetOpError string go_error
  | NetDNSError string bool
  | NetTimeoutError string bool
  | UrlError string go_error
and err_part = Lit string | Wrapped go_error

fun err_tree :: "go_error \<Rightarrow> go_error list" and part_tree :: "err_part \<Rightarrow> go_error list" where
  "err_tree (ErrFmt ps) = ErrFmt ps # concat (map part_tree ps)"
| "err_tree (NetOpError s e) = NetOpError s e # err_tree e"
| "err_tree (UrlError s e) = UrlError s e # err_tree e"
| "err_tree e = [e]"
| "part_tree (Lit s) = []"
| "part_tree (Wrapped e) = err_tree e"

definition errors_is :: "go_error \<Rightarrow> go_error \<Rightarrow> bool" where
  "errors_is e target \<longleftrightarrow> target \<in> set (err_tree e)"

definition errors_as :: "(go_error \<Rightarrow> 'a option) \<Rightarrow> go_error \<Rightarrow> 'a option" where
  "errors_as sel e = (case List.map_filter sel (err_tree e) of [] \<Rightarrow> None | x # _ \<Rightarrow> Some x)"

fun as_http_status :: "go_error \<Rightarrow> int option" where
  "as_http_status (HttpStatusError n) = Some n"
| "as_http_status _ = None"

fun as_cloudflare :: "go_error \<Rightarrow> cloudflare_error option" where
  "as_cloudflare (CloudflareErr c) = Some c"
| "as_cloudflare _ = None"

fun as_op_error :: "go_error \<Rightarrow> unit option" where
  "as_op_error (NetOpError _ _) = Some ()"
| "as_op_error _ = None"

fun as_dns_error :: "go_error \<Rightarrow> unit option" where
  "as_dns_error (NetDNSError _ _) = Some ()"
| "as_dns_error _ = None"

text \<open>
  \<^verbatim>\<open>Timeout()\<close> of the errors that have that method, None for the others; the errors
  that have it are the ones that implement \<^verbatim>\<open>net.Error\<close>.
\<close>

fun err_timeout :: "go_error \<Rightarrow> bool option" where
  "err_timeout ErrDeadlineExceeded = Some True"
| "err_timeout (NetTimeoutError _ b) = Some b"
| "err_timeout (NetDNSError _ b) = Some b"
| "err_timeout (NetOpError _ e) = Some (err_timeout e = Some True)"
| "err_timeout (UrlError _ e) = Some (err_timeout e = Some True)"
| "err_timeout _ = None"

text \<open>\<^verbatim>\<open>http.StatusText\<close>: the table of the standard library, empty for other codes.\<close>

definition status_text :: "int \<Rightarrow> string" where
  "status_text n = lookup_str (map_of
    [(100, ''Continue''),
     (101, ''Switching Protocols''),
     (102, ''Processing''),
     (103, ''Early Hints''),
     (200, ''OK''),
     (201, ''Created''),
     (202, ''Accepted''),
     (203, ''Non-Authoritative Information''),
     (204, ''No Content''),
     (205, ''Reset Content''),
     (206, ''Partial Content''),
     (207, ''Multi-Status''),
     (208, ''Already Reported''),
     (226, ''IM Used''),
     (300, ''Multiple Choices''),
     (301, ''Moved Permanently''),
     (302, ''Found''),
     (303, ''See Other''),
     (304, ''Not Modified''),
     (305, ''Use Proxy''),
     (307, ''Temporary Redirect''),
     (308, ''Permanent Redirect''),
     (400, ''Bad Request''),
     (401, ''Unauthorized''),
     (402, ''Payment Required''),
     (403, ''Forbidden''),
     (404, ''Not Found''),
     (405, ''Method Not Allowed''),
     (406, ''Not Acceptable''),
     (407, ''Proxy Authentication Required''),
     (408, ''Request Timeout''),
     (409, ''Conflict''),
     (410, ''Gone''),
     (411, ''Length Required''),
     (412, ''Precondition Failed''),
     (413, ''Request Entity Too Large''),
     (414, ''Request URI Too Long''),
     (415, ''Unsupported Media Type''),
     (416, ''Requested Range Not Satisfiable''),
     (417, ''Expectation Failed''),
     (418, ''I'' @ [CHR 0x27] @ ''m a teapot''),
     (421, ''Misdirected Request''),
     (422, ''Unprocessable Entity''),
     (423, ''Locked''),
     (424, ''Failed Dependency''),
     (425, ''Too Early''),
     (426, ''Upgrade Required''),
     (428, ''Precondition Required''),
     (429, ''Too Many Requests''),
     (431, ''Request Header Fields Too Large''),
     (451, ''Unavailable For Legal Reasons''),
     (500, ''Internal Server Error''),
     (501, ''Not Implemented''),
     (502, ''Bad Gateway''),
     (503, ''Service Unavailable''),
     (504, ''Gateway Timeout''),
     (505, ''HTTP Version Not Supported''),
     (506, ''Variant Also Negotiates''),
     (507, ''Insufficient Storage''),
     (508, ''Loop Detected''),
     (510, ''Not Extended''),
     (511, ''Network Authentication Required'')]) n"

fun err_msg :: "go_error \<Rightarrow> string" and part_msg :: "err_part \<Rightarrow> string" where
  "err_msg (ErrText s) = s"
| "err_msg (ErrFmt ps) = concat (map part_msg ps)"
| "err_msg (HttpStatusError n) = ''HTTP '' @ int_str n @ '': '' @ status_text n"
| "err_msg (CloudflareErr c) =
     ''cloudflare '' @ challenge_name (cf_type c) @ '' (HTTP '' @ int_str (cf_status c) @
     '', ray '' @ cf_ray c @ '')''"
| "err_msg ErrSSRFBlocked = ''stealth: SSRF-blocked address''"
| "err_msg ErrFetchModeUnsupported = ''stealth: fetch mode needs a Chrome-family profile''"
| "err_msg ErrUnknownTLSProfile = ''stealth: unknown TLS profile''"
| "err_msg ErrCanceled = ''context canceled''"
| "err_msg ErrDeadlineExceeded = ''context deadline exceeded''"
| "err_msg (NetOpError s e) = s @ '': '' @ err_msg e"
| "err_msg (NetDNSError s _) = s"
| "err_msg (NetTimeoutError s _) = s"
| "err_msg (UrlError s e) = s @ '': '' @ err_msg e"
| "part_msg (Lit s) = s"
| "part_msg (Wrapped e) = err_msg e"

lemma err_tree_self [simp]: "e \<in> set (err_tree e)"
  by (cases e) auto

lemma errors_is_refl [simp]: "errors_is e e"
  by (simp add: errors_is_def)

lemma errors_is_fmt [simp]:
  "errors_is (ErrFmt ps) t \<longleftrightarrow> ErrFmt ps = t \<or> (\<exists>e. Wrapped e \<in> set ps \<and> errors_is e t)"
proof -
  have "t \<in> set (part_tree p) \<longleftrightarrow> (\<exists>e. p = Wrapped e \<and> t \<in> set (err_tree e))" for p
    by (cases p) auto
  then show ?thesis by (auto simp: errors_is_def)
qed

lemma errors_as_None_iff: "errors_as sel e = None \<longleftrightarrow> (\<forall>x\<in>set (err_tree e). sel x = None)"
proof -
  have "List.map_filter sel xs = [] \<longleftrightarrow> (\<forall>x\<in>set xs. sel x = None)" for xs
    by (induction xs) (auto simp: List.map_filter_simps split: option.splits)
  from this [of "err_tree e"] show ?thesis
    by (cases "List.map_filter sel (err_tree e)") (simp_all add: errors_as_def)
qed

lemma errors_as_SomeD: "errors_as sel e = Some x \<Longrightarrow> \<exists>y\<in>set (err_tree e). sel y = Some x"
proof -
  have "List.map_filter sel xs = x # ys \<Longrightarrow> \<exists>y\<in>set xs. sel y = Some x" for xs ys
    by (induction xs) (auto simp: List.map_filter_simps split: option.splits)
  then show "errors_as sel e = Some x \<Longrightarrow> \<exists>y\<in>set (err_tree e). sel y = Some x"
    by (auto simp: errors_as_def split: list.splits)
qed

end
