(* ===== verification/Float64.thy ===== *)
theory Float64
  imports Prelude "HOL-Library.Log_Nat"
begin

text \<open>
  Go's \<^verbatim>\<open>float64\<close> arithmetic as exact rational arithmetic followed by rounding to
  53 significant bits, ties to even (\<open>f64\<close>). The exponent is unbounded: infinities,
  NaNs and subnormal numbers are outside the model, and so are fused multiply-adds
  (which Go may use on some targets). \<^verbatim>\<open>math.Pow\<close> with a natural exponent is the
  exact power, rounded; it is exact for the multiplier 2.0 of every default
  configuration. The lemmas show that \<open>f64\<close> is monotone, fixes the representable
  numbers (all integers up to 2^53 among them), and is odd.
\<close>

definition flog2 :: "rat \<Rightarrow> int" where
  "flog2 q = (if 1 \<le> q then int (floorlog 2 (nat \<lfloor>q\<rfloor>)) - 1 else - int (ceillog2 (nat \<lceil>1 / q\<rceil>)))"

definition round_half_even :: "rat \<Rightarrow> int" where
  "round_half_even q =
     (let f = \<lfloor>q\<rfloor>; r = q - of_int f
      in if r < 1 / 2 then f else if 1 / 2 < r then f + 1 else if even f then f else f + 1)"

definition f64_pos :: "rat \<Rightarrow> rat" where
  "f64_pos q = (let e = flog2 q - 52 in of_int (round_half_even (q / 2 powi e)) * 2 powi e)"

definition f64 :: "rat \<Rightarrow> rat" where
  "f64 q = (if q = 0 then 0 else if 0 < q then f64_pos q else - f64_pos (- q))"

text \<open>The operations the source uses: conversion from an integer, the four operations
  on two values, and a power.\<close>

definition float_of :: "int \<Rightarrow> rat" where
  "float_of n = f64 (of_int n)"

definition fmul :: "rat \<Rightarrow> rat \<Rightarrow> rat" where
  "fmul a b = f64 (a * b)"

definition fadd :: "rat \<Rightarrow> rat \<Rightarrow> rat" where
  "fadd a b = f64 (a + b)"

definition fsub :: "rat \<Rightarrow> rat \<Rightarrow> rat" where
  "fsub a b = f64 (a - b)"

definition fdiv :: "rat \<Rightarrow> rat \<Rightarrow> rat" where
  "fdiv a b = f64 (a / b)"

definition fpow :: "rat \<Rightarrow> nat \<Rightarrow> rat" where
  "fpow a n = f64 (a ^ n)"

text \<open>
  Conversion to \<^verbatim>\<open>int64\<close> truncates towards zero; out of range the result is
  implementation-specific, so it is an argument (on amd64 it is the least int64).
\<close>

definition ftrunc :: "rat \<Rightarrow> int" where
  "ftrunc q = (if 0 \<le> q then \<lfloor>q\<rfloor> else \<lceil>q\<rceil>)"

definition int64_of_float :: "(rat \<Rightarrow> int) \<Rightarrow> rat \<Rightarrow> int" where
  "int64_of_float ovf q =
     (let n = ftrunc q in if min_int64 \<le> n \<and> n \<le> max_int64 then n else ovf q)"

lemma powi_shift: "(2::rat) powi (i + int k) = 2 ^ k * 2 powi i"
  by (simp add: power_int_add)

lemma flog2_bounds:
  assumes "0 < q"
  shows "2 powi flog2 q \<le> q" and "q < 2 powi (flog2 q + 1)"
proof -
  have "2 powi flog2 q \<le> q \<and> q < 2 powi (flog2 q + 1)"
  proof (cases "1 \<le> q")
    case True
    define n where "n = nat \<lfloor>q\<rfloor>"
    define k where "k = floorlog 2 n"
    have n: "0 < n" using True by (simp add: n_def)
    then have k: "0 < k" by (auto simp: k_def floorlog_eq_zero_iff intro!: gr0I)
    have bnd: "2 ^ (k - 1) \<le> n \<and> n < 2 ^ k"
      using floorlog_bounds [of n 2] n by (simp add: k_def)
    have nq: "of_nat n \<le> q" "q < of_nat n + 1"
      using True floor_correct [of q] by (simp_all add: n_def)
    have e: "flog2 q = int (k - 1)" "flog2 q + 1 = int k"
      using True k by (simp_all add: flog2_def k_def n_def)
    have "(2::rat) ^ (k - 1) \<le> of_nat n"
      using bnd by (metis of_nat_le_iff of_nat_numeral of_nat_power)
    then have "(2::rat) ^ (k - 1) \<le> q" using nq(1) by (rule order_trans)
    moreover have "(of_nat n :: rat) + 1 \<le> 2 ^ k"
    proof -
      have "Suc n \<le> 2 ^ k" using bnd by simp
      then have "(of_nat (Suc n) :: rat) \<le> of_nat (2 ^ k)" by (rule of_nat_mono)
      then show ?thesis by simp
    qed
    ultimately show ?thesis using nq unfolding e(2) unfolding e(1) by (simp add: power_int_def)
  next
    case False
    define n where "n = nat \<lceil>1 / q\<rceil>"
    define k where "k = ceillog2 n"
    have q: "0 < q" "q < 1" using assms False by auto
    have one: "1 < 1 / q" using q by (simp add: field_simps)
    have n: "1 < n" using one by (simp add: n_def)
    have nq: "1 / q \<le> of_nat n" "of_nat n < 1 / q + 1"
      using one ceiling_correct [of "1/q"] by (simp_all add: n_def)
    have up: "n \<le> 2 ^ k" by (simp add: k_def le_two_power_ceillog2)
    have "k \<noteq> 0" using up n by (cases k) auto
    then obtain j where j: "k = Suc j" by (cases k) auto
    have "2 ^ k < 2 * n" using two_power_ceillog2_gt [of n] n by (simp add: k_def)
    then have lo: "2 ^ j < n" by (simp add: j)
    have "1 / q \<le> 2 ^ k"
      using nq(1) up by (metis of_nat_le_iff of_nat_numeral of_nat_power order_trans)
    then have "1 / 2 ^ k \<le> q" using q by (simp add: field_simps)
    moreover have "2 ^ j < 1 / q"
    proof -
      have "2 ^ j + 1 \<le> n" using lo by simp
      then have "(of_nat (2 ^ j + 1) :: rat) \<le> of_nat n" by (rule of_nat_mono)
      then show ?thesis using nq(2) by simp
    qed
    then have "q < 1 / 2 ^ j" using q by (simp add: field_simps)
    moreover have e: "flog2 q = - int k" "flog2 q + 1 = - int j"
      using False j by (simp_all add: flog2_def k_def n_def)
    ultimately show ?thesis unfolding e(2) unfolding e(1)
      by (simp add: power_int_minus inverse_eq_divide)
  qed
  then show "2 powi flog2 q \<le> q" and "q < 2 powi (flog2 q + 1)" by auto
qed

lemma flog2_mono: "0 < p \<Longrightarrow> p \<le> q \<Longrightarrow> flog2 p \<le> flog2 q"
proof (rule ccontr)
  assume pq: "0 < p" "p \<le> q" and "\<not> flog2 p \<le> flog2 q"
  then have "flog2 q + 1 \<le> flog2 p" by simp
  then have "(2::rat) powi (flog2 q + 1) \<le> 2 powi flog2 p"
    by (intro power_int_increasing) auto
  with flog2_bounds(1) [of p] flog2_bounds(2) [of q] pq show False by linarith
qed

lemma round_half_even_mono: "p \<le> q \<Longrightarrow> round_half_even p \<le> round_half_even q"
proof -
  assume "p \<le> q"
  then have "\<lfloor>p\<rfloor> \<le> \<lfloor>q\<rfloor>" by (rule floor_mono)
  then consider "\<lfloor>p\<rfloor> = \<lfloor>q\<rfloor>" | "\<lfloor>p\<rfloor> + 1 \<le> \<lfloor>q\<rfloor>" by linarith
  then show ?thesis using \<open>p \<le> q\<close>
    by cases (auto simp: round_half_even_def Let_def)
qed

lemma round_half_even_of_int [simp]: "round_half_even (of_int n) = n"
  by (simp add: round_half_even_def)

lemma f64_pos_between:
  assumes "0 < q"
  shows "2 powi flog2 q \<le> f64_pos q" and "f64_pos q \<le> 2 powi (flog2 q + 1)"
proof -
  define e where "e = flog2 q - 52"
  define m where "m = q / 2 powi e"
  have pos: "(0::rat) < 2 powi e" by simp
  have split: "(2::rat) powi flog2 q = 2 powi 52 * 2 powi e"
    "(2::rat) powi (flog2 q + 1) = 2 powi 53 * 2 powi e"
    using powi_shift [of e 52] powi_shift [of e 53] by (simp_all add: e_def add.commute)
  have "of_int (2 ^ 52) \<le> m" "m \<le> of_int (2 ^ 53)"
    using flog2_bounds [OF assms] pos
    by (simp_all add: m_def split pos_le_divide_eq pos_divide_le_eq)
  then have "2 ^ 52 \<le> round_half_even m" "round_half_even m \<le> 2 ^ 53"
    using round_half_even_mono [of "of_int (2 ^ 52)" m] round_half_even_mono [of m "of_int (2 ^ 53)"]
    by (simp_all only: round_half_even_of_int)
  then have r: "(of_int (2 ^ 52) :: rat) \<le> of_int (round_half_even m)"
    "(of_int (round_half_even m) :: rat) \<le> of_int (2 ^ 53)"
    by (simp_all only: of_int_le_iff)
  have f: "f64_pos q = of_int (round_half_even m) * 2 powi e"
    by (simp add: f64_pos_def e_def m_def Let_def)
  show "2 powi flog2 q \<le> f64_pos q"
    unfolding f split using r(1) pos by (intro mult_right_mono) auto
  show "f64_pos q \<le> 2 powi (flog2 q + 1)"
    unfolding f split using r(2) pos by (intro mult_right_mono) auto
qed

lemma f64_pos_positive: "0 < q \<Longrightarrow> 0 < f64_pos q"
  using f64_pos_between(1) [of q] by (meson less_le_trans zero_less_numeral zero_less_power_int)

lemma f64_pos_mono:
  assumes "0 < p" and "p \<le> q"
  shows "f64_pos p \<le> f64_pos q"
proof (cases "flog2 p = flog2 q")
  case True
  have pos: "(0::rat) < 2 powi (flog2 q - 52)" by simp
  have "p / 2 powi (flog2 q - 52) \<le> q / 2 powi (flog2 q - 52)"
    using assms pos by (intro divide_right_mono) auto
  then have "round_half_even (p / 2 powi (flog2 q - 52)) \<le> round_half_even (q / 2 powi (flog2 q - 52))"
    by (rule round_half_even_mono)
  with True pos show ?thesis
    by (simp add: f64_pos_def Let_def mult_right_mono)
next
  case False
  with flog2_mono [OF assms] have "flog2 p + 1 \<le> flog2 q" by simp
  then have "(2::rat) powi (flog2 p + 1) \<le> 2 powi flog2 q"
    by (intro power_int_increasing) auto
  with f64_pos_between(2) [OF assms(1)] f64_pos_between(1) [of q] assms
  show ?thesis by linarith
qed

lemma f64_0 [simp]: "f64 0 = 0"
  by (simp add: f64_def)

lemma f64_minus [simp]: "f64 (- q) = - f64 q"
  by (simp add: f64_def)

lemma f64_mono: "p \<le> q \<Longrightarrow> f64 p \<le> f64 q"
  using f64_pos_mono [of p q] f64_pos_mono [of "- q" "- p"]
    f64_pos_positive [of q] f64_pos_positive [of "- p"]
  by (auto simp: f64_def)

lemma f64_nonneg: "0 \<le> q \<Longrightarrow> 0 \<le> f64 q"
  using f64_mono [of 0 q] by simp

text \<open>A number with at most 53 significant bits is its own rounding.\<close>

definition representable :: "rat \<Rightarrow> bool" where
  "representable q \<longleftrightarrow> (\<exists>m e. \<bar>m\<bar> \<le> 2 ^ 53 \<and> q = of_int m * 2 powi e)"

lemma f64_exact_pos:
  assumes "0 < m" and "m < 2 ^ 53"
  shows "f64_pos (of_int m * 2 powi e) = of_int m * 2 powi e"
proof -
  define q where "q = (of_int m :: rat) * 2 powi e"
  have q: "0 < q" using assms by (simp add: q_def)
  have "q < of_int (2 ^ 53) * 2 powi e"
    unfolding q_def using assms by (intro mult_strict_right_mono) (simp_all only: of_int_less_iff, simp)
  also have "(of_int (2 ^ 53) :: rat) * 2 powi e = 2 powi (53 + e)"
    by (simp add: power_int_add)
  finally have lt: "q < 2 powi (53 + e)" .
  have "flog2 q < 53 + e"
  proof (rule ccontr)
    assume "\<not> flog2 q < 53 + e"
    then have "(2::rat) powi (53 + e) \<le> 2 powi flog2 q"
      by (intro power_int_increasing) auto
    with lt flog2_bounds(1) [OF q] show False by simp
  qed
  then obtain k where k: "e = (flog2 q - 52) + int k"
    using zle_iff_zadd [of "flog2 q - 52" e] by auto
  have "(2::rat) powi e = 2 ^ k * 2 powi (flog2 q - 52)"
    by (subst k) (rule powi_shift)
  then have "q = of_int m * (2 ^ k * 2 powi (flog2 q - 52))"
    unfolding q_def by (rule arg_cong)
  then have "q / 2 powi (flog2 q - 52) = of_int m * 2 ^ k"
    by (simp add: divide_eq_eq)
  also have "\<dots> = of_int (m * 2 ^ k)" by simp
  finally have eq: "q / 2 powi (flog2 q - 52) = of_int (m * 2 ^ k)" .
  have "f64_pos q = of_int (m * 2 ^ k) * 2 powi (flog2 q - 52)"
    unfolding f64_pos_def Let_def eq by (simp only: round_half_even_of_int)
  also have "\<dots> = q" using eq by (simp add: field_simps)
  finally show ?thesis by (simp add: q_def)
qed

lemma f64_representable:
  assumes "representable q"
  shows "f64 q = q"
proof -
  obtain m e where m: "\<bar>m\<bar> \<le> 2 ^ 53" and q: "q = of_int m * 2 powi e"
    using assms by (auto simp: representable_def)
  have pos: "f64_pos (of_int n * 2 powi e) = of_int n * 2 powi e" if n: "0 < n" "n \<le> 2 ^ 53" for n :: int
  proof (cases "n = 2 ^ 53")
    case True
    have "(of_int n :: rat) * 2 powi e = of_int 1 * 2 powi (53 + e)"
      by (simp add: True power_int_add)
    then show ?thesis using f64_exact_pos [of 1 "53 + e"] by simp
  next
    case False
    then show ?thesis using n by (intro f64_exact_pos) auto
  qed
  consider "m = 0" | "0 < m" | "m < 0" by linarith
  then show ?thesis
  proof cases
    case 3
    then have "of_int m * (2::rat) powi e < 0" by (simp add: mult_less_0_iff)
    then show ?thesis using pos [of "- m"] m 3 by (simp add: f64_def q)
  qed (use pos [of m] m in \<open>simp_all add: f64_def q\<close>)
qed

lemma representable_f64 [simp]: "representable (f64 q)"
proof -
  have pos: "\<exists>m e. \<bar>m\<bar> \<le> 2 ^ 53 \<and> f64_pos p = of_int m * 2 powi e" if p: "0 < p" for p
  proof -
    define e where "e = flog2 p - 52"
    define m where "m = round_half_even (p / 2 powi e)"
    have f: "f64_pos p = of_int m * 2 powi e"
      by (simp add: f64_pos_def e_def m_def Let_def)
    have "of_int m * 2 powi e \<le> (2::rat) ^ 53 * 2 powi e"
      using f64_pos_between(2) [OF p] powi_shift [of e 53] unfolding f by (simp add: e_def add.commute)
    then have "(of_int m :: rat) \<le> of_int (2 ^ 53)" by simp
    then have le: "m \<le> 2 ^ 53" by (simp only: of_int_le_iff)
    have "0 < of_int m * (2::rat) powi e" using f64_pos_positive [OF p] by (simp add: f)
    moreover have "(0::rat) < 2 powi e" by simp
    ultimately have "0 < m" by (metis of_int_0_less_iff zero_less_mult_pos2)
    then show ?thesis using f le by (intro exI [of _ m] exI [of _ e]) auto
  qed
  consider "q = 0" | "0 < q" | "q < 0" by linarith
  then show ?thesis
  proof cases
    case 1
    then show ?thesis by (auto simp: representable_def intro!: exI [of _ 0])
  next
    case 2
    then show ?thesis using pos [of q] by (simp add: f64_def representable_def)
  next
    case 3
    then obtain m e where m: "\<bar>m\<bar> \<le> 2 ^ 53" "f64_pos (- q) = of_int m * 2 powi e"
      using pos [of "- q"] by auto
    then have "f64 q = of_int (- m) * 2 powi e" using 3 by (simp add: f64_def)
    moreover have "\<bar>- m\<bar> \<le> 2 ^ 53" using m by simp
    ultimately show ?thesis unfolding representable_def by blast
  qed
qed

lemma f64_idem [simp]: "f64 (f64 q) = f64 q"
  by (rule f64_representable) simp

lemma representable_of_int: "\<bar>n\<bar> \<le> 2 ^ 53 \<Longrightarrow> representable (of_int n)"
  unfolding representable_def by (intro exI [of _ n] exI [of _ 0]) simp

lemma float_of_exact: "\<bar>n\<bar> \<le> 2 ^ 53 \<Longrightarrow> float_of n = of_int n"
  by (simp add: float_of_def f64_representable representable_of_int)

lemma float_of_mono: "m \<le> n \<Longrightarrow> float_of m \<le> float_of n"
  by (simp add: float_of_def f64_mono)

lemma float_of_nonneg: "0 \<le> n \<Longrightarrow> 0 \<le> float_of n"
  by (simp add: float_of_def f64_nonneg)

lemma f64_le_representable: "representable b \<Longrightarrow> q \<le> b \<Longrightarrow> f64 q \<le> b"
  using f64_mono [of q b] by (simp add: f64_representable)

lemma f64_ge_representable: "representable b \<Longrightarrow> b \<le> q \<Longrightarrow> b \<le> f64 q"
  using f64_mono [of b q] by (simp add: f64_representable)

lemma ftrunc_mono: "p \<le> q \<Longrightarrow> ftrunc p \<le> ftrunc q"
proof -
  assume "p \<le> q"
  consider "0 \<le> p" | "q < 0" | "p < 0" "0 \<le> q" by linarith
  then show ?thesis
  proof cases
    case 1
    then show ?thesis using \<open>p \<le> q\<close> by (simp add: ftrunc_def floor_mono)
  next
    case 2
    then show ?thesis using \<open>p \<le> q\<close> by (simp add: ftrunc_def ceiling_mono)
  next
    case 3
    then have "\<lceil>p\<rceil> \<le> 0" "0 \<le> \<lfloor>q\<rfloor>" by (simp_all add: ceiling_le_iff)
    then have "\<lceil>p\<rceil> \<le> \<lfloor>q\<rfloor>" by (rule order_trans)
    with 3 show ?thesis by (simp add: ftrunc_def)
  qed
qed

lemma ftrunc_of_int [simp]: "ftrunc (of_int n) = n"
  by (simp add: ftrunc_def)

lemma ftrunc_nonneg: "0 \<le> q \<Longrightarrow> 0 \<le> ftrunc q"
  by (simp add: ftrunc_def)

lemma int64_of_float_in_range:
  "min_int64 \<le> ftrunc q \<Longrightarrow> ftrunc q \<le> max_int64 \<Longrightarrow> int64_of_float ovf q = ftrunc q"
  by (simp add: int64_of_float_def)

text \<open>The rounding of a concrete positive number, from its binary exponent and the nearest
  multiple of the last place.\<close>

lemma flog2_unique:
  assumes "2 powi e \<le> q" and "q < 2 powi (e + 1)"
  shows "flog2 q = e"
proof -
  have q: "0 < q" using assms(1) by (meson less_le_trans zero_less_numeral zero_less_power_int)
  have "\<not> flog2 q < e"
  proof
    assume "flog2 q < e"
    then have "(2::rat) powi (flog2 q + 1) \<le> 2 powi e" by (intro power_int_increasing) auto
    with flog2_bounds(2) [OF q] assms(1) show False by simp
  qed
  moreover have "\<not> e < flog2 q"
  proof
    assume "e < flog2 q"
    then have "(2::rat) powi (e + 1) \<le> 2 powi flog2 q" by (intro power_int_increasing) auto
    with flog2_bounds(1) [OF q] assms(2) show False by simp
  qed
  ultimately show ?thesis by simp
qed

lemma round_half_even_unique:
  assumes "2 * \<bar>q - of_int n\<bar> < 1"
  shows "round_half_even q = n"
proof -
  have q: "of_int n - 1 / 2 < q" "q < of_int n + 1 / 2"
    using assms by (simp_all add: field_simps abs_if split: if_splits)
  show ?thesis
  proof (cases "of_int n \<le> q")
    case True
    then have "\<lfloor>q\<rfloor> = n" using q by (simp add: floor_eq_iff)
    then show ?thesis using q by (simp add: round_half_even_def Let_def)
  next
    case False
    then have "\<lfloor>q\<rfloor> = n - 1" using q by (simp add: floor_eq_iff)
    then show ?thesis using q by (simp add: round_half_even_def Let_def)
  qed
qed

lemma f64_eqI:
  assumes "2 ^ 52 \<le> q * 2 ^ k" and "q * 2 ^ k < 2 ^ 53" and "2 * \<bar>q * 2 ^ k - of_int n\<bar> < 1"
  shows "f64 q = of_int n / 2 ^ k"
proof -
  define e where "e = 52 - int k"
  have inv: "(2::rat) powi (- int k) = 1 / 2 ^ k"
    by (simp add: power_int_minus inverse_eq_divide)
  have "(2::rat) powi e = 2 ^ 52 / 2 ^ k" "(2::rat) powi (e + 1) = 2 ^ 53 / 2 ^ k"
    using powi_shift [of "- int k" 52] powi_shift [of "- int k" 53] inv by (simp_all add: e_def)
  then have b: "2 powi e \<le> q" "q < 2 powi (e + 1)"
    using assms(1,2) by (simp_all add: divide_le_eq less_divide_eq)
  have s: "(2::rat) powi (e - 52) = 1 / 2 ^ k" using inv by (simp add: e_def)
  have r: "round_half_even (q * 2 ^ k) = n" using assms(3) by (rule round_half_even_unique)
  have "0 < q" using b(1) by (meson less_le_trans zero_less_numeral zero_less_power_int)
  then show ?thesis
    by (simp add: f64_def f64_pos_def Let_def flog2_unique [OF b] s r)
qed

end
