(* ===== verification/Pool_Health.thy ===== *)
theory Pool_Health
  imports Float64
begin

text \<open>
  Package \<^verbatim>\<open>pool\<close>, health half: \<^verbatim>\<open>HealthTracker\<close> (\<^verbatim>\<open>src/pool/identity.go\<close>) and
  \<^verbatim>\<open>BackoffConfig\<close> (\<^verbatim>\<open>src/pool/options.go\<close>). The counters are Go ints that only ever
  count calls; they are modelled as integers without their 2^63 limit. Every method
  runs under the tracker's mutex, so each is one step on the state. The random number
  of \<^verbatim>\<open>rand.Float64()\<close> is an argument.
\<close>

subsection \<open>HealthTracker\<close>

record health_tracker =
  total_requests :: int
  failed_requests :: int
  consecutive_failures :: int
  min_requests :: int
  fail_threshold :: rat
  max_consec_failures :: int
  trip_count :: int
  tripped :: bool

definition new_health_tracker :: "int \<Rightarrow> rat \<Rightarrow> int \<Rightarrow> health_tracker" where
  "new_health_tracker mr ft mc =
     \<lparr>total_requests = 0, failed_requests = 0, consecutive_failures = 0,
      min_requests = mr, fail_threshold = ft, max_consec_failures = mc,
      trip_count = 0, tripped = False\<rparr>"

definition default_health_tracker :: health_tracker where
  "default_health_tracker = new_health_tracker 10 (f64 (8 / 10)) 5"

definition record_success :: "health_tracker \<Rightarrow> health_tracker" where
  "record_success h =
     h\<lparr>total_requests := total_requests h + 1, consecutive_failures := 0, tripped := False\<rparr>"

definition failure_rate :: "health_tracker \<Rightarrow> rat" where
  "failure_rate h = fdiv (float_of (failed_requests h)) (float_of (total_requests h))"

text \<open>The verdict of \<^verbatim>\<open>RecordFailure\<close> on the counters it has just incremented.\<close>

definition over_threshold :: "health_tracker \<Rightarrow> bool" where
  "over_threshold h =
     (let trip = max_consec_failures h \<le> consecutive_failures h
      in if \<not> trip \<and> min_requests h \<le> total_requests h
         then fail_threshold h \<le> failure_rate h else trip)"

definition record_failure :: "health_tracker \<Rightarrow> bool \<times> health_tracker" where
  "record_failure h =
     (let h1 = h\<lparr>total_requests := total_requests h + 1,
                 failed_requests := failed_requests h + 1,
                 consecutive_failures := consecutive_failures h + 1\<rparr>;
          trip = over_threshold h1;
          h2 = (if trip \<and> \<not> tripped h1
                then h1\<lparr>trip_count := trip_count h1 + 1, tripped := True\<rparr> else h1)
      in (trip, h2))"

definition tracker_stats :: "health_tracker \<Rightarrow> int \<times> int \<times> int" where
  "tracker_stats h = (total_requests h, failed_requests h, consecutive_failures h)"

definition tracker_trip_count :: "health_tracker \<Rightarrow> int" where
  "tracker_trip_count h = trip_count h"

definition tracker_reset :: "health_tracker \<Rightarrow> health_tracker" where
  "tracker_reset h =
     h\<lparr>consecutive_failures := 0, failed_requests := 0, total_requests := 0,
       trip_count := 0, tripped := False\<rparr>"

text \<open>A sequence of calls; the list collects what each \<^verbatim>\<open>RecordFailure\<close> returned.\<close>

datatype tracker_call = CallSuccess | CallFailure | CallReset

fun tracker_call_step :: "tracker_call \<Rightarrow> health_tracker \<Rightarrow> bool \<times> health_tracker" where
  "tracker_call_step CallSuccess h = (False, record_success h)"
| "tracker_call_step CallFailure h = record_failure h"
| "tracker_call_step CallReset h = (False, tracker_reset h)"

fun tracker_run :: "tracker_call list \<Rightarrow> health_tracker \<Rightarrow> bool list \<times> health_tracker" where
  "tracker_run [] h = ([], h)"
| "tracker_run (c # cs) h =
     (let (b, h1) = tracker_call_step c h; (bs, h2) = tracker_run cs h1 in (b # bs, h2))"

text \<open>
  The specification of \<^verbatim>\<open>TripCount\<close>, on the calls and their verdicts alone: a failure
  that trips counts when the call before it was not itself a tripping failure, and a
  reset forgets all of it. \<open>prev\<close> is the verdict of the call before.
\<close>

fun rising_edges :: "bool \<Rightarrow> int \<Rightarrow> (tracker_call \<times> bool) list \<Rightarrow> int" where
  "rising_edges prev n [] = n"
| "rising_edges prev n ((CallReset, b) # ts) = rising_edges False 0 ts"
| "rising_edges prev n ((c, b) # ts) = rising_edges b (if b \<and> \<not> prev then n + 1 else n) ts"

definition tracker_inv :: "health_tracker \<Rightarrow> bool" where
  "tracker_inv h \<longleftrightarrow>
     0 \<le> failed_requests h \<and> failed_requests h \<le> total_requests h \<and>
     0 \<le> consecutive_failures h \<and> consecutive_failures h \<le> failed_requests h \<and>
     0 \<le> trip_count h \<and> (tripped h \<longrightarrow> over_threshold h \<and> 0 < total_requests h)"

named_theorems tracker_defs
declare new_health_tracker_def [tracker_defs] record_success_def [tracker_defs]
  record_failure_def [tracker_defs] tracker_reset_def [tracker_defs]
  over_threshold_def [tracker_defs]


lemma failure_rate_mono:
  assumes "0 \<le> f" and "f \<le> t" and "0 < t" and "t < 2 ^ 53"
  shows "fdiv (float_of f) (float_of t) \<le> fdiv (float_of (f + 1)) (float_of (t + 1))"
proof -
  have "f * (t + 1) \<le> (f + 1) * t" using assms by (simp add: algebra_simps)
  then have "(of_int (f * (t + 1)) :: rat) \<le> of_int ((f + 1) * t)" by (simp only: of_int_le_iff)
  then have "(of_int f :: rat) / of_int t \<le> of_int (f + 1) / of_int (t + 1)"
    using assms by (simp add: frac_le_eq divide_le_eq algebra_simps) (simp add: field_simps)
  then show ?thesis
    using assms by (simp add: fdiv_def float_of_exact f64_mono del: of_int_add)
qed

lemma over_threshold_after_failure:
  assumes inv: "tracker_inv h" and trip: "tripped h" and small: "total_requests h < 2 ^ 53"
  shows "fst (record_failure h)"
proof -
  have old: "over_threshold h" and pos: "0 < total_requests h"
    and c: "0 \<le> failed_requests h" "failed_requests h \<le> total_requests h"
    using inv trip by (auto simp: tracker_inv_def)
  note mono = failure_rate_mono [OF c pos small]
  show ?thesis
  proof (cases "max_consec_failures h \<le> consecutive_failures h")
    case True
    then show ?thesis by (simp add: record_failure_def over_threshold_def Let_def)
  next
    case False
    with old have "min_requests h \<le> total_requests h" "fail_threshold h \<le> failure_rate h"
      by (auto simp: over_threshold_def Let_def split: if_splits)
    then show ?thesis using mono
      by (auto simp: record_failure_def over_threshold_def failure_rate_def Let_def)
  qed
qed

lemma tracker_inv_new: "tracker_inv (new_health_tracker mr ft mc)"
  by (simp add: tracker_inv_def new_health_tracker_def)

lemma over_threshold_counters [simp]:
  "over_threshold (h\<lparr>trip_count := n\<rparr>) = over_threshold h"
  "over_threshold (h\<lparr>tripped := b\<rparr>) = over_threshold h"
  by (simp_all add: over_threshold_def failure_rate_def)

lemma tracker_inv_success: "tracker_inv h \<Longrightarrow> tracker_inv (record_success h)"
  by (simp add: tracker_inv_def record_success_def)

lemma tracker_inv_reset: "tracker_inv h \<Longrightarrow> tracker_inv (tracker_reset h)"
  by (simp add: tracker_inv_def tracker_reset_def)

lemma tracker_inv_failure:
  assumes "tracker_inv h" and "total_requests h < 2 ^ 53"
  shows "tracker_inv (snd (record_failure h))"
    and "tripped (snd (record_failure h)) = fst (record_failure h)"
    and "total_requests (snd (record_failure h)) = total_requests h + 1"
    and "trip_count (snd (record_failure h)) =
           (if fst (record_failure h) \<and> \<not> tripped h then trip_count h + 1 else trip_count h)"
  using assms over_threshold_after_failure [OF assms(1) _ assms(2)]
  by (auto simp: tracker_inv_def record_failure_def Let_def)

text \<open>The two components of a run, one call at a time.\<close>

lemma tracker_run_Cons [simp]:
  "fst (tracker_run (c # cs) h) =
     fst (tracker_call_step c h) # fst (tracker_run cs (snd (tracker_call_step c h)))"
  "snd (tracker_run (c # cs) h) = snd (tracker_run cs (snd (tracker_call_step c h)))"
  by (simp_all add: split_beta Let_def)

declare tracker_run.simps(2) [simp del]

lemma tracker_step_facts:
  "consecutive_failures (snd (record_failure h)) = consecutive_failures h + 1"
  "max_consec_failures (snd (tracker_call_step c h)) = max_consec_failures h"
  "min_requests (snd (tracker_call_step c h)) = min_requests h"
  "0 \<le> consecutive_failures h \<Longrightarrow> 0 \<le> consecutive_failures (snd (tracker_call_step c h))"
  by (cases c; simp add: record_failure_def record_success_def tracker_reset_def Let_def)+

lemma tracker_step_inv:
  assumes "tracker_inv h" and "total_requests h < 2 ^ 53"
  shows "tracker_inv (snd (tracker_call_step c h))"
    and "total_requests (snd (tracker_call_step c h)) \<le> total_requests h + 1"
  using assms tracker_inv_failure(1,3) [OF assms]
  by (cases c; simp add: tracker_inv_success tracker_inv_reset record_success_def tracker_reset_def
      tracker_inv_def)+

lemma tracker_run_rising_edges:
  assumes "tracker_inv h" and "total_requests h + int (length cs) \<le> 2 ^ 53"
  shows "trip_count (snd (tracker_run cs h)) =
           rising_edges (tripped h) (trip_count h) (zip cs (fst (tracker_run cs h)))"
  using assms
proof (induction cs arbitrary: h)
  case Nil
  then show ?case by simp
next
  case (Cons c cs)
  have small: "total_requests h < 2 ^ 53" using Cons.prems by simp
  have "rising_edges (tripped h) (trip_count h) ((c, fst (tracker_call_step c h)) # ts) =
        rising_edges (tripped (snd (tracker_call_step c h))) (trip_count (snd (tracker_call_step c h))) ts" for ts
    using Cons.prems tracker_inv_failure [OF Cons.prems(1) small]
    by (cases c) (auto simp: record_success_def tracker_reset_def)
  with Cons.IH [of "snd (tracker_call_step c h)"] Cons.prems tracker_step_inv [OF Cons.prems(1) small, of c]
  show ?case by simp
qed

lemma record_failure_iff:
  "fst (record_failure h) \<longleftrightarrow>
     max_consec_failures h \<le> consecutive_failures h + 1 \<or>
     min_requests h \<le> total_requests h + 1 \<and>
     fail_threshold h \<le> fdiv (float_of (failed_requests h + 1)) (float_of (total_requests h + 1))"
  by (auto simp: record_failure_def over_threshold_def failure_rate_def Let_def)

text \<open>C36: \<^verbatim>\<open>TripCount\<close> counts rising edges. Over any sequence of successes,
  failures and resets of a new tracker (fewer than 2^53 of them, so that every count is
  an exact float64), the counter is the number of tripping failures whose predecessor
  was not itself a tripping failure, since the last reset.\<close>

theorem trip_count_counts_rising_edges:
  assumes "int (length cs) \<le> 2 ^ 53"
  shows "trip_count (snd (tracker_run cs (new_health_tracker mr ft mc))) =
           rising_edges False 0 (zip cs (fst (tracker_run cs (new_health_tracker mr ft mc))))"
  using tracker_run_rising_edges [OF tracker_inv_new, of mr ft mc cs] assms
  by (simp add: new_health_tracker_def)

theorem trip_count_counts_rising_edges_witness:
  "trip_count (snd (tracker_run [CallFailure, CallFailure, CallFailure, CallSuccess, CallFailure, CallFailure]
     (new_health_tracker 100 1 2))) = 2"
  by (subst trip_count_counts_rising_edges)
    (simp_all add: new_health_tracker_def record_failure_def record_success_def over_threshold_def)

lemma tracker_run_append:
  "fst (tracker_run (cs @ ds) h) = fst (tracker_run cs h) @ fst (tracker_run ds (snd (tracker_run cs h)))"
  "snd (tracker_run (cs @ ds) h) = snd (tracker_run ds (snd (tracker_run cs h)))"
  by (induction cs arbitrary: h) auto

lemma tracker_run_facts:
  "consecutive_failures (snd (tracker_run (replicate n CallFailure) h)) = consecutive_failures h + int n"
  "max_consec_failures (snd (tracker_run cs h)) = max_consec_failures h"
  "0 \<le> consecutive_failures h \<Longrightarrow> 0 \<le> consecutive_failures (snd (tracker_run cs h))"
proof -
  show "consecutive_failures (snd (tracker_run (replicate n CallFailure) h)) = consecutive_failures h + int n"
    by (induction n arbitrary: h) (simp_all add: tracker_step_facts)
qed (induction cs arbitrary: h; simp add: tracker_step_facts)+

lemma no_early_trip:
  assumes "tracker_inv h" and "total_requests h + int (length cs) < max_consec_failures h"
    and "total_requests h + int (length cs) < min_requests h" and "total_requests h + int (length cs) < 2 ^ 53"
  shows "\<forall>b\<in>set (fst (tracker_run cs h)). \<not> b"
  using assms
proof (induction cs arbitrary: h)
  case (Cons c cs)
  have small: "total_requests h < 2 ^ 53" using Cons.prems by simp
  have "\<not> fst (tracker_call_step c h)"
    using Cons.prems record_failure_iff [of h] by (cases c) (auto simp: tracker_inv_def)
  then show ?case
    using Cons.IH [of "snd (tracker_call_step c h)"] Cons.prems tracker_step_inv [OF Cons.prems(1) small, of c]
    by (simp add: tracker_step_facts)
qed simp

text \<open>A dead item is always detected, and a new one never early. After any history,
  the last of \<open>n\<close> failures in a row reports a trip once \<open>n\<close> reaches the
  consecutive-failure limit; and the first calls on a tracker, as long as their number is
  below both limits, report none.\<close>

theorem trip_detected_and_not_early:
  assumes "0 < n" and "mc \<le> int n"
    and "int (length cs) < mc" and "int (length cs) < mr" and "int (length cs) < 2 ^ 53"
  shows "last (fst (tracker_run (pre @ replicate n CallFailure) (new_health_tracker mr ft mc))) \<and>
         (\<forall>b\<in>set (fst (tracker_run cs (new_health_tracker mr ft mc))). \<not> b)"
proof
  obtain k where n: "n = Suc k" using assms(1) by (cases n) auto
  define h where "h = snd (tracker_run (pre @ replicate k CallFailure) (new_health_tracker mr ft mc))"
  have "max_consec_failures h = mc" "int k \<le> consecutive_failures h"
    using tracker_run_facts(3) [of "new_health_tracker mr ft mc" pre]
    by (simp_all add: h_def tracker_run_append tracker_run_facts new_health_tracker_def)
  then have "fst (record_failure h)"
    using assms(2) n by (simp add: record_failure_iff)
  moreover have "pre @ replicate n CallFailure = (pre @ replicate k CallFailure) @ [CallFailure]"
    by (simp add: n replicate_append_same)
  ultimately show "last (fst (tracker_run (pre @ replicate n CallFailure) (new_health_tracker mr ft mc)))"
    by (simp only: tracker_run_append(1) [of "pre @ replicate k CallFailure"]) (simp add: h_def)
next
  show "\<forall>b\<in>set (fst (tracker_run cs (new_health_tracker mr ft mc))). \<not> b"
    using no_early_trip [OF tracker_inv_new, of mr ft mc cs] assms(3-5)
    by (simp add: new_health_tracker_def)
qed

theorem trip_detected_and_not_early_witness:
  "last (fst (tracker_run ([CallSuccess] @ replicate 5 CallFailure) default_health_tracker))"
  unfolding default_health_tracker_def
  by (rule trip_detected_and_not_early [where cs = "[CallFailure, CallFailure]", THEN conjunct1]) simp_all

subsection \<open>Backoff\<close>

record backoff_config =
  initial_wait :: duration
  max_wait :: duration
  multiplier :: rat
  jitter_pct :: rat

definition default_proxy_backoff :: backoff_config where
  "default_proxy_backoff =
     \<lparr>initial_wait = 30 * second, max_wait = 30 * minute, multiplier = 2, jitter_pct = f64 (3 / 10)\<rparr>"

definition default_non_responsive_backoff :: backoff_config where
  "default_non_responsive_backoff =
     \<lparr>initial_wait = 5 * minute, max_wait = 30 * minute, multiplier = 2, jitter_pct = f64 (3 / 10)\<rparr>"

record pool_config =
  pc_alert_hook :: bool
  pc_proxy_backoff :: backoff_config
  pc_non_responsive_backoff :: backoff_config

definition default_pool_config :: pool_config where
  "default_pool_config =
     \<lparr>pc_alert_hook = False, pc_proxy_backoff = default_proxy_backoff,
      pc_non_responsive_backoff = default_non_responsive_backoff\<rparr>"

text \<open>The wait before jitter, shared with the proofs; \<open>u\<close> is \<^verbatim>\<open>rand.Float64()\<close>.\<close>

definition backoff_base :: "backoff_config \<Rightarrow> nat \<Rightarrow> rat" where
  "backoff_base b attempt =
     (let base = fmul (float_of (initial_wait b)) (fpow (multiplier b) attempt)
      in if float_of (max_wait b) < base then float_of (max_wait b) else base)"

definition pool_backoff_duration ::
    "(rat \<Rightarrow> int) \<Rightarrow> rat \<Rightarrow> backoff_config \<Rightarrow> int \<Rightarrow> duration" where
  "pool_backoff_duration ovf u b trip =
     (let attempt = (if trip - 1 < 0 then 0 else trip - 1);
          base = backoff_base b (nat attempt);
          jitter = fmul (fmul base (jitter_pct b)) (fsub (fmul 2 u) 1)
      in max (int64_of_float ovf (fadd base jitter)) 0)"

lemma fmul_le_abs:
  assumes "0 \<le> x" and "representable x" and "\<bar>y\<bar> \<le> 1"
  shows "fmul x y \<le> x" and "- x \<le> fmul x y"
proof -
  have "x * y \<le> x" "- x \<le> x * y"
    using assms mult_left_mono [of y 1 x] mult_left_mono [of "- 1" y x] by auto
  then show "fmul x y \<le> x" "- x \<le> fmul x y"
    using f64_le_representable [OF assms(2)] f64_mono [of "- x" "x * y"] f64_representable [OF assms(2)]
    by (auto simp: fmul_def)
qed

lemma jitter_factor_bounds:
  assumes "0 \<le> u" and "u \<le> 1"
  shows "\<bar>fsub (fmul 2 u) 1\<bar> \<le> 1"
proof -
  have two: "representable 2" "representable 1"
    using representable_of_int [of 2] representable_of_int [of 1] by auto
  have "0 \<le> f64 (2 * u)" "f64 (2 * u) \<le> 2"
    using assms f64_nonneg f64_le_representable [OF two(1)] by auto
  then show ?thesis
    using f64_le_representable [OF two(2), of "f64 (2 * u) - 1"] f64_mono [of "- 1" "f64 (2 * u) - 1"]
      f64_representable [OF two(2)]
    by (simp add: fsub_def fmul_def abs_le_iff)
qed

lemma backoff_base_bounds:
  assumes "0 \<le> initial_wait b" and "0 \<le> multiplier b" and "0 \<le> max_wait b"
  shows "0 \<le> backoff_base b n" and "backoff_base b n \<le> float_of (max_wait b)"
    and "representable (backoff_base b n)"
  using assms
  by (auto simp: backoff_base_def Let_def fmul_def fpow_def float_of_def f64_nonneg)

text \<open>Adding a jitter of at most \<open>base * pct\<close> either way keeps the wait between two
  bounds that do not depend on the random number.\<close>

lemma pool_backoff_duration_between:
  assumes "0 \<le> initial_wait b" and "0 \<le> multiplier b" and "0 \<le> max_wait b" and "max_wait b \<le> 2 ^ 61"
    and "0 \<le> jitter_pct b" and "jitter_pct b \<le> 1" and "0 \<le> u" and "u \<le> 1"
  and B_def: "B = backoff_base b (nat (trip - 1))"
  shows "ftrunc (fsub B (fmul B (jitter_pct b))) \<le> pool_backoff_duration ovf u b trip"
    and "pool_backoff_duration ovf u b trip \<le> ftrunc (fadd B (fmul B (jitter_pct b)))"
    and "0 \<le> pool_backoff_duration ovf u b trip"
proof -
  note B = backoff_base_bounds [OF assms(1-3), of "nat (trip - 1)", folded B_def]
  define J where "J = fmul B (jitter_pct b)"
  define j where "j = fmul J (fsub (fmul 2 u) 1)"
  have J: "0 \<le> J" "J \<le> B"
    using fmul_le_abs [OF B(1,3), of "jitter_pct b"] assms(5,6) B(1)
    by (auto simp: J_def fmul_def f64_nonneg)
  have j: "- J \<le> j" "j \<le> J"
    using fmul_le_abs [OF J(1) _ jitter_factor_bounds [OF assms(7,8)]] by (auto simp: j_def J_def fmul_def)
  have big: "representable (2 ^ 61)" "representable (2 ^ 62)"
    unfolding representable_def by (rule exI [of _ 1], rule exI [of _ 61], simp) (rule exI [of _ 1], rule exI [of _ 62], simp)
  have "(of_int (max_wait b) :: rat) \<le> of_int (2 ^ 61)" using assms(4) by (simp only: of_int_le_iff)
  then have "float_of (max_wait b) \<le> 2 ^ 61"
    unfolding float_of_def by (intro f64_le_representable big) simp
  with B(2) have B61: "B \<le> 2 ^ 61" by simp
  have low: "0 \<le> fadd B j" using j J by (auto simp: fadd_def intro: f64_nonneg)
  have "fadd B j \<le> 2 ^ 62" unfolding fadd_def
    using j J B61 by (intro f64_le_representable big) simp
  then have "ftrunc (fadd B j) \<le> ftrunc (of_int (2 ^ 62))" by (intro ftrunc_mono) simp
  then have rng: "min_int64 \<le> ftrunc (fadd B j)" "ftrunc (fadd B j) \<le> max_int64"
    using ftrunc_nonneg [OF low] by (simp_all only: ftrunc_of_int min_int64_def max_int64_def) simp_all
  have "nat (if trip - 1 < 0 then 0 else trip - 1) = nat (trip - 1)" by simp
  then have d: "pool_backoff_duration ovf u b trip = ftrunc (fadd B j)"
    using int64_of_float_in_range [OF rng] ftrunc_nonneg [OF low]
    by (simp add: pool_backoff_duration_def Let_def B_def J_def j_def)
  show "pool_backoff_duration ovf u b trip \<le> ftrunc (fadd B (fmul B (jitter_pct b)))"
    unfolding d J_def [symmetric] using j by (intro ftrunc_mono) (simp add: fadd_def f64_mono)
  show "ftrunc (fsub B (fmul B (jitter_pct b))) \<le> pool_backoff_duration ovf u b trip"
    unfolding d J_def [symmetric] using j by (intro ftrunc_mono) (simp add: fadd_def fsub_def f64_mono)
  show "0 \<le> pool_backoff_duration ovf u b trip"
    unfolding d using low by (rule ftrunc_nonneg)
qed

text \<open>The nominal cooldown of the default configuration: 5, 10, 20, then 30 minutes.\<close>

definition nominal_cooldown :: "int \<Rightarrow> duration" where
  "nominal_cooldown trip = min (5 * minute * 2 ^ nat (trip - 1)) (30 * minute)"

lemma default_backoff_base:
  "backoff_base default_non_responsive_backoff n = of_int (min (300000000000 * 2 ^ n) 1800000000000)"
proof -
  have rep: "representable (2 ^ n)"
    unfolding representable_def by (rule exI [of _ 1], rule exI [of _ "int n"]) simp
  have rep2: "representable (300000000000 * 2 ^ n)"
    unfolding representable_def by (rule exI [of _ 300000000000], rule exI [of _ "int n"]) simp
  have "float_of 300000000000 = 300000000000" "float_of 1800000000000 = 1800000000000"
    by (simp_all add: float_of_exact)
  moreover have "n = 0 \<or> n = 1 \<or> n = 2 \<or> 8 \<le> (2::rat) ^ n \<and> 8 \<le> (2::int) ^ n"
  proof (cases "n \<le> 2")
    case False
    then have "2 ^ 3 \<le> (2::rat) ^ n" "2 ^ 3 \<le> (2::int) ^ n"
      by (intro power_increasing; simp)+
    then show ?thesis by simp
  qed auto
  ultimately show ?thesis
    using f64_representable [OF rep] f64_representable [OF rep2]
    by (auto simp: backoff_base_def default_non_responsive_backoff_def time_units fmul_def fpow_def
        Let_def min_def)
qed

lemma nominal_cooldown_values:
  "nominal_cooldown trip \<in> {300000000000, 600000000000, 1200000000000, 1800000000000}"
proof -
  define n where "n = nat (trip - 1)"
  have "n = 0 \<or> n = 1 \<or> n = 2 \<or> 8 \<le> (2::int) ^ n"
  proof (cases "n \<le> 2")
    case False
    then have "2 ^ 3 \<le> (2::int) ^ n" by (intro power_increasing) auto
    then show ?thesis by simp
  qed auto
  then show ?thesis
    by (auto simp: nominal_cooldown_def time_units n_def [symmetric] min_def)
qed

lemma default_jitter_pct: "f64 (3 / 10) = 5404319552844595 / 18014398509481984"
  using f64_eqI [of "3 / 10" 54 5404319552844595] by simp

lemma thirty_percent:
  "fmul 300000000000 (f64 (3 / 10)) = 90000000000"
  "fmul 600000000000 (f64 (3 / 10)) = 180000000000"
  "fmul 1200000000000 (f64 (3 / 10)) = 360000000000"
  "fmul 1800000000000 (f64 (3 / 10)) = 540000000000"
  unfolding default_jitter_pct fmul_def
  using f64_eqI [of "300000000000 * (5404319552844595 / 18014398509481984)" 16 "90000000000 * 2 ^ 16"]
    f64_eqI [of "600000000000 * (5404319552844595 / 18014398509481984)" 15 "180000000000 * 2 ^ 15"]
    f64_eqI [of "1200000000000 * (5404319552844595 / 18014398509481984)" 14 "360000000000 * 2 ^ 14"]
    f64_eqI [of "1800000000000 * (5404319552844595 / 18014398509481984)" 14 "540000000000 * 2 ^ 14"]
  by simp_all

lemma ftrunc_int_arith:
  "\<bar>a - b\<bar> \<le> 2 ^ 53 \<Longrightarrow> ftrunc (fsub (of_int a) (of_int b)) = a - b"
  "\<bar>a + b\<bar> \<le> 2 ^ 53 \<Longrightarrow> ftrunc (fadd (of_int a) (of_int b)) = a + b"
  by (simp_all only: fsub_def fadd_def of_int_diff [symmetric] of_int_add [symmetric]
      f64_representable representable_of_int ftrunc_of_int)

text \<open>The default cooldown heals itself. Whatever the random number, the cooldown
  of trip \<open>n\<close> lies within 30 percent of 5 minutes doubled \<open>n - 1\<close> times and capped at
  30 minutes, so it is never more than 39 minutes however often the item has tripped.\<close>

theorem default_cooldown_window:
  assumes "0 \<le> u" and "u < 1"
  shows "7 * nominal_cooldown trip \<le> 10 * pool_backoff_duration ovf u default_non_responsive_backoff trip \<and>
         10 * pool_backoff_duration ovf u default_non_responsive_backoff trip \<le> 13 * nominal_cooldown trip \<and>
         nominal_cooldown trip \<le> 30 * minute"
proof -
  define b where "b = default_non_responsive_backoff"
  define n where "n = nat (trip - 1)"
  have "initial_wait b = 300000000000" "max_wait b = 1800000000000" "multiplier b = 2" "jitter_pct b = f64 (3 / 10)"
    by (simp_all add: b_def default_non_responsive_backoff_def time_units)
  moreover have "0 \<le> f64 (3 / 10)" "f64 (3 / 10) \<le> 1" unfolding default_jitter_pct by simp_all
  ultimately have bnd: "ftrunc (fsub (backoff_base b n) (fmul (backoff_base b n) (f64 (3 / 10)))) \<le> pool_backoff_duration ovf u b trip"
    "pool_backoff_duration ovf u b trip \<le> ftrunc (fadd (backoff_base b n) (fmul (backoff_base b n) (f64 (3 / 10))))"
    using pool_backoff_duration_between(1,2) [of b u "backoff_base b n" trip ovf] assms
    by (simp_all add: n_def)
  have base: "backoff_base b n = of_int (nominal_cooldown trip)"
    by (simp add: b_def default_backoff_base nominal_cooldown_def time_units n_def)
  have prod: "fmul (of_int (nominal_cooldown trip)) (f64 (3 / 10)) = of_int (3 * nominal_cooldown trip div 10)
      \<and> nominal_cooldown trip mod 10 = 0 \<and> 0 \<le> nominal_cooldown trip"
    using nominal_cooldown_values [of trip] thirty_percent by auto
  define N where "N = nominal_cooldown trip"
  have N: "0 \<le> N" "N \<le> 30 * minute" "N mod 10 = 0"
    using prod by (simp_all add: N_def nominal_cooldown_def)
  have "N \<le> 2 ^ 50" using N(2) by (simp add: time_units)
  then have "\<bar>N - 3 * N div 10\<bar> \<le> 2 ^ 53" "\<bar>N + 3 * N div 10\<bar> \<le> 2 ^ 53"
    using N(1) by (simp_all add: abs_le_iff)
  then have "N - 3 * N div 10 \<le> pool_backoff_duration ovf u b trip"
    "pool_backoff_duration ovf u b trip \<le> N + 3 * N div 10"
    using bnd prod unfolding base N_def [symmetric] by (simp_all add: ftrunc_int_arith)
  moreover have "N = 10 * (N div 10)" using N(3) by presburger
  ultimately show ?thesis
    using N(2) unfolding N_def [symmetric] b_def by linarith
qed

theorem default_cooldown_window_witness:
  "10 * pool_backoff_duration (\<lambda>_. min_int64) (1 / 2) default_non_responsive_backoff 7 \<le> 13 * nominal_cooldown 7"
  using default_cooldown_window [of "1 / 2" 7] by simp

end
