(* ===== verification/Pool.thy ===== *)
theory Pool
  imports Pool_Health "HOL-Library.Multiset"
begin

text \<open>
  Package \<^verbatim>\<open>pool\<close>, scheduling half (\<^verbatim>\<open>src/pool/pool.go\<close>). The items of a
  \<^verbatim>\<open>Pool[T Identity]\<close> are shared objects that the pool and its callers mutate through
  the \<^verbatim>\<open>Identity\<close> interface, so the model has an explicit store: the pool holds
  references \<open>'r\<close> and the store maps each to the fields the interface reads and writes.
  Every method but \<^verbatim>\<open>NextWithWait\<close> changes the state in one section under the pool's mutex
  and is one step on it; \<^verbatim>\<open>NextWithWait\<close> holds the mutex only inside its calls of
  \<^verbatim>\<open>Next\<close>, \<^verbatim>\<open>AvailableIn\<close> and \<^verbatim>\<open>Next\<close>, and what others do
  between these is an argument of it. Each reading of the clock is an argument. The alert hook, which
  is called after the mutex has been released, is a log of the calls it receives. \<^verbatim>\<open>idx\<close> is
  always one of the positions, so it is a natural number.
\<close>

record item =
  item_id :: string
  item_active :: bool
  item_reactivate_at :: time

datatype alert_reason = PermanentReason | SoftReason duration

record 'r pool =
  pool_items :: "'r list"
  pool_idx :: nat
  pool_hook :: bool
  pool_store :: "'r \<Rightarrow> item"
  pool_alerts :: "(string \<times> alert_reason) list"

datatype pool_error = PoolEmpty | AllUnavailable nat | WaitCancelled

definition new_pool :: "'r list \<Rightarrow> bool \<Rightarrow> ('r \<Rightarrow> item) \<Rightarrow> 'r pool" where
  "new_pool items hook store =
     \<lparr>pool_items = items, pool_idx = 0, pool_hook = hook, pool_store = store, pool_alerts = []\<rparr>"

subsection \<open>Next\<close>

text \<open>The auto-reactivation step, on one item and in the store.\<close>

definition reactivated :: "time \<Rightarrow> item \<Rightarrow> item" where
  "reactivated now it =
     (if \<not> item_active it \<and> item_reactivate_at it \<noteq> zero_time \<and> item_reactivate_at it < now
      then it\<lparr>item_active := True, item_reactivate_at := zero_time\<rparr> else it)"

definition reactivate :: "time \<Rightarrow> 'r \<Rightarrow> 'r pool \<Rightarrow> 'r pool" where
  "reactivate now r p = p\<lparr>pool_store := (pool_store p)(r := reactivated now (pool_store p r))\<rparr>"

text \<open>The caller's filter sees one item; None is the nil filter.\<close>

type_synonym 'r item_filter = "('r \<Rightarrow> item \<Rightarrow> bool) option"

definition passes :: "'r item_filter \<Rightarrow> 'r \<Rightarrow> item \<Rightarrow> bool" where
  "passes filt r it \<longleftrightarrow> (case filt of None \<Rightarrow> True | Some f \<Rightarrow> f r it)"

fun next_scan :: "'r item_filter \<Rightarrow> time \<Rightarrow> nat \<Rightarrow> nat \<Rightarrow> 'r pool \<Rightarrow> 'r option \<times> 'r pool" where
  "next_scan filt now i 0 p = (None, p)"
| "next_scan filt now i (Suc k) p =
     (let idx = (pool_idx p + i) mod length (pool_items p);
          r = pool_items p ! idx;
          p1 = reactivate now r p
      in if \<not> item_active (pool_store p1 r) then next_scan filt now (Suc i) k p1
         else if \<not> passes filt r (pool_store p1 r) then next_scan filt now (Suc i) k p1
         else (Some r, p1\<lparr>pool_idx := (idx + 1) mod length (pool_items p)\<rparr>))"

definition pool_next :: "'r item_filter \<Rightarrow> time \<Rightarrow> 'r pool \<Rightarrow> (pool_error + 'r) \<times> 'r pool" where
  "pool_next filt now p =
     (let n = length (pool_items p)
      in if n = 0 then (Inl PoolEmpty, p)
         else case next_scan filt now 0 n p of
                (None, p1) \<Rightarrow> (Inl (AllUnavailable n), p1)
              | (Some r, p1) \<Rightarrow> (Inr r, p1))"

subsection \<open>The other operations\<close>

definition alert :: "'r \<Rightarrow> alert_reason \<Rightarrow> 'r pool \<Rightarrow> 'r pool" where
  "alert r reason p =
     (if pool_hook p then p\<lparr>pool_alerts := pool_alerts p @ [(item_id (pool_store p r), reason)]\<rparr> else p)"

definition set_item :: "'r \<Rightarrow> bool \<Rightarrow> time \<Rightarrow> 'r pool \<Rightarrow> 'r pool" where
  "set_item r act ra p =
     p\<lparr>pool_store := (pool_store p)(r := (pool_store p r)\<lparr>item_active := act, item_reactivate_at := ra\<rparr>)\<rparr>"

definition deactivate_item :: "'r \<Rightarrow> 'r pool \<Rightarrow> 'r pool" where
  "deactivate_item r p = alert r PermanentReason (set_item r False zero_time p)"

definition soft_deactivate :: "'r \<Rightarrow> duration \<Rightarrow> time \<Rightarrow> 'r pool \<Rightarrow> 'r pool" where
  "soft_deactivate r cooldown now p =
     alert r (SoftReason cooldown) (set_item r False (now + cooldown) p)"

definition soft_deactivate_backoff ::
    "(rat \<Rightarrow> int) \<Rightarrow> rat \<Rightarrow> 'r \<Rightarrow> backoff_config \<Rightarrow> int \<Rightarrow> time \<Rightarrow> 'r pool \<Rightarrow> 'r pool" where
  "soft_deactivate_backoff ovf u r cfg trip now p =
     soft_deactivate r (pool_backoff_duration ovf u cfg trip) now p"

definition pool_add :: "'r \<Rightarrow> 'r pool \<Rightarrow> 'r pool" where
  "pool_add r p = p\<lparr>pool_items := pool_items p @ [r]\<rparr>"

definition pool_size :: "'r pool \<Rightarrow> nat" where
  "pool_size p = length (pool_items p)"

definition pool_healthy :: "'r item_filter \<Rightarrow> 'r pool \<Rightarrow> nat" where
  "pool_healthy filt p =
     length (filter (\<lambda>r. item_active (pool_store p r) \<and> passes filt r (pool_store p r)) (pool_items p))"

definition items_snapshot :: "'r pool \<Rightarrow> 'r list" where
  "items_snapshot p = pool_items p"

text \<open>The scan of \<^verbatim>\<open>AvailableIn\<close>: None when it meets an active item (the early
  return), otherwise the earliest reactivation time after \<open>now\<close>, zero if there is none.\<close>

fun earliest_scan :: "time \<Rightarrow> ('r \<Rightarrow> item) \<Rightarrow> time \<Rightarrow> 'r list \<Rightarrow> time option" where
  "earliest_scan now store earliest [] = Some earliest"
| "earliest_scan now store earliest (r # rs) =
     (if \<not> item_active (store r)
      then let ra = item_reactivate_at (store r)
           in if ra \<noteq> zero_time \<and> now < ra
              then earliest_scan now store
                     (if earliest = zero_time \<or> ra < earliest then ra else earliest) rs
              else earliest_scan now store earliest rs
      else None)"

definition available_in :: "time \<Rightarrow> time \<Rightarrow> 'r pool \<Rightarrow> duration" where
  "available_in now now2 p =
     (case earliest_scan now (pool_store p) zero_time (pool_items p) of
        None \<Rightarrow> 0
      | Some earliest \<Rightarrow>
          if earliest = zero_time then 0
          else let wait = time_sub earliest now2 in if wait \<le> 0 then 0 else wait)"

text \<open>\<^verbatim>\<open>NextWithWait\<close>: the clock readings of the two calls of \<^verbatim>\<open>Next\<close> and of
  \<^verbatim>\<open>AvailableIn\<close>, and whether the timer or the context fired in the \<^verbatim>\<open>select\<close>.
  The mutex is free between the calls: \<open>others\<close> is what other goroutines do to the pool before
  \<^verbatim>\<open>AvailableIn\<close> takes it, \<open>meanwhile\<close> what they do during the wait.\<close>

definition next_with_wait ::
    "'r item_filter \<Rightarrow> duration \<Rightarrow> time \<Rightarrow> ('r pool \<Rightarrow> 'r pool) \<Rightarrow> time \<Rightarrow> time \<Rightarrow> bool \<Rightarrow> ('r pool \<Rightarrow> 'r pool) \<Rightarrow> time \<Rightarrow>
     'r pool \<Rightarrow> (pool_error + 'r) \<times> 'r pool" where
  "next_with_wait filt max_w t1 others t2 t3 timer_fires meanwhile t4 p =
     (case pool_next filt t1 p of
        (Inr r, p1) \<Rightarrow> (Inr r, p1)
      | (Inl e, p1) \<Rightarrow>
          (let p2 = others p1; wait = available_in t2 t3 p2
           in if wait \<le> 0 \<or> max_w < wait then (Inl e, p2)
              else let p3 = meanwhile p2
                   in if timer_fires then pool_next filt t4 p3 else (Inl WaitCancelled, p3)))"

subsection \<open>What Next returns\<close>

definition eligible :: "'r item_filter \<Rightarrow> time \<Rightarrow> ('r \<Rightarrow> item) \<Rightarrow> 'r \<Rightarrow> bool" where
  "eligible filt now store r \<longleftrightarrow>
     item_active (reactivated now (store r)) \<and> passes filt r (reactivated now (store r))"

definition reactivate_all :: "time \<Rightarrow> 'r set \<Rightarrow> ('r \<Rightarrow> item) \<Rightarrow> ('r \<Rightarrow> item)" where
  "reactivate_all now R store = (\<lambda>r. if r \<in> R then reactivated now (store r) else store r)"

definition pool_wf :: "'r pool \<Rightarrow> bool" where
  "pool_wf p \<longleftrightarrow> pool_items p = [] \<and> pool_idx p = 0 \<or> pool_idx p < length (pool_items p)"

lemma reactivated_idem [simp]: "reactivated now (reactivated now it) = reactivated now it"
  by (simp add: reactivated_def)

lemma reactivate_simps [simp]:
  "pool_items (reactivate now r p) = pool_items p" "pool_idx (reactivate now r p) = pool_idx p"
  "pool_hook (reactivate now r p) = pool_hook p" "pool_alerts (reactivate now r p) = pool_alerts p"
  "pool_store (reactivate now r p) = (pool_store p)(r := reactivated now (pool_store p r))"
  by (simp_all add: reactivate_def)

lemma eligible_reactivate [simp]:
  "eligible filt now ((store)(r := reactivated now (store r))) = eligible filt now store"
  by (rule ext) (simp add: eligible_def)

lemma reactivate_all_step:
  "reactivate_all now R (store(r := reactivated now (store r))) = reactivate_all now (insert r R) store"
  by (rule ext) (auto simp: reactivate_all_def)

lemma reactivate_all_empty [simp]: "reactivate_all now {} store = store"
  by (simp add: reactivate_all_def)

lemma reactivate_all_single: "reactivate_all now {r} store = store(r := reactivated now (store r))"
  using reactivate_all_step [of now "{}" store r] by simp

lemma eligible_reactivate_all [simp]:
  "eligible filt now (reactivate_all now R store) = eligible filt now store"
  by (rule ext) (simp add: eligible_def reactivate_all_def)

text \<open>The scan against a search of the list of the items in the order they are visited.\<close>

lemma next_scan_eq:
  fixes p :: "'r pool" and i k :: nat
  defines "V \<equiv> map (\<lambda>j. pool_items p ! ((pool_idx p + j) mod length (pool_items p))) [i..<i + k]"
  shows "next_scan filt now i k p =
    (case find_from i (eligible filt now (pool_store p)) V of
       None \<Rightarrow> (None, p\<lparr>pool_store := reactivate_all now (set V) (pool_store p)\<rparr>)
     | Some (j, r) \<Rightarrow>
         (Some r, p\<lparr>pool_store := reactivate_all now (set (take (Suc j - i) V)) (pool_store p),
                    pool_idx := ((pool_idx p + j) mod length (pool_items p) + 1) mod length (pool_items p)\<rparr>))"
  unfolding V_def
proof (induction k arbitrary: i p)
  case 0
  then show ?case by simp
next
  case (Suc k)
  define idx where "idx = (pool_idx p + i) mod length (pool_items p)"
  define r where "r = pool_items p ! idx"
  define p1 where "p1 = reactivate now r p"
  define W where "W = map (\<lambda>j. pool_items p ! ((pool_idx p + j) mod length (pool_items p))) [Suc i..<Suc i + k]"
  have upt: "map (\<lambda>j. pool_items p ! ((pool_idx p + j) mod length (pool_items p))) [i..<i + Suc k] = r # W"
    unfolding W_def r_def idx_def by (subst upt_conv_Cons) auto
  have st: "pool_store p1 = (pool_store p)(r := reactivated now (pool_store p r))"
    by (simp add: p1_def)
  have it1: "pool_items p1 = pool_items p" "pool_idx p1 = pool_idx p"
    by (simp_all add: p1_def)
  have el1: "eligible filt now (pool_store p1) = eligible filt now (pool_store p)"
    unfolding st by simp
  have el: "eligible filt now (pool_store p) r \<longleftrightarrow> item_active (pool_store p1 r) \<and> passes filt r (pool_store p1 r)"
    by (simp add: eligible_def st)
  show ?case
  proof (cases "eligible filt now (pool_store p) r")
    case True
    then have "next_scan filt now i (Suc k) p =
        (Some r, p1\<lparr>pool_idx := (idx + 1) mod length (pool_items p)\<rparr>)"
      using el by (simp add: Let_def r_def idx_def p1_def)
    moreover have "p1\<lparr>pool_idx := m\<rparr> = p\<lparr>pool_store := reactivate_all now {r} (pool_store p), pool_idx := m\<rparr>" for m
      by (simp add: p1_def reactivate_def reactivate_all_single)
    ultimately show ?thesis using True
      unfolding upt by (simp add: idx_def del: next_scan.simps)
  next
    case False
    then have "next_scan filt now i (Suc k) p = next_scan filt now (Suc i) k p1"
      using el by (auto simp: Let_def r_def idx_def p1_def)
    also have "\<dots> = (case find_from (Suc i) (eligible filt now (pool_store p)) W of
       None \<Rightarrow> (None, p1\<lparr>pool_store := reactivate_all now (set W) (pool_store p1)\<rparr>)
     | Some (j, r) \<Rightarrow>
         (Some r, p1\<lparr>pool_store := reactivate_all now (set (take (Suc j - Suc i) W)) (pool_store p1),
                    pool_idx := ((pool_idx p + j) mod length (pool_items p) + 1) mod length (pool_items p)\<rparr>))"
      using Suc.IH [of "Suc i" p1] unfolding it1 el1 W_def .
    finally have eq: "next_scan filt now i (Suc k) p = \<dots>" .
    have up: "p1\<lparr>pool_store := reactivate_all now R (pool_store p1), pool_idx := m\<rparr> =
              p\<lparr>pool_store := reactivate_all now (insert r R) (pool_store p), pool_idx := m\<rparr>"
         "p1\<lparr>pool_store := reactivate_all now R (pool_store p1)\<rparr> =
              p\<lparr>pool_store := reactivate_all now (insert r R) (pool_store p)\<rparr>" for R m
      by (simp_all add: p1_def reactivate_def reactivate_all_step)
    show ?thesis
    proof (cases "find_from (Suc i) (eligible filt now (pool_store p)) W")
      case None
      then show ?thesis using False unfolding upt eq by (simp only: find_from.simps if_False option.case up list.set)
    next
      case (Some a)
      obtain j s where a: "a = (j, s)" by fastforce
      have "Suc i \<le> j" using find_from_SomeD [OF Some [unfolded a]] by simp
      then have "Suc j - i = Suc (Suc j - Suc i)" by simp
      then show ?thesis using False Some unfolding upt eq
        by (simp only: find_from.simps if_False option.case prod.case up a take_Suc_Cons list.set)
    qed
  qed
qed


lemma pool_next_cases:
  "pool_next filt now p =
    (if pool_items p = [] then (Inl PoolEmpty, p)
     else case find_from 0 (eligible filt now (pool_store p)) (rotation (pool_idx p) (pool_items p)) of
       None \<Rightarrow> (Inl (AllUnavailable (length (pool_items p))),
                p\<lparr>pool_store := reactivate_all now (set (pool_items p)) (pool_store p)\<rparr>)
     | Some (j, r) \<Rightarrow>
         (Inr r, p\<lparr>pool_store := reactivate_all now (set (take (Suc j) (rotation (pool_idx p) (pool_items p)))) (pool_store p),
                   pool_idx := (pool_idx p + j + 1) mod length (pool_items p)\<rparr>))"
proof (cases "pool_items p = []")
  case True
  then show ?thesis by (simp add: pool_next_def)
next
  case False
  have V: "map (\<lambda>j. pool_items p ! ((pool_idx p + j) mod length (pool_items p))) [0..<length (pool_items p)]
      = rotation (pool_idx p) (pool_items p)"
    by (simp add: rotation_def)
  show ?thesis
    using False next_scan_eq [of filt now 0 "length (pool_items p)" p]
    by (simp add: pool_next_def Let_def V mod_Suc_eq split: option.split prod.split)
qed

lemma pool_next_SomeD:
  assumes "fst (pool_next filt now p) = Inr r"
  shows "r \<in> set (pool_items p)" and "eligible filt now (pool_store p) r"
proof -
  have ne: "pool_items p \<noteq> []"
    using assms by (auto simp: pool_next_def)
  obtain j where f: "find_from 0 (eligible filt now (pool_store p)) (rotation (pool_idx p) (pool_items p)) = Some (j, r)"
    using assms ne by (auto simp: pool_next_cases split: option.splits)
  note D = find_from_SomeD [OF f]
  then have "r \<in> set (rotation (pool_idx p) (pool_items p))"
    by (metis diff_zero nth_mem)
  then show "r \<in> set (pool_items p)" by simp
  show "eligible filt now (pool_store p) r" using D by simp
qed

lemma pool_next_found_iff:
  "(\<exists>r. fst (pool_next filt now p) = Inr r) \<longleftrightarrow>
     (\<exists>r\<in>set (pool_items p). eligible filt now (pool_store p) r)"
proof (cases "pool_items p = []")
  case True
  then show ?thesis by (simp add: pool_next_def)
next
  case False
  show ?thesis
    using False find_from_None_iff [of 0 "eligible filt now (pool_store p)" "rotation (pool_idx p) (pool_items p)"]
    by (auto simp: pool_next_cases split: option.splits)
qed

lemma pool_next_frame:
  "pool_items (snd (pool_next filt now p)) = pool_items p"
  "pool_hook (snd (pool_next filt now p)) = pool_hook p"
  "pool_alerts (snd (pool_next filt now p)) = pool_alerts p"
  by (auto simp: pool_next_cases split: option.splits)

lemma pool_next_store:
  "pool_store (snd (pool_next filt now p)) r \<in> {pool_store p r, reactivated now (pool_store p r)}"
  by (auto simp: pool_next_cases reactivate_all_def split: option.splits)

subsection \<open>Runs of operations\<close>

text \<open>A call of a method by the owner of the pool, with the clock it reads.\<close>

datatype 'r pool_op =
    OpNext "'r item_filter" time
  | OpDeactivate 'r
  | OpSoft 'r duration time
  | OpAdd 'r

fun pool_step :: "'r pool_op \<Rightarrow> 'r pool \<Rightarrow> 'r pool" where
  "pool_step (OpNext filt now) p = snd (pool_next filt now p)"
| "pool_step (OpDeactivate r) p = deactivate_item r p"
| "pool_step (OpSoft r d now) p = soft_deactivate r d now p"
| "pool_step (OpAdd r) p = pool_add r p"

definition pool_run :: "'r pool_op list \<Rightarrow> 'r pool \<Rightarrow> 'r pool" where
  "pool_run ops p = fold pool_step ops p"

fun soft_target :: "'r pool_op \<Rightarrow> 'r option" where
  "soft_target (OpSoft r d now) = Some r"
| "soft_target _ = None"

definition permanently_out :: "'r \<Rightarrow> 'r pool \<Rightarrow> bool" where
  "permanently_out r p \<longleftrightarrow>
     \<not> item_active (pool_store p r) \<and> item_reactivate_at (pool_store p r) = zero_time"

lemma alert_simps [simp]:
  "pool_items (alert r a p) = pool_items p" "pool_idx (alert r a p) = pool_idx p"
  "pool_store (alert r a p) = pool_store p" "pool_hook (alert r a p) = pool_hook p"
  by (simp_all add: alert_def)

lemma set_item_simps [simp]:
  "pool_items (set_item r b t p) = pool_items p" "pool_idx (set_item r b t p) = pool_idx p"
  "pool_hook (set_item r b t p) = pool_hook p" "pool_alerts (set_item r b t p) = pool_alerts p"
  "pool_store (set_item r b t p) =
     (pool_store p)(r := (pool_store p r)\<lparr>item_active := b, item_reactivate_at := t\<rparr>)"
  by (simp_all add: set_item_def)

lemma permanently_out_not_eligible:
  "permanently_out r p \<Longrightarrow> \<not> eligible filt now (pool_store p) r"
  by (simp add: permanently_out_def eligible_def reactivated_def)

lemma deactivate_item_out: "permanently_out r (deactivate_item r p)"
  by (simp add: permanently_out_def deactivate_item_def)

lemma permanently_out_step:
  assumes "permanently_out r p" and "soft_target op \<noteq> Some r"
  shows "permanently_out r (pool_step op p)"
proof (cases op)
  case (OpNext filt now)
  then show ?thesis
    using assms(1) pool_next_store [of filt now p r]
    by (auto simp: permanently_out_def reactivated_def)
qed (use assms in \<open>auto simp: permanently_out_def deactivate_item_def soft_deactivate_def pool_add_def\<close>)

lemma permanently_out_run:
  "permanently_out r p \<Longrightarrow> Some r \<notin> soft_target ` set ops \<Longrightarrow> permanently_out r (pool_run ops p)"
  by (induction ops arbitrary: p) (simp_all add: pool_run_def permanently_out_step not_sym)

lemma pool_wf_step: "pool_wf p \<Longrightarrow> pool_wf (pool_step op p)"
  by (cases op)
     (auto simp: pool_wf_def deactivate_item_def soft_deactivate_def pool_add_def pool_next_cases
           split: option.splits)

lemma pool_wf_run: "pool_wf p \<Longrightarrow> pool_wf (pool_run ops p)"
  by (induction ops arbitrary: p) (auto simp: pool_run_def intro: pool_wf_step)

lemma pool_wf_new: "pool_wf (new_pool items hook store)"
  by (cases items) (simp_all add: pool_wf_def new_pool_def)

lemma eligible_pool_next:
  "eligible filt now (pool_store (snd (pool_next filt now p))) = eligible filt now (pool_store p)"
  by (auto simp: pool_next_cases split: option.splits)

text \<open>A pool whose items are all active, asked with the nil filter, gives the item at its index.\<close>

lemma pool_next_all_active:
  assumes "pool_items p \<noteq> []" and "\<forall>r\<in>set (pool_items p). item_active (pool_store p r)"
  shows "pool_next None now p =
    (Inr (pool_items p ! (pool_idx p mod length (pool_items p))),
     p\<lparr>pool_idx := (pool_idx p + 1) mod length (pool_items p)\<rparr>)"
proof -
  let ?xs = "rotation (pool_idx p) (pool_items p)"
  have el: "eligible None now (pool_store p) r" "reactivated now (pool_store p r) = pool_store p r"
    if "r \<in> set (pool_items p)" for r
    using assms(2) that by (simp_all add: eligible_def passes_def reactivated_def)
  obtain x xs where xs: "?xs = x # xs"
    using assms(1) by (metis list.exhaust length_0_conv length_rotation)
  have x: "x = pool_items p ! (pool_idx p mod length (pool_items p))"
    using nth_rotation [of 0 "pool_items p" "pool_idx p"] assms(1) xs by simp
  have "x \<in> set (pool_items p)"
    using xs set_rotation [of "pool_idx p" "pool_items p"] by (metis list.set_intros(1))
  then have "reactivate_all now {x} (pool_store p) = pool_store p"
    using el(2) by (auto simp: reactivate_all_single)
  then show ?thesis
    using assms(1) el(1) [OF \<open>x \<in> set (pool_items p)\<close>] x by (simp add: pool_next_cases xs)
qed

fun next_results :: "time list \<Rightarrow> 'r pool \<Rightarrow> (pool_error + 'r) list" where
  "next_results [] p = []"
| "next_results (t # ts) p = fst (pool_next None t p) # next_results ts (snd (pool_next None t p))"

lemma next_results_all_active:
  assumes "pool_items p \<noteq> []" and "\<forall>r\<in>set (pool_items p). item_active (pool_store p r)"
  shows "next_results ts p =
    map (\<lambda>j. Inr (pool_items p ! ((pool_idx p + j) mod length (pool_items p)))) [0..<length ts]"
  using assms
proof (induction ts arbitrary: p)
  case Nil
  then show ?case by simp
next
  case (Cons t ts)
  let ?n = "length (pool_items p)"
  let ?q = "p\<lparr>pool_idx := (pool_idx p + 1) mod ?n\<rparr>"
  have "next_results (t # ts) p = Inr (pool_items p ! (pool_idx p mod ?n)) # next_results ts ?q"
    using pool_next_all_active [OF Cons.prems, of t] by simp
  also have "next_results ts ?q =
      map (\<lambda>j. Inr (pool_items p ! (((pool_idx p + 1) mod ?n + j) mod ?n))) [0..<length ts]"
    using Cons.IH [of ?q] Cons.prems by simp
  also have "\<dots> = map (\<lambda>j. Inr (pool_items p ! ((pool_idx p + Suc j) mod ?n))) [0..<length ts]"
    by (simp add: mod_simps)
  finally show ?case
    by (simp add: map_upt_Suc del: upt_Suc)
qed

subsection \<open>AvailableIn\<close>

definition pending :: "time \<Rightarrow> ('r \<Rightarrow> item) \<Rightarrow> 'r \<Rightarrow> bool" where
  "pending now store r \<longleftrightarrow>
     \<not> item_active (store r) \<and> item_reactivate_at (store r) \<noteq> zero_time \<and> now < item_reactivate_at (store r)"

lemma earliest_scan_None_iff:
  "earliest_scan now store e rs = None \<longleftrightarrow> (\<exists>r\<in>set rs. item_active (store r))"
  by (induction rs arbitrary: e) (auto simp: Let_def)

lemma earliest_scan_SomeD:
  assumes "earliest_scan now store e rs = Some x"
  shows "(x = e \<and> (e = zero_time \<longrightarrow> (\<forall>r\<in>set rs. \<not> pending now store r)) \<or>
          (\<exists>r\<in>set rs. pending now store r \<and> x = item_reactivate_at (store r))) \<and>
         (e \<noteq> zero_time \<longrightarrow> x \<noteq> zero_time \<and> x \<le> e) \<and>
         (\<forall>r\<in>set rs. pending now store r \<longrightarrow> x \<noteq> zero_time \<and> x \<le> item_reactivate_at (store r))"
  using assms
proof (induction rs arbitrary: e)
  case Nil
  then show ?case by simp
next
  case (Cons r rs)
  let ?ra = "item_reactivate_at (store r)"
  have na: "\<not> item_active (store r)" using Cons.prems by (auto split: if_splits)
  show ?case
  proof (cases "pending now store r")
    case True
    define e' where "e' = (if e = zero_time \<or> ?ra < e then ?ra else e)"
    have "earliest_scan now store e' rs = Some x"
      using Cons.prems True by (auto simp: pending_def Let_def e'_def)
    note IH = Cons.IH [OF this]
    have ra: "?ra \<noteq> zero_time" using True by (simp add: pending_def)
    have e': "e' \<noteq> zero_time" "e' \<le> ?ra" "e \<noteq> zero_time \<Longrightarrow> e' \<le> e" "e' = ?ra \<or> e \<noteq> zero_time \<and> e' = e"
      using ra by (auto simp: e'_def)
    show ?thesis using IH e' True by (auto dest: order_trans)
  next
    case False
    then have "earliest_scan now store e rs = Some x"
      using Cons.prems na by (auto simp: pending_def Let_def)
    from Cons.IH [OF this] False show ?thesis by auto
  qed
qed

lemma available_in_cases:
  shows "available_in now now2 p > 0 \<Longrightarrow>
    (\<forall>r\<in>set (pool_items p). \<not> item_active (pool_store p r)) \<and>
    (\<exists>r\<in>set (pool_items p). pending now (pool_store p) r \<and>
       available_in now now2 p = time_sub (item_reactivate_at (pool_store p r)) now2 \<and>
       (\<forall>s\<in>set (pool_items p). pending now (pool_store p) s \<longrightarrow>
          item_reactivate_at (pool_store p r) \<le> item_reactivate_at (pool_store p s)))"
proof -
  assume pos: "available_in now now2 p > 0"
  obtain x where x: "earliest_scan now (pool_store p) zero_time (pool_items p) = Some x" and x0: "x \<noteq> zero_time"
    and w: "available_in now now2 p = time_sub x now2"
    using pos by (auto simp: available_in_def Let_def split: option.splits if_splits)
  note D = earliest_scan_SomeD [OF x]
  then obtain r where r: "r \<in> set (pool_items p)" "pending now (pool_store p) r"
      "x = item_reactivate_at (pool_store p r)"
    using x0 by auto
  have "\<forall>r\<in>set (pool_items p). \<not> item_active (pool_store p r)"
    using earliest_scan_None_iff [of now "pool_store p" zero_time "pool_items p"] x by auto
  then show ?thesis using r D w by auto
qed

subsection \<open>Operations that leave a cooldown alone\<close>

text \<open>\<open>undisturbed r T op\<close>: the operation does not deactivate \<open>r\<close>, and if it is a
  \<^verbatim>\<open>Next\<close>, it happens no later than \<open>T\<close>.\<close>

fun undisturbed :: "'r \<Rightarrow> time \<Rightarrow> 'r pool_op \<Rightarrow> bool" where
  "undisturbed r T (OpNext filt now) \<longleftrightarrow> now \<le> T"
| "undisturbed r T (OpDeactivate r') \<longleftrightarrow> r' \<noteq> r"
| "undisturbed r T (OpSoft r' d now) \<longleftrightarrow> r' \<noteq> r"
| "undisturbed r T (OpAdd r') \<longleftrightarrow> True"

definition cooling :: "'r \<Rightarrow> time \<Rightarrow> 'r pool \<Rightarrow> bool" where
  "cooling r T p \<longleftrightarrow> \<not> item_active (pool_store p r) \<and> item_reactivate_at (pool_store p r) = T"

lemma cooling_step:
  assumes "cooling r T p" and "undisturbed r T op"
  shows "cooling r T (pool_step op p)"
proof (cases op)
  case (OpNext filt now)
  then show ?thesis
    using assms pool_next_store [of filt now p r] by (auto simp: cooling_def reactivated_def)
qed (use assms in \<open>auto simp: cooling_def deactivate_item_def soft_deactivate_def pool_add_def\<close>)

lemma cooling_run:
  "cooling r T p \<Longrightarrow> \<forall>op\<in>set ops. undisturbed r T op \<Longrightarrow> cooling r T (pool_run ops p)"
  by (induction ops arbitrary: p) (simp_all add: pool_run_def cooling_step)

lemma items_step_subset: "set (pool_items p) \<subseteq> set (pool_items (pool_step op p))"
  by (cases op) (auto simp: deactivate_item_def soft_deactivate_def pool_add_def pool_next_frame)

lemma items_run_subset: "set (pool_items p) \<subseteq> set (pool_items (pool_run ops p))"
proof (induction ops arbitrary: p)
  case Nil
  then show ?case by (simp add: pool_run_def)
next
  case (Cons op ops)
  then show ?case using items_step_subset [of p op] by (auto simp: pool_run_def)
qed

lemma soft_deactivate_cooling: "cooling r (now + d) (soft_deactivate r d now p)"
  by (simp add: cooling_def soft_deactivate_def)

lemma cooling_eligible:
  "cooling r T p \<Longrightarrow> T \<noteq> zero_time \<Longrightarrow> eligible None t (pool_store p) r \<longleftrightarrow> T < t"
  by (simp add: cooling_def eligible_def reactivated_def passes_def)

lemma cooling_not_eligible:
  "cooling r T p \<Longrightarrow> t \<le> T \<Longrightarrow> \<not> eligible filt t (pool_store p) r"
  by (simp add: cooling_def eligible_def reactivated_def)

lemma mset_rotation [simp]: "mset (rotation k xs) = mset xs"
  unfolding rotation_eq_rotate
proof (induction k)
  case (Suc k)
  then show ?case by (cases "rotate k xs") (simp_all add: rotate1_def)
qed simp

lemma rotation_window:
  assumes "i + length xs \<le> m"
  shows "take (length xs) (drop i (map (\<lambda>j. f (xs ! ((k + j) mod length xs))) [0..<m])) = map f (rotation (k + i) xs)"
  using assms by (intro nth_equalityI) (auto simp: rotation_def add.assoc)

subsection \<open>Properties\<close>

text \<open>C31: \<^verbatim>\<open>Next\<close> scans the items in rotation order from the index of the pool and
  returns the first whose cooldown is over (or that is active) and that passes the filter;
  the next scan starts just after it. It fails only when no item qualifies, and then the
  index stays. It changes no item except by ending cooldowns that are over.\<close>

theorem next_is_first_in_rotation:
  "(case find (eligible filt now (pool_store p)) (rotation (pool_idx p) (pool_items p)) of
      None \<Rightarrow>
        fst (pool_next filt now p) =
          Inl (if pool_items p = [] then PoolEmpty else AllUnavailable (pool_size p)) \<and>
        pool_idx (snd (pool_next filt now p)) = pool_idx p
    | Some r \<Rightarrow>
        fst (pool_next filt now p) = Inr r \<and>
        (\<exists>i < pool_size p. pool_items p ! i = r \<and>
           pool_idx (snd (pool_next filt now p)) = Suc i mod pool_size p)) \<and>
   pool_store (snd (pool_next filt now p)) r
     \<in> {pool_store p r, reactivated now (pool_store p r)}"
proof -
  let ?P = "eligible filt now (pool_store p)" and ?xs = "rotation (pool_idx p) (pool_items p)"
  have "find ?P ?xs = map_option snd (find_from 0 ?P ?xs)"
  proof -
    have "find P xs = map_option snd (find_from k P xs)" for P k and xs :: "'a list"
      by (induction xs arbitrary: k) auto
    then show ?thesis .
  qed
  moreover have "?thesis" if "find_from 0 ?P ?xs = Some (j, s)" "find ?P ?xs = Some s" for j s
  proof -
    note D = find_from_SomeD [OF that(1)]
    then have l: "0 < length (pool_items p)" and j: "j < length (pool_items p)" by auto
    have "pool_items p ! ((pool_idx p + j) mod length (pool_items p)) = s"
      using D nth_rotation [OF j, of "pool_idx p"] by simp
    moreover have "(pool_idx p + j) mod length (pool_items p) < length (pool_items p)"
      using l by simp
    ultimately show ?thesis
      using that pool_next_store [of filt now p r] l
      by (auto simp: pool_next_cases pool_size_def mod_Suc_eq intro!: exI [of _ "(pool_idx p + j) mod length (pool_items p)"])
  qed
  moreover have "?thesis" if "find_from 0 ?P ?xs = None" "find ?P ?xs = None"
    using that pool_next_store [of filt now p r] by (auto simp: pool_next_cases pool_size_def)
  ultimately show ?thesis by (cases "find_from 0 ?P ?xs") auto
qed

text \<open>C32: round-robin fairness. While every item is active and there is no filter, the calls
  of \<^verbatim>\<open>Next\<close> serve the positions in order from the index, wrapping around, so any
  \<open>n\<close> consecutive calls on a pool of \<open>n\<close> items serve each item exactly once.\<close>

theorem round_robin_fair:
  assumes "pool_items p \<noteq> []" and "\<forall>r\<in>set (pool_items p). item_active (pool_store p r)"
    and "i + pool_size p \<le> length ts"
  shows "take (pool_size p) (drop i (next_results ts p)) = map Inr (rotation (pool_idx p + i) (pool_items p)) \<and>
         mset (take (pool_size p) (drop i (next_results ts p))) = mset (map Inr (pool_items p))"
proof -
  have "take (pool_size p) (drop i (next_results ts p)) = map Inr (rotation (pool_idx p + i) (pool_items p))"
    using assms(3) unfolding next_results_all_active [OF assms(1,2)] pool_size_def
    by (rule rotation_window)
  then show ?thesis by simp
qed

theorem round_robin_fair_witness:
  "let p = new_pool [''a'', ''b'', ''c''] False (\<lambda>r. \<lparr>item_id = r, item_active = True, item_reactivate_at = zero_time\<rparr>)
   in take (pool_size p) (drop 2 (next_results [10, 11, 12, 13, 14] p)) = map Inr [''c'', ''a'', ''b'']"
proof -
  let ?p = "new_pool [''a'', ''b'', ''c''] False (\<lambda>r. \<lparr>item_id = r, item_active = True, item_reactivate_at = zero_time\<rparr>)"
  have "map Inr (rotation (pool_idx ?p + 2) (pool_items ?p)) = map Inr [''c'', ''a'', ''b'']"
    by (simp add: new_pool_def rotation_def upt_conv_Cons)
  moreover have "pool_items ?p \<noteq> []" "\<forall>r\<in>set (pool_items ?p). item_active (pool_store ?p r)"
    "2 + pool_size ?p \<le> length [10, 11, 12, 13, 14 :: int]"
    by (simp_all add: new_pool_def pool_size_def)
  ultimately show ?thesis
    using round_robin_fair [of ?p 2 "[10, 11, 12, 13, 14]"] unfolding Let_def by metis
qed

text \<open>C34: permanent removal is permanent. After \<^verbatim>\<open>DeactivateItem\<close>, whatever the
  owner does next, at whatever times, except a later \<^verbatim>\<open>SoftDeactivate\<close> of that item,
  \<^verbatim>\<open>Next\<close> never returns it and \<^verbatim>\<open>AvailableIn\<close> never waits for it.\<close>

theorem deactivated_never_returned:
  assumes "Some r \<notin> soft_target ` set ops"
  shows "fst (pool_next filt now (pool_run ops (deactivate_item r p))) \<noteq> Inr r \<and>
         \<not> pending now (pool_store (pool_run ops (deactivate_item r p))) r"
proof -
  have out: "permanently_out r (pool_run ops (deactivate_item r p))"
    using permanently_out_run [OF deactivate_item_out assms] .
  then show ?thesis
    using pool_next_SomeD(2) permanently_out_not_eligible by (fastforce simp: pending_def permanently_out_def)
qed

theorem deactivated_never_returned_witness:
  "fst (pool_next None 90 (pool_run [OpNext None 50, OpSoft ''b'' 10 60, OpAdd ''c'', OpNext None 80]
      (deactivate_item ''a'' (new_pool [''a'', ''b''] True
        (\<lambda>r. \<lparr>item_id = r, item_active = True, item_reactivate_at = zero_time\<rparr>))))) \<noteq> Inr ''a''"
  using deactivated_never_returned [of "''a''" "[OpNext None 50, OpSoft ''b'' 10 60, OpAdd ''c'', OpNext None 80]"
      None 90 "new_pool [''a'', ''b''] True (\<lambda>r. \<lparr>item_id = r, item_active = True, item_reactivate_at = zero_time\<rparr>)"]
  by simp

text \<open>C33: a cooldown lasts exactly as long as asked. After a \<^verbatim>\<open>SoftDeactivate\<close> at
  time \<open>now\<close>, and any operations that do not deactivate the item again and whose scans
  happen within the cooldown, \<^verbatim>\<open>Next\<close> does not return the item up to and including
  \<open>now + cooldown\<close>; and from the next nanosecond on, if the item is in the pool, an
  unfiltered \<^verbatim>\<open>Next\<close> cannot report that all items are unavailable.\<close>

theorem cooldown_is_exact:
  assumes "now + cooldown \<noteq> zero_time"
    and "\<forall>op\<in>set ops. undisturbed r (now + cooldown) op"
  shows "(t \<le> now + cooldown \<longrightarrow>
            fst (pool_next filt t (pool_run ops (soft_deactivate r cooldown now p))) \<noteq> Inr r) \<and>
         (now + cooldown < t \<and> r \<in> set (pool_items p) \<longrightarrow>
            (\<exists>s. fst (pool_next None t (pool_run ops (soft_deactivate r cooldown now p))) = Inr s))"
proof -
  let ?q = "pool_run ops (soft_deactivate r cooldown now p)"
  have c: "cooling r (now + cooldown) ?q"
    by (rule cooling_run [OF soft_deactivate_cooling assms(2)])
  have "set (pool_items p) \<subseteq> set (pool_items ?q)"
    using items_run_subset [of "soft_deactivate r cooldown now p" ops] by (simp add: soft_deactivate_def)
  then show ?thesis
    using cooling_not_eligible [OF c, of t filt] pool_next_SomeD(2) [of filt t ?q r]
      cooling_eligible [OF c assms(1), of t] pool_next_found_iff [of None t ?q] by auto
qed

theorem cooldown_is_exact_witness:
  "fst (pool_next None 130 (pool_run [OpNext None 110, OpAdd ''c''] (soft_deactivate ''a'' 30 100
      (new_pool [''a'', ''b''] True (\<lambda>r. \<lparr>item_id = r, item_active = True, item_reactivate_at = zero_time\<rparr>))))) \<noteq> Inr ''a''"
  using cooldown_is_exact [of 100 30 "[OpNext None 110, OpAdd ''c'']" "''a''" 130 None
     "new_pool [''a'', ''b''] True (\<lambda>r. \<lparr>item_id = r, item_active = True, item_reactivate_at = zero_time\<rparr>)"]
  by simp

text \<open>An item that is active, or whose cooldown ends by some time, stays so while nothing is deactivated.\<close>

definition ready_by :: "time \<Rightarrow> 'r \<Rightarrow> 'r pool \<Rightarrow> bool" where
  "ready_by u r p \<longleftrightarrow>
     r \<in> set (pool_items p) \<and>
     (item_active (pool_store p r) \<or> item_reactivate_at (pool_store p r) \<noteq> zero_time \<and> item_reactivate_at (pool_store p r) \<le> u)"

lemma ready_by_step: "soft_target op = None \<Longrightarrow> (\<forall>x. op \<noteq> OpDeactivate x) \<Longrightarrow> ready_by u r p \<Longrightarrow> ready_by u r (pool_step op p)"
proof (cases op)
  case (OpNext filt now)
  then show "ready_by u r p \<Longrightarrow> ready_by u r (pool_step op p)"
    using pool_next_store [of filt now p r] by (auto simp: ready_by_def pool_next_frame reactivated_def split: if_splits)
qed (auto simp: ready_by_def pool_add_def)

lemma ready_by_run:
  "list_all (\<lambda>op. soft_target op = None \<and> (\<forall>x. op \<noteq> OpDeactivate x)) ops \<Longrightarrow> ready_by u r p \<Longrightarrow> ready_by u r (pool_run ops p)"
  by (induction ops arbitrary: p) (simp_all add: pool_run_def ready_by_step)

text \<open>C35: waiting is enough, for a call without a filter. When such a \<^verbatim>\<open>NextWithWait\<close> decides to
  wait and its timer fires, the second \<^verbatim>\<open>Next\<close> returns an item, whatever other goroutines have done to
  the pool before \<^verbatim>\<open>AvailableIn\<close> looked at it, and whatever they take from it or add to it
  during the wait, provided they deactivate nothing during it, the clock of the second \<^verbatim>\<open>Next\<close> reads
  later than the end of the wait (it compares strictly), and the wait is within \<open>max_w\<close>,
  below the limit of a \<^verbatim>\<open>Duration\<close>.\<close>

theorem next_with_wait_succeeds:
  assumes "fst (pool_next None t1 p) = Inl e"
    and "w = available_in t2 t3 (pool_run others (snd (pool_next None t1 p)))" and "0 < w" and "w \<le> max_w" and "max_w < max_int64"
    and meanwhile: "list_all (\<lambda>op. soft_target op = None \<and> (\<forall>x. op \<noteq> OpDeactivate x)) meanwhile"
    and "t3 + w < t4"
  shows "\<exists>r. fst (next_with_wait None max_w t1 (pool_run others) t2 t3 True (pool_run meanwhile) t4 p) = Inr r"
proof -
  let ?p2 = "pool_run others (snd (pool_next None t1 p))"
  obtain r where r: "r \<in> set (pool_items ?p2)" "pending t2 (pool_store ?p2) r"
      "w = time_sub (item_reactivate_at (pool_store ?p2 r)) t3"
    using available_in_cases [of t2 t3 ?p2] assms(2,3) by auto
  have "item_reactivate_at (pool_store ?p2 r) - t3 \<le> w"
    using time_sub_le_iff [of w "item_reactivate_at (pool_store ?p2 r)" t3] r(3) assms(3-5)
    by (simp add: min_int64_def)
  then have "ready_by (t3 + w) r ?p2" using r(1,2) by (simp add: ready_by_def pending_def)
  then have "ready_by (t3 + w) r (pool_run meanwhile ?p2)" by (rule ready_by_run [OF meanwhile])
  then have "r \<in> set (pool_items (pool_run meanwhile ?p2))" "eligible None t4 (pool_store (pool_run meanwhile ?p2)) r"
    using assms(7) by (auto simp: ready_by_def eligible_def reactivated_def passes_def)
  then have "\<exists>s. fst (pool_next None t4 (pool_run meanwhile ?p2)) = Inr s" using pool_next_found_iff by blast
  then show ?thesis using assms(1-4) by (auto simp: next_with_wait_def Let_def split: prod.splits sum.splits)
qed

theorem next_with_wait_succeeds_witness:
  "\<exists>r. fst (next_with_wait None 50 105 (pool_run [OpAdd ''b'', OpDeactivate ''b'']) 106 107 True (pool_run [OpNext None 115]) 131
     (soft_deactivate ''a'' 30 100 (new_pool [''a''] False
        (\<lambda>r. \<lparr>item_id = r, item_active = True, item_reactivate_at = zero_time\<rparr>)))) = Inr r"
  by (rule next_with_wait_succeeds [of _ _ "AllUnavailable 1" 23 106 107])
     (simp_all add: pool_next_def new_pool_def soft_deactivate_def set_item_def alert_def reactivate_def pool_run_def
        pool_add_def deactivate_item_def reactivated_def available_in_def time_sub_def max_int64_def min_int64_def Let_def)

text \<open>Without the conditions the second \<^verbatim>\<open>Next\<close> may fail after the wait: a filter can reject the
  item, and another goroutine can deactivate it again.\<close>

lemma next_with_wait_may_fail:
  fixes p :: "string pool"
  defines "p \<equiv> soft_deactivate ''a'' 30 100 (new_pool [''a''] False
    (\<lambda>r. \<lparr>item_id = r, item_active = True, item_reactivate_at = zero_time\<rparr>))"
  shows "fst (next_with_wait (Some (\<lambda>r it. False)) 50 105 id 106 107 True id 131 p) = Inl (AllUnavailable 1)"
    and "fst (next_with_wait None 50 105 id 106 107 True (pool_run [OpDeactivate ''a'']) 131 p) = Inl (AllUnavailable 1)"
  by (simp_all add: p_def next_with_wait_def pool_next_def new_pool_def soft_deactivate_def set_item_def alert_def reactivate_def
      pool_run_def deactivate_item_def reactivated_def passes_def available_in_def time_sub_def max_int64_def min_int64_def Let_def)

text \<open>\<^verbatim>\<open>AvailableIn\<close> looks for cooldowns that are still running, and not for those
  that are over but were not scanned yet: with one of each it asks for a wait although
  \<^verbatim>\<open>Next\<close> would return an item at once.\<close>

lemma available_in_misses_expired_cooldown:
  "let p = soft_deactivate ''b'' 100 20 (soft_deactivate ''a'' 5 10
         (new_pool [''a'', ''b''] False (\<lambda>r. \<lparr>item_id = r, item_active = True, item_reactivate_at = zero_time\<rparr>)))
   in available_in 30 30 p = 90 \<and> fst (pool_next None 30 p) = Inr ''a''"
  by (simp add: pool_next_def new_pool_def soft_deactivate_def set_item_def alert_def reactivate_def passes_def
        reactivated_def available_in_def time_sub_def max_int64_def min_int64_def Let_def numeral_2_eq_2)

end
