(* ===== verification/Rate_Limit.thy ===== *)
theory Rate_Limit
  imports Prelude
begin

text \<open>
  Package \<^verbatim>\<open>ratelimit\<close>: the store interface and its in-memory implementation
  (\<^verbatim>\<open>src/ratelimit/store.go\<close>) and the per-key limiter
  (\<^verbatim>\<open>src/ratelimit/ratelimit.go\<close>). The interface value a limiter holds is a record of
  operations; its contract is the locale \<open>rate_store\<close>, and the facts about the limiter that
  need nothing else are proved in it. Each method holds the store's mutex, so each is one
  step; its readings of the clock are arguments (\<open>tc\<close>, the one of \<^verbatim>\<open>getOrCreate\<close>,
  comes before \<open>t\<close>).
\<close>

subsection \<open>The store interface\<close>

record 's store_ops =
  st_increment :: "string \<Rightarrow> duration \<Rightarrow> time \<Rightarrow> time \<Rightarrow> 's \<Rightarrow> (int \<times> time) \<times> 's"
  st_count :: "string \<Rightarrow> duration \<Rightarrow> time \<Rightarrow> 's \<Rightarrow> int \<times> time"
  st_set_blocked :: "string \<Rightarrow> time \<Rightarrow> time \<Rightarrow> 's \<Rightarrow> 's"
  st_get_blocked :: "string \<Rightarrow> 's \<Rightarrow> time"

subsection \<open>The in-memory store\<close>

record store_entry =
  e_count :: int
  e_window_start :: time
  e_blocked :: time

type_synonym memory_store = "string \<Rightarrow> store_entry option"

definition new_memory_store :: memory_store where
  "new_memory_store = (\<lambda>k. None)"

definition get_or_create :: "string \<Rightarrow> time \<Rightarrow> memory_store \<Rightarrow> store_entry \<times> memory_store" where
  "get_or_create k tc m =
     (case m k of
        Some e \<Rightarrow> (e, m)
      | None \<Rightarrow> let e = \<lparr>e_count = 0, e_window_start = tc, e_blocked = zero_time\<rparr> in (e, m(k \<mapsto> e)))"

definition mem_increment ::
    "string \<Rightarrow> duration \<Rightarrow> time \<Rightarrow> time \<Rightarrow> memory_store \<Rightarrow> (int \<times> time) \<times> memory_store" where
  "mem_increment k window tc t m =
     (let (e, m1) = get_or_create k tc m;
          e1 = (if window < time_sub t (e_window_start e)
                then e\<lparr>e_count := 0, e_window_start := t\<rparr> else e);
          e2 = e1\<lparr>e_count := e_count e1 + 1\<rparr>
      in ((e_count e2, e_window_start e2), m1(k \<mapsto> e2)))"

definition mem_count :: "string \<Rightarrow> duration \<Rightarrow> time \<Rightarrow> memory_store \<Rightarrow> int \<times> time" where
  "mem_count k window t m =
     (case m k of
        None \<Rightarrow> (0, zero_time)
      | Some e \<Rightarrow> if window < time_sub t (e_window_start e) then (0, zero_time)
                  else (e_count e, e_window_start e))"

definition mem_set_blocked :: "string \<Rightarrow> time \<Rightarrow> time \<Rightarrow> memory_store \<Rightarrow> memory_store" where
  "mem_set_blocked k until tc m =
     (let (e, m1) = get_or_create k tc m in m1(k \<mapsto> e\<lparr>e_blocked := until\<rparr>))"

definition mem_get_blocked :: "string \<Rightarrow> memory_store \<Rightarrow> time" where
  "mem_get_blocked k m = (case m k of None \<Rightarrow> zero_time | Some e \<Rightarrow> e_blocked e)"

definition memory_ops :: "memory_store store_ops" where
  "memory_ops =
     \<lparr>st_increment = mem_increment, st_count = mem_count,
      st_set_blocked = mem_set_blocked, st_get_blocked = mem_get_blocked\<rparr>"

subsection \<open>The limiter\<close>

record 's limiter =
  lim_requests :: int
  lim_window :: duration
  lim_ops :: "'s store_ops"
  lim_store :: 's
  lim_caps :: "string \<Rightarrow> int option"

definition default_requests_per_window :: int where
  "default_requests_per_window = 50"

definition default_window :: duration where
  "default_window = 15 * minute"

text \<open>\<^verbatim>\<open>NewLimiter\<close> without options (the in-memory store), and with \<^verbatim>\<open>WithStore\<close>.\<close>

definition new_limiter_with :: "int \<Rightarrow> duration \<Rightarrow> 's store_ops \<Rightarrow> 's \<Rightarrow> 's limiter" where
  "new_limiter_with n window ops s =
     \<lparr>lim_requests = n, lim_window = window, lim_ops = ops, lim_store = s, lim_caps = (\<lambda>k. None)\<rparr>"

definition new_limiter :: "int \<Rightarrow> duration \<Rightarrow> memory_store limiter" where
  "new_limiter n window = new_limiter_with n window memory_ops new_memory_store"

definition update_limit :: "string \<Rightarrow> int \<Rightarrow> 's limiter \<Rightarrow> 's limiter" where
  "update_limit k n l = (if n \<le> 0 then l else l\<lparr>lim_caps := (lim_caps l)(k \<mapsto> n)\<rparr>)"

definition cap_for :: "string \<Rightarrow> 's limiter \<Rightarrow> int" where
  "cap_for k l = (case lim_caps l k of Some c \<Rightarrow> c | None \<Rightarrow> lim_requests l)"

definition allow :: "string \<Rightarrow> time \<Rightarrow> time \<Rightarrow> time \<Rightarrow> 's limiter \<Rightarrow> bool \<times> 's limiter" where
  "allow k now tc t l =
     (if now < st_get_blocked (lim_ops l) k (lim_store l) then (False, l)
      else let ((count, ws), s) = st_increment (lim_ops l) k (lim_window l) tc t (lim_store l)
           in (count \<le> cap_for k l, l\<lparr>lim_store := s\<rparr>))"

definition mark_rate_limited :: "string \<Rightarrow> time \<Rightarrow> time \<Rightarrow> 's limiter \<Rightarrow> 's limiter" where
  "mark_rate_limited k until tc l = l\<lparr>lim_store := st_set_blocked (lim_ops l) k until tc (lim_store l)\<rparr>"

definition is_rate_limited :: "string \<Rightarrow> time \<Rightarrow> time \<Rightarrow> 's limiter \<Rightarrow> bool" where
  "is_rate_limited k now t l =
     (if now < st_get_blocked (lim_ops l) k (lim_store l) then True
      else let (count, ws) = st_count (lim_ops l) k (lim_window l) t (lim_store l)
           in cap_for k l \<le> count \<and> time_sub now ws \<le> lim_window l)"

definition available_at :: "string \<Rightarrow> time \<Rightarrow> time \<Rightarrow> 's limiter \<Rightarrow> time" where
  "available_at k now t l =
     (let blocked = st_get_blocked (lim_ops l) k (lim_store l);
          earliest = (if now < blocked then blocked else zero_time);
          (count, ws) = st_count (lim_ops l) k (lim_window l) t (lim_store l)
      in if cap_for k l \<le> count
         then let window_end = ws + lim_window l
              in if now < window_end
                 then if earliest = zero_time \<or> window_end < earliest then window_end else earliest
                 else earliest
         else earliest)"

subsection \<open>Histories of a limiter\<close>

text \<open>The state-changing calls, with their clock readings, and what a history admits:
  for each admitted request its key, the start of the window it was counted in, and when.\<close>

datatype limiter_op =
    Allow string time time time
  | Mark string time time
  | Update string int

fun readings :: "limiter_op \<Rightarrow> time list" where
  "readings (Allow k now tc t) = [now, tc, t]"
| "readings (Mark k until tc) = [tc]"
| "readings (Update k n) = []"

type_synonym admit_log = "(string \<times> time \<times> time) list"

fun limiter_step :: "limiter_op \<Rightarrow> 's limiter \<times> admit_log \<Rightarrow> 's limiter \<times> admit_log" where
  "limiter_step (Allow k now tc t) (l, lg) =
     (let (ok, l') = allow k now tc t l
      in (l', if ok then (k, snd (fst (st_increment (lim_ops l) k (lim_window l) tc t (lim_store l))), t) # lg
              else lg))"
| "limiter_step (Mark k until tc) (l, lg) = (mark_rate_limited k until tc l, lg)"
| "limiter_step (Update k n) (l, lg) = (update_limit k n l, lg)"

definition limiter_run :: "limiter_op list \<Rightarrow> 's limiter \<Rightarrow> 's limiter \<times> admit_log" where
  "limiter_run ops l = fold limiter_step ops (l, [])"

definition clock_ok :: "time \<Rightarrow> limiter_op list \<Rightarrow> bool" where
  "clock_ok t0 ops \<longleftrightarrow> sorted (t0 # concat (map readings ops))"

definition admitted_times :: "string \<Rightarrow> admit_log \<Rightarrow> time list" where
  "admitted_times k lg = [t. (k', ws, t) \<leftarrow> lg, k' = k]"

definition caps_updated :: "string \<Rightarrow> limiter_op list \<Rightarrow> bool" where
  "caps_updated k ops \<longleftrightarrow> (\<exists>op\<in>set ops. \<exists>n. op = Update k n)"

text \<open>At most two windows of length \<open>w\<close> meet an interval of length \<open>w\<close>.\<close>

lemma two_windows:
  fixes lg :: "(time \<times> time) list" and w :: int
  assumes in_window: "\<forall>(ws, t)\<in>set lg. ws \<le> t \<and> t \<le> ws + w"
    and apart: "\<forall>(ws, t)\<in>set lg. \<forall>(ws', t')\<in>set lg. ws < ws' \<longrightarrow> ws + w < ws'"
    and per_window: "\<forall>s. length (filter (\<lambda>(ws, t). ws = s) lg) \<le> c"
  shows "length (filter (\<lambda>(ws, t). a \<le> t \<and> t \<le> a + w) lg) \<le> 2 * c"
proof -
  let ?in = "filter (\<lambda>(ws, t). a \<le> t \<and> t \<le> a + w) lg"
  define S where "S = fst ` set ?in"
  have "\<exists>x y. S \<subseteq> {x, y}"
  proof (rule ccontr)
    assume no: "\<nexists>x y. S \<subseteq> {x, y}"
    then obtain x where x: "x \<in> S" by blast
    from no obtain y where y: "y \<in> S" "y \<noteq> x" by blast
    from no obtain z where z: "z \<in> S" "z \<noteq> x" "z \<noteq> y" by blast
    have three: False if "p < q" "q < r" "p \<in> S" "q \<in> S" "r \<in> S" for p q r
    proof -
      from that obtain tp tq tr where e: "(p, tp) \<in> set lg" "(q, tq) \<in> set lg" "(r, tr) \<in> set lg"
          "a \<le> tp" "tr \<le> a + w"
        by (auto simp: S_def)
      then have "p + w < q" "q + w < r" "tp \<le> p + w" "r \<le> tr"
        using in_window apart that(1,2) by (fastforce dest: bspec)+
      moreover have "0 \<le> w" using in_window e(1) by fastforce
      ultimately show False using e(4,5) by linarith
    qed
    show False
      using three x y z by (metis linorder_neqE_linordered_idom)
  qed
  then obtain x y where S: "S \<subseteq> {x, y}" by blast
  have mono: "length (filter P xs) \<le> length (filter Q xs)" if "\<And>e. e \<in> set xs \<Longrightarrow> P e \<Longrightarrow> Q e" for P Q and xs :: "'b list"
    using that by (induction xs) auto
  have split: "length (filter (\<lambda>e. P e \<or> Q e) xs) \<le> length (filter P xs) + length (filter Q xs)" for P Q and xs :: "'b list"
    by (induction xs) auto
  have "length ?in \<le> length (filter (\<lambda>e. (case e of (ws, t) \<Rightarrow> ws = x) \<or> (case e of (ws, t) \<Rightarrow> ws = y)) lg)"
  proof (rule mono)
    fix e assume e: "e \<in> set lg" "case e of (ws, t) \<Rightarrow> a \<le> t \<and> t \<le> a + w"
    then have "fst e \<in> S" by (force simp: S_def)
    then show "(case e of (ws, t) \<Rightarrow> ws = x) \<or> (case e of (ws, t) \<Rightarrow> ws = y)"
      using S by (auto split: prod.split)
  qed
  also have "\<dots> \<le> length (filter (\<lambda>(ws, t). ws = x) lg) + length (filter (\<lambda>(ws, t). ws = y) lg)"
    by (rule split)
  also have "\<dots> \<le> c + c" using per_window by (intro add_mono) auto
  finally show ?thesis by simp
qed

text \<open>The admitted requests of one key, as windows and times.\<close>

definition admits_of :: "string \<Rightarrow> admit_log \<Rightarrow> (time \<times> time) list" where
  "admits_of k lg = map snd (filter (\<lambda>e. fst e = k) lg)"

lemma admits_of_simps [simp]:
  "admits_of k [] = []"
  "admits_of k ((k', x) # lg) = (if k' = k then x # admits_of k lg else admits_of k lg)"
  by (simp_all add: admits_of_def)

lemma admitted_times_conv: "admitted_times k lg = map snd (admits_of k lg)"
  by (induction lg) (auto simp: admitted_times_def admits_of_def)

lemma filter_admitted_times:
  "length (filter P (admitted_times k lg)) = length (filter (\<lambda>(ws, t). P t) (admits_of k lg))"
  by (simp add: admitted_times_conv filter_map comp_def case_prod_unfold)

text \<open>What holds of the log of one key and the store's entry for it, up to time \<open>lt\<close>.\<close>

definition log_inv :: "int \<Rightarrow> duration \<Rightarrow> (int \<times> time) option \<Rightarrow> time \<Rightarrow> (time \<times> time) list \<Rightarrow> bool" where
  "log_inv c w ent lt E \<longleftrightarrow>
     (\<forall>(ws, t)\<in>set E. ws \<le> t \<and> t \<le> ws + w) \<and>
     (\<forall>(ws, t)\<in>set E. \<forall>(ws', t')\<in>set E. ws < ws' \<longrightarrow> ws + w < ws') \<and>
     (\<forall>s. int (length (filter (\<lambda>(ws, t). ws = s) E)) \<le> c) \<and>
     (case ent of
        None \<Rightarrow> E = []
      | Some (n, cw) \<Rightarrow>
          cw \<le> lt \<and> 0 \<le> n \<and> int (length (filter (\<lambda>(ws, t). ws = cw) E)) \<le> n \<and>
          (\<forall>(ws, t)\<in>set E. ws \<le> cw \<and> (ws < cw \<longrightarrow> ws + w < cw)))"

lemma log_inv_init: "0 \<le> c \<Longrightarrow> log_inv c w None lt []"
  by (simp add: log_inv_def)

lemma log_inv_later: "log_inv c w ent lt E \<Longrightarrow> lt \<le> lt2 \<Longrightarrow> log_inv c w ent lt2 E"
  by (auto simp: log_inv_def split: option.splits)

lemma log_inv_created: "log_inv c w None lt E \<Longrightarrow> log_inv c w (Some (0, tc)) tc E"
  by (auto simp: log_inv_def)

lemma log_inv_first:
  assumes "log_inv c w None lt E" and "ws \<le> t" and "t \<le> ws + w"
  shows "log_inv c w (Some (1, ws)) t E" and "1 \<le> c \<Longrightarrow> log_inv c w (Some (1, ws)) t ((ws, t) # E)"
  using assms by (auto simp: log_inv_def)

lemma log_inv_live:
  assumes "log_inv c w (Some (n, cw)) lt E" and "lt \<le> t" and "t \<le> cw + w"
  shows "log_inv c w (Some (n + 1, cw)) t E"
    and "n + 1 \<le> c \<Longrightarrow> log_inv c w (Some (n + 1, cw)) t ((cw, t) # E)"
  using assms unfolding log_inv_def
  by (simp_all add: case_prod_beta) fastforce+

lemma log_inv_fresh_window:
  assumes "log_inv c w (Some (n, cw)) lt E" and "cw + w < t" and "0 \<le> w"
  shows "log_inv c w (Some (1, t)) t E" and "1 \<le> c \<Longrightarrow> log_inv c w (Some (1, t)) t ((t, t) # E)"
proof -
  have old: "ws + w < t \<and> ws < t" if "(ws, u) \<in> set E" for ws u
    using assms that by (fastforce simp: log_inv_def)
  then have none: "filter (\<lambda>(ws, u). ws = t) E = []" and old: "\<forall>x\<in>set E. fst x + w < t \<and> fst x < t \<and> fst x \<le> t"
    by (fastforce simp: filter_empty_conv)+
  show "log_inv c w (Some (1, t)) t E"
    using assms(1) old none unfolding log_inv_def by (auto simp: case_prod_beta )
  show "log_inv c w (Some (1, t)) t ((t, t) # E)" if "1 \<le> c"
    using assms(1,3) old none that unfolding log_inv_def by (auto simp: case_prod_beta)
qed

lemma log_inv_bound:
  assumes "log_inv c w ent lt E" and "0 \<le> c"
  shows "int (length (filter (\<lambda>(ws, t). a \<le> t \<and> t \<le> a + w) E)) \<le> 2 * c"
proof -
  have "\<forall>s. length (filter (\<lambda>(ws, t). ws = s) E) \<le> nat c"
    using assms by (simp add: log_inv_def nat_le_iff [symmetric] le_nat_iff)
  with two_windows [of E w "nat c" a] assms(1) have
    "length (filter (\<lambda>(ws, t). a \<le> t \<and> t \<le> a + w) E) \<le> 2 * nat c"
    unfolding log_inv_def by blast
  then show ?thesis using assms(2) by linarith
qed

subsection \<open>The contract of a store\<close>

text \<open>\<open>entry s k\<close> is the count of key \<open>k\<close> and the start of its window, if the store has
  one. The laws are what the comments of the interface ask for.\<close>

locale rate_store =
  fixes ops :: "'s store_ops" and entry :: "'s \<Rightarrow> string \<Rightarrow> (int \<times> time) option"
  assumes increment_first:
      "\<lbrakk>entry s k = None; tc \<le> t; 0 \<le> w\<rbrakk> \<Longrightarrow>
         \<exists>ws. fst (st_increment ops k w tc t s) = (1, ws) \<and> tc \<le> ws \<and> ws \<le> t \<and> time_sub t ws \<le> w"
    and increment_live:
      "\<lbrakk>entry s k = Some (n, ws); time_sub t ws \<le> w\<rbrakk> \<Longrightarrow> fst (st_increment ops k w tc t s) = (n + 1, ws)"
    and increment_expired:
      "\<lbrakk>entry s k = Some (n, ws); w < time_sub t ws\<rbrakk> \<Longrightarrow> fst (st_increment ops k w tc t s) = (1, t)"
    and increment_entry:
      "entry (snd (st_increment ops k w tc t s)) =
         (entry s)(k \<mapsto> fst (st_increment ops k w tc t s))"
    and increment_blocked:
      "st_get_blocked ops k' (snd (st_increment ops k w tc t s)) = st_get_blocked ops k' s"
    and count_entry:
      "st_count ops k w t s =
         (case entry s k of
            Some (n, ws) \<Rightarrow> if w < time_sub t ws then (0, zero_time) else (n, ws)
          | None \<Rightarrow> (0, zero_time))"
    and set_blocked_entry:
      "entry (st_set_blocked ops k u tc s) = entry s \<or>
         entry s k = None \<and> entry (st_set_blocked ops k u tc s) = (entry s)(k \<mapsto> (0, tc))"
    and set_blocked_get:
      "st_get_blocked ops k' (st_set_blocked ops k u tc s) =
         (if k' = k then u else st_get_blocked ops k' s)"

context rate_store
begin

definition next_count :: "string \<Rightarrow> duration \<Rightarrow> time \<Rightarrow> 's \<Rightarrow> int" where
  "next_count k w t s =
     (case entry s k of Some (n, ws) \<Rightarrow> if time_sub t ws \<le> w then n + 1 else 1 | None \<Rightarrow> 1)"

lemma increment_count:
  assumes "tc \<le> t" and "0 \<le> w"
  shows "fst (fst (st_increment ops k w tc t s)) = next_count k w t s"
proof (cases "entry s k")
  case None
  with increment_first [OF None assms] show ?thesis by (auto simp: next_count_def)
next
  case (Some e)
  obtain n ws where e: "e = (n, ws)" by fastforce
  show ?thesis
    using increment_live [of s k n ws t w tc] increment_expired [of s k n ws w t tc] Some e
    by (auto simp: next_count_def not_le)
qed

text \<open>When a request is admitted.\<close>

lemma allow_iff:
  assumes "lim_ops l = ops" and "tc \<le> t" and "0 \<le> lim_window l"
  shows "fst (allow k now tc t l) \<longleftrightarrow>
    st_get_blocked ops k (lim_store l) \<le> now \<and>
    next_count k (lim_window l) t (lim_store l) \<le> cap_for k l"
  using increment_count [OF assms(2,3), of k "lim_store l"] assms(1)
  by (auto simp: allow_def split: prod.split)

lemma allow_store:
  assumes "lim_ops l = ops"
  shows "snd (allow k now tc t l) =
    (if now < st_get_blocked ops k (lim_store l) then l
     else l\<lparr>lim_store := snd (st_increment ops k (lim_window l) tc t (lim_store l))\<rparr>)"
  using assms by (simp add: allow_def split: prod.split)

lemma allow_predicted:
  assumes "lim_ops l = ops" and "0 \<le> lim_window l" and "0 < cap_for k l"
  shows "fst (allow k now now now l) \<longleftrightarrow> \<not> is_rate_limited k now now l"
  using assms(2,3) unfolding allow_iff [OF assms(1) order_refl assms(2)]
  by (auto simp: is_rate_limited_def assms(1) count_entry next_count_def split: option.splits prod.splits)

lemma allow_other_key:
  assumes "lim_ops l = ops" and "k' \<noteq> k"
  shows "entry (lim_store (snd (allow k now tc t l))) k' = entry (lim_store l) k'"
    and "st_get_blocked ops k' (lim_store (snd (allow k now tc t l))) = st_get_blocked ops k' (lim_store l)"
    and "cap_for k' (snd (allow k now tc t l)) = cap_for k' l"
  using assms(2) by (simp_all add: allow_store [OF assms(1)] increment_entry increment_blocked cap_for_def split: option.split)

text \<open>Available again: denied until the reported instant, that instant included.\<close>

lemma available_at_window:
  assumes "lim_ops l = ops" and "0 \<le> lim_window l" and "lim_window l < max_int64"
    and "st_get_blocked ops k (lim_store l) \<le> now" and "0 < cap_for k l"
    and "available_at k now now l = T" and "T \<noteq> zero_time" and "now \<le> t"
  shows "fst (allow k t t t l) \<longleftrightarrow> T < t"
proof -
  let ?w = "lim_window l"
  obtain n ws where e: "entry (lim_store l) k = Some (n, ws)" and n: "cap_for k l \<le> n" and T: "T = ws + ?w"
    using assms(4-7)
    by (auto simp: available_at_def assms(1) count_entry Let_def split: option.splits if_splits)
  have "time_sub t ws \<le> ?w \<longleftrightarrow> t \<le> T"
    using time_sub_le_iff [of ?w t ws] assms(2,3) T by (auto simp: min_int64_def)
  then show ?thesis
    using assms(4,5,8) n e
    by (auto simp: allow_iff [OF assms(1) order_refl assms(2)] next_count_def)
qed

text \<open>One step keeps the invariant of the log.\<close>

definition limiter_inv :: "string \<Rightarrow> int \<Rightarrow> time \<Rightarrow> 's limiter \<times> admit_log \<Rightarrow> bool" where
  "limiter_inv k c lt st \<longleftrightarrow>
     lim_ops (fst st) = ops \<and> 0 \<le> lim_window (fst st) \<and> lim_window (fst st) < max_int64 \<and>
     cap_for k (fst st) \<le> c \<and>
     log_inv c (lim_window (fst st)) (entry (lim_store (fst st)) k) lt (admits_of k (snd st))"

lemma limiter_inv_allow:
  assumes inv: "limiter_inv k c lt (l, lg)" and t: "lt \<le> now" "now \<le> tc" "tc \<le> t"
  shows "limiter_inv k c t (limiter_step (Allow k' now tc t) (l, lg))"
proof -
  let ?w = "lim_window l" and ?r = "st_increment ops k' (lim_window l) tc t (lim_store l)"
  have l: "lim_ops l = ops" "0 \<le> ?w" "?w < max_int64" "cap_for k l \<le> c"
    and li: "log_inv c ?w (entry (lim_store l) k) lt (admits_of k lg)"
    using inv by (auto simp: limiter_inv_def)
  have cap: "cap_for k (l\<lparr>lim_store := s\<rparr>) = cap_for k l" for s k by (simp add: cap_for_def split: option.split)
  show ?thesis
  proof (cases "now < st_get_blocked ops k' (lim_store l) \<or> k' \<noteq> k")
    case True
    then show ?thesis
      using l log_inv_later [OF li, of t] t
      by (auto simp: limiter_inv_def allow_def Let_def cap increment_entry split: prod.splits)
         (metis fun_upd_other increment_entry snd_conv)+
  next
    case False
    then have k: "k' = k" and nb: "\<not> now < st_get_blocked ops k (lim_store l)" by auto
    obtain n ws s where r: "?r = ((n, ws), s)" by (metis prod.collapse)
    have entry: "entry s k = Some (n, ws)"
      using increment_entry [of k ?w tc t "lim_store l"] r k by simp
    have le: "time_sub t x \<le> ?w \<longleftrightarrow> t \<le> x + ?w" for x
      using time_sub_le_iff [of ?w t x] l(2,3) by (auto simp: min_int64_def)
    have step: "log_inv c ?w (Some (n, ws)) t (admits_of k lg) \<and>
        (n \<le> c \<longrightarrow> log_inv c ?w (Some (n, ws)) t ((ws, t) # admits_of k lg))"
    proof (cases "entry (lim_store l) k")
      case None
      obtain ws' where "fst ?r = (1, ws')" "ws' \<le> t" "time_sub t ws' \<le> ?w"
        using increment_first [OF None t(3) l(2)] k by auto
      then show ?thesis
        using log_inv_first [of c ?w lt "admits_of k lg" ws' t] li None r le by auto
    next
      case (Some e)
      obtain m cw where e: "e = (m, cw)" by fastforce
      show ?thesis
      proof (cases "time_sub t cw \<le> ?w")
        case True
        then have "n = m + 1" "ws = cw"
          using increment_live [of "lim_store l" k m cw t ?w tc] Some e k r by simp_all
        moreover have "log_inv c ?w (Some (m, cw)) lt (admits_of k lg)" "lt \<le> t" "t \<le> cw + ?w"
          using li Some e t True le by simp_all
        ultimately show ?thesis using log_inv_live by simp
      next
        case False
        then have "n = 1" "ws = t"
          using increment_expired [of "lim_store l" k m cw ?w t tc] Some e k r by (simp_all add: not_le)
        moreover have "log_inv c ?w (Some (m, cw)) lt (admits_of k lg)" "cw + ?w < t"
          using li Some e False le [of cw] by (simp_all add: not_le)
        ultimately show ?thesis using log_inv_fresh_window l(2) by simp
      qed
    qed
    then show ?thesis
      using l nb r entry by (auto simp: limiter_inv_def allow_def k cap)
  qed
qed

lemma limiter_inv_mark:
  assumes inv: "limiter_inv k c lt (l, lg)" and t: "lt \<le> tc"
  shows "limiter_inv k c tc (limiter_step (Mark k' until tc) (l, lg))"
proof -
  have cap: "cap_for k (l\<lparr>lim_store := s\<rparr>) = cap_for k l" for s
    by (simp add: cap_for_def split: option.split)
  have li: "log_inv c (lim_window l) (entry (lim_store l) k) lt (admits_of k lg)"
    using inv by (simp add: limiter_inv_def)
  let ?s = "st_set_blocked ops k' until tc (lim_store l)"
  have "log_inv c (lim_window l) (entry ?s k) tc (admits_of k lg)"
  proof (cases "entry ?s k = entry (lim_store l) k")
    case True
    then show ?thesis using log_inv_later [OF li t] by simp
  next
    case False
    then have "entry (lim_store l) k = None" "entry ?s k = Some (0, tc)"
      using set_blocked_entry [of k' until tc "lim_store l"] by (auto split: if_splits)
    then show ?thesis using log_inv_created li by simp
  qed
  then show ?thesis using inv by (simp add: limiter_inv_def mark_rate_limited_def cap)
qed

lemma limiter_inv_update:
  assumes "limiter_inv k c lt (l, lg)" and "k' = k \<Longrightarrow> n \<le> c"
  shows "limiter_inv k c lt (limiter_step (Update k' n) (l, lg))"
  using assms by (auto simp: limiter_inv_def update_limit_def cap_for_def split: option.splits)

lemma limiter_inv_step:
  assumes "limiter_inv k c lt st" and "sorted (lt # readings op)" and "\<And>n. op = Update k n \<Longrightarrow> n \<le> c"
  shows "limiter_inv k c (List.last (lt # readings op)) (limiter_step op st)"
proof (cases op)
  case (Allow k' now tc t)
  then show ?thesis using assms limiter_inv_allow [of k c lt "fst st" "snd st"] by simp
next
  case (Mark k' until tc)
  then show ?thesis using assms limiter_inv_mark [of k c lt "fst st" "snd st"] by simp
next
  case (Update k' n)
  then show ?thesis using assms limiter_inv_update [of k c lt "fst st" "snd st"] by simp
qed

lemma limiter_inv_run:
  assumes "limiter_inv k c lt st" and "clock_ok lt lops" and "\<And>n. Update k n \<in> set lops \<Longrightarrow> n \<le> c"
  shows "\<exists>lt2. limiter_inv k c lt2 (fold limiter_step lops st)"
  using assms
proof (induction lops arbitrary: lt st)
  case Nil
  then show ?case by auto
next
  case (Cons op lops)
  let ?lt2 = "List.last (lt # readings op)"
  have s: "sorted (lt # readings op @ concat (map readings lops))"
    using Cons.prems(2) by (simp add: clock_ok_def)
  then have s1: "sorted (lt # readings op)" and "clock_ok ?lt2 lops"
    using s by (cases op; simp add: clock_ok_def sorted_append)+
  moreover have "limiter_inv k c ?lt2 (limiter_step op st)"
    using limiter_inv_step [OF Cons.prems(1) s1] Cons.prems(3) by simp
  ultimately show ?case using Cons.IH [of ?lt2 "limiter_step op st"] Cons.prems(3) by simp
qed

text \<open>No key is admitted more than twice its cap within one window length.\<close>

lemma admitted_bound:
  assumes "lim_ops l = ops" and "0 \<le> lim_window l" and "lim_window l < max_int64"
    and "entry (lim_store l) k = None" and "0 \<le> c" and "cap_for k l \<le> c"
    and "clock_ok t0 lops" and "\<And>n. Update k n \<in> set lops \<Longrightarrow> n \<le> c"
  shows "int (length (filter (\<lambda>t. a \<le> t \<and> t \<le> a + lim_window l)
            (admitted_times k (snd (limiter_run lops l))))) \<le> 2 * c"
proof -
  have "limiter_inv k c t0 (l, [])"
    using assms log_inv_init [of c "lim_window l" t0] by (simp add: limiter_inv_def)
  from limiter_inv_run [OF this assms(7,8)] obtain lt2
    where inv: "limiter_inv k c lt2 (limiter_run lops l)"
    unfolding limiter_run_def by auto
  have "lim_window (fst (fold limiter_step lops st)) = lim_window (fst st)" for st :: "'s limiter \<times> admit_log"
  proof (induction lops arbitrary: st)
    case (Cons op lops)
    have "lim_window (fst (limiter_step op st)) = lim_window (fst st)"
      by (cases st; cases op)
         (auto simp: allow_def mark_rate_limited_def update_limit_def Let_def split: prod.split)
    with Cons.IH [of "limiter_step op st"] show ?case by simp
  qed simp
  then have "lim_window (fst (limiter_run lops l)) = lim_window l" by (simp add: limiter_run_def)
  then show ?thesis
    using log_inv_bound [OF _ assms(5)] inv unfolding limiter_inv_def filter_admitted_times by metis
qed

end

subsection \<open>The in-memory store keeps the contract\<close>

definition mem_entry :: "memory_store \<Rightarrow> string \<Rightarrow> (int \<times> time) option" where
  "mem_entry m k = map_option (\<lambda>e. (e_count e, e_window_start e)) (m k)"

interpretation mem: rate_store memory_ops mem_entry
proof
  fix s k tc t w n ws k' u
  show "\<exists>ws. fst (st_increment memory_ops k w tc t s) = (1, ws) \<and> tc \<le> ws \<and> ws \<le> t \<and> time_sub t ws \<le> w"
    if "mem_entry s k = None" "tc \<le> t" "0 \<le> w"
    using that by (auto simp: memory_ops_def mem_increment_def mem_entry_def get_or_create_def Let_def)
  show "fst (st_increment memory_ops k w tc t s) = (n + 1, ws)"
    if "mem_entry s k = Some (n, ws)" "time_sub t ws \<le> w"
    using that by (auto simp: memory_ops_def mem_increment_def mem_entry_def get_or_create_def Let_def)
  show "fst (st_increment memory_ops k w tc t s) = (1, t)"
    if "mem_entry s k = Some (n, ws)" "w < time_sub t ws"
    using that by (auto simp: memory_ops_def mem_increment_def mem_entry_def get_or_create_def Let_def)
  show "mem_entry (snd (st_increment memory_ops k w tc t s)) =
      (mem_entry s)(k \<mapsto> fst (st_increment memory_ops k w tc t s))"
    by (rule ext)
       (auto simp: memory_ops_def mem_increment_def mem_entry_def get_or_create_def Let_def split: option.split)
  show "st_get_blocked memory_ops k' (snd (st_increment memory_ops k w tc t s)) =
      st_get_blocked memory_ops k' s"
    by (auto simp: memory_ops_def mem_increment_def mem_get_blocked_def get_or_create_def Let_def split: option.split)
  show "st_count memory_ops k w t s =
      (case mem_entry s k of
         Some (n, ws) \<Rightarrow> if w < time_sub t ws then (0, zero_time) else (n, ws) | None \<Rightarrow> (0, zero_time))"
    by (simp add: memory_ops_def mem_count_def mem_entry_def split: option.split)
  show "mem_entry (st_set_blocked memory_ops k u tc s) = mem_entry s \<or>
      mem_entry s k = None \<and> mem_entry (st_set_blocked memory_ops k u tc s) = (mem_entry s)(k \<mapsto> (0, tc))"
    by (cases "s k")
       (auto simp: memory_ops_def mem_set_blocked_def mem_entry_def get_or_create_def Let_def fun_eq_iff)
  show "st_get_blocked memory_ops k' (st_set_blocked memory_ops k u tc s) =
      (if k' = k then u else st_get_blocked memory_ops k' s)"
    by (auto simp: memory_ops_def mem_set_blocked_def mem_get_blocked_def get_or_create_def Let_def split: option.split)
qed

lemma new_limiter_simps [simp]:
  "lim_ops (new_limiter n w) = memory_ops" "lim_window (new_limiter n w) = w"
  "lim_requests (new_limiter n w) = n" "lim_store (new_limiter n w) = new_memory_store"
  "cap_for k (new_limiter n w) = n"
  by (simp_all add: new_limiter_def new_limiter_with_def cap_for_def)

lemma mem_entry_new [simp]: "mem_entry new_memory_store k = None"
  by (simp add: mem_entry_def new_memory_store_def)

subsection \<open>Properties\<close>

text \<open>C37: the bound of the limiter. In any history of a new limiter with its in-memory store,
  of calls on any keys by a clock that does not run backwards, with caps for a key never
  above \<open>c\<close>, no interval as long as the window admits more than \<open>2 * c\<close> requests
  of the key: the windows are fixed, not sliding, and two of them can meet the interval.\<close>

theorem admits_at_most_twice_the_cap:
  assumes "0 \<le> w" and "w < max_int64" and "0 \<le> c" and "n \<le> c"
    and "clock_ok start lops" and "\<forall>m. Update k m \<in> set lops \<longrightarrow> m \<le> c"
  shows "int (length (filter (\<lambda>t. a \<le> t \<and> t \<le> a + w)
            (admitted_times k (snd (limiter_run lops (new_limiter n w)))))) \<le> 2 * c"
  using mem.admitted_bound [of "new_limiter n w" k c start lops a] assms by simp

theorem admits_at_most_twice_the_cap_witness:
  "int (length (filter (\<lambda>t. 2 \<le> t \<and> t \<le> 2 + 10)
     (admitted_times ''k'' (snd (limiter_run
        [Mark ''k'' 0 1, Allow ''k'' 11 11 11, Allow ''k'' 11 11 11, Allow ''k'' 12 12 12, Allow ''k'' 12 12 12]
        (new_limiter 2 10)))))) \<le> 2 * 2"
  by (rule admits_at_most_twice_the_cap [where start = 1]) (simp_all add: max_int64_def clock_ok_def)

text \<open>The bound is met: four requests within 1 ns of each other, with a cap of two.\<close>

lemma twice_the_cap_is_reached:
  "admitted_times ''k'' (snd (limiter_run
     [Mark ''k'' 0 1, Allow ''k'' 11 11 11, Allow ''k'' 11 11 11, Allow ''k'' 12 12 12, Allow ''k'' 12 12 12]
     (new_limiter 2 10))) = [12, 12, 11, 11]"
  by (simp add: limiter_run_def admitted_times_def allow_def mark_rate_limited_def memory_ops_def
      mem_increment_def mem_set_blocked_def mem_get_blocked_def get_or_create_def new_memory_store_def
      time_sub_def max_int64_def min_int64_def Let_def cap_for_def new_limiter_def new_limiter_with_def)

text \<open>\<^verbatim>\<open>IsRateLimited\<close> predicts \<^verbatim>\<open>Allow\<close>. At the same instant, for a
  key with a positive cap, a request is admitted exactly when the key is not reported as
  rate limited, and asking does not change the answer for any other key.\<close>

theorem allow_iff_not_rate_limited:
  assumes "lim_ops l = memory_ops" and "0 \<le> lim_window l" and "0 < cap_for k l"
  shows "fst (allow k now now now l) = (\<not> is_rate_limited k now now l) \<and>
         (\<forall>k' t. k' \<noteq> k \<longrightarrow>
            is_rate_limited k' t t (snd (allow k now now now l)) = is_rate_limited k' t t l)"
proof -
  have "is_rate_limited k' t t (snd (allow k now now now l)) = is_rate_limited k' t t l" if "k' \<noteq> k" for k' t
    using mem.allow_other_key [OF assms(1) that, of now now now] mem.allow_store [OF assms(1), of k now now now] assms(1)
    by (auto simp: is_rate_limited_def mem.count_entry cap_for_def split: option.splits if_splits)
  then show ?thesis using mem.allow_predicted [OF assms] by simp
qed

theorem allow_iff_not_rate_limited_witness:
  "fst (allow ''k'' 5 5 5 (new_limiter 2 10)) = (\<not> is_rate_limited ''k'' 5 5 (new_limiter 2 10))"
  using allow_iff_not_rate_limited [of "new_limiter 2 10" "''k''" 5] by simp

text \<open>What \<^verbatim>\<open>AvailableAt\<close> promises. For a key with a positive cap that no
  429 has blocked, the reported instant is the last at which a request is still denied: the
  key is denied up to and including it, and admitted from the next nanosecond on.\<close>

theorem available_at_is_last_denied:
  assumes "lim_ops l = memory_ops" and "0 \<le> lim_window l" and "lim_window l < max_int64"
    and "st_get_blocked (lim_ops l) k (lim_store l) \<le> now" and "0 < cap_for k l"
    and "available_at k now now l \<noteq> zero_time" and "now \<le> t"
  shows "fst (allow k t t t l) \<longleftrightarrow> available_at k now now l < t"
  using mem.available_at_window [OF assms(1-3) _ assms(5) refl assms(6,7)] assms(1,4) by simp

theorem available_at_is_last_denied_witness:
  "let l = snd (allow ''k'' 100 100 100 (new_limiter 1 10))
   in available_at ''k'' 105 105 l = 110 \<and> fst (allow ''k'' 110 110 110 l) = (available_at ''k'' 105 105 l < 110)"
proof -
  let ?l = "snd (allow ''k'' 100 100 100 (new_limiter 1 10))"
  have l: "lim_ops ?l = memory_ops" "0 \<le> lim_window ?l" "lim_window ?l < max_int64"
    "st_get_blocked (lim_ops ?l) ''k'' (lim_store ?l) \<le> 105" "0 < cap_for ''k'' ?l"
    "available_at ''k'' 105 105 ?l = 110"
    by (simp_all add: allow_def memory_ops_def cap_for_def available_at_def mem_count_def new_limiter_def
        new_limiter_with_def mem_increment_def mem_get_blocked_def get_or_create_def new_memory_store_def
        time_sub_def max_int64_def min_int64_def Let_def)
  then show ?thesis
    using available_at_is_last_denied [of ?l "''k''" 105 110] unfolding Let_def by simp
qed

text \<open>A key that is both over its cap and blocked: the reported instant is the earlier of
  the two, at which the key is still denied.\<close>

lemma available_at_too_early_when_blocked:
  "let l = mark_rate_limited ''k'' 500 101 (snd (allow ''k'' 100 100 100 (new_limiter 1 10)))
   in available_at ''k'' 105 105 l = 110 \<and> \<not> fst (allow ''k'' 111 111 111 l)"
  by (simp add: allow_def memory_ops_def cap_for_def available_at_def mem_count_def new_limiter_def
        new_limiter_with_def mem_increment_def mem_get_blocked_def get_or_create_def new_memory_store_def
        mark_rate_limited_def mem_set_blocked_def time_sub_def max_int64_def min_int64_def Let_def)

end
