(* ===== verification/Domain_Limit.thy ===== *)
theory Domain_Limit
  imports Rate_Limit Go_Strings
begin

text \<open>
  The per-domain limiter (\<^verbatim>\<open>src/ratelimit/domain.go\<close>) and the host of a URL
  (\<^verbatim>\<open>src/internal/uri/extract.go\<close>). The library's \<^verbatim>\<open>url.Parse\<close> followed by
  \<^verbatim>\<open>Hostname\<close> is the parameter \<open>parse\<close>: None is a parse error, and
  otherwise the value is the host name, empty when the URL has none. \<^verbatim>\<open>Allow\<close>
  holds the limiter's mutex and is one step.
\<close>

type_synonym url_parser = "string \<Rightarrow> string option"

definition extract_host :: "url_parser \<Rightarrow> string \<Rightarrow> string" where
  "extract_host parse raw =
     (case parse raw of None \<Rightarrow> raw | Some host \<Rightarrow> if host = [] then raw else to_lower host)"

record domain_config =
  dc_domain :: string
  dc_requests :: int
  dc_window :: duration
  dc_min_delay :: duration
  dc_random_delay :: duration

record domain_limiter =
  dl_rules :: "domain_config list"
  dl_limiters :: "string \<Rightarrow> memory_store limiter option"
  dl_last_req :: "string \<Rightarrow> time option"

definition new_domain_limiter :: "domain_config list \<Rightarrow> domain_limiter" where
  "new_domain_limiter rules = \<lparr>dl_rules = rules, dl_limiters = (\<lambda>d. None), dl_last_req = (\<lambda>d. None)\<rparr>"

fun match_rule :: "string \<Rightarrow> domain_config list \<Rightarrow> domain_config option" where
  "match_rule domain [] = None"
| "match_rule domain (r # rs) =
     (if dc_domain r = [] then Some r
      else if dc_domain r = domain then Some r
      else if has_prefix (dc_domain r) ''*.'' \<and>
              (has_suffix domain (drop 1 (dc_domain r)) \<or> domain = drop 2 (dc_domain r)) then Some r
      else match_rule domain rs)"

definition get_limiter :: "string \<Rightarrow> domain_config \<Rightarrow> domain_limiter \<Rightarrow> memory_store limiter \<times> domain_limiter" where
  "get_limiter domain rule dl =
     (case dl_limiters dl domain of
        Some l \<Rightarrow> (l, dl)
      | None \<Rightarrow> let l = new_limiter (dc_requests rule) (dc_window rule)
                in (l, dl\<lparr>dl_limiters := (dl_limiters dl)(domain \<mapsto> l)\<rparr>))"

text \<open>\<open>t1\<close> is the reading of \<^verbatim>\<open>time.Since\<close>, \<open>t2\<close> to \<open>t4\<close> those of the
  limiter of the domain, \<open>t5\<close> that of the last line; \<open>rnd\<close> is the value of
  \<^verbatim>\<open>rand.Int64N\<close>. The sum of the delays wraps like any \<^verbatim>\<open>int64\<close>.\<close>

definition too_soon :: "string \<Rightarrow> domain_config \<Rightarrow> int \<Rightarrow> time \<Rightarrow> domain_limiter \<Rightarrow> bool" where
  "too_soon domain rule rnd t1 dl \<longleftrightarrow>
     (dc_min_delay rule > 0 \<or> dc_random_delay rule > 0) \<and>
     (case dl_last_req dl domain of
        None \<Rightarrow> False
      | Some lt \<Rightarrow>
          let delay = (if dc_random_delay rule > 0 then wrap64 (dc_min_delay rule + rnd)
                       else dc_min_delay rule)
          in time_sub t1 lt < delay)"

definition domain_allow ::
    "url_parser \<Rightarrow> string \<Rightarrow> int \<Rightarrow> time \<Rightarrow> time \<Rightarrow> time \<Rightarrow> time \<Rightarrow> time \<Rightarrow> domain_limiter \<Rightarrow> bool \<times> domain_limiter"
where
  "domain_allow parse raw rnd t1 t2 t3 t4 t5 dl =
     (let domain = extract_host parse raw
      in case match_rule domain (dl_rules dl) of
           None \<Rightarrow> (True, dl)
         | Some rule \<Rightarrow>
             if too_soon domain rule rnd t1 dl then (False, dl)
             else let (l, dl1) = get_limiter domain rule dl;
                      (ok, l1) = allow domain t2 t3 t4 l;
                      dl2 = dl1\<lparr>dl_limiters := (dl_limiters dl1)(domain \<mapsto> l1)\<rparr>
                  in if \<not> ok then (False, dl2)
                     else (True, dl2\<lparr>dl_last_req := (dl_last_req dl2)(domain \<mapsto> t5)\<rparr>))"

definition domain_mark_rate_limited :: "url_parser \<Rightarrow> string \<Rightarrow> time \<Rightarrow> time \<Rightarrow> domain_limiter \<Rightarrow> domain_limiter" where
  "domain_mark_rate_limited parse raw until tc dl =
     (let domain = extract_host parse raw
      in case match_rule domain (dl_rules dl) of
           None \<Rightarrow> dl
         | Some rule \<Rightarrow>
             (let (l, dl1) = get_limiter domain rule dl
              in dl1\<lparr>dl_limiters := (dl_limiters dl1)(domain \<mapsto> mark_rate_limited domain until tc l)\<rparr>))"

text \<open>\<^verbatim>\<open>Wait\<close>: one element of the list per turn of the loop, with the random value
  and the readings of its call of \<^verbatim>\<open>Allow\<close>, and whether the context is done before
  the 50 ms are over. True is a nil error, False the error of the context; None is a loop
  that is still going when the list ends.\<close>

record wait_turn =
  wt_rnd :: int
  wt_t1 :: time
  wt_t2 :: time
  wt_t3 :: time
  wt_t4 :: time
  wt_t5 :: time
  wt_cancelled :: bool

fun domain_wait :: "url_parser \<Rightarrow> string \<Rightarrow> wait_turn list \<Rightarrow> domain_limiter \<Rightarrow> bool option \<times> domain_limiter" where
  "domain_wait parse raw [] dl = (None, dl)"
| "domain_wait parse raw (w # ws) dl =
     (let (ok, dl1) = domain_allow parse raw (wt_rnd w) (wt_t1 w) (wt_t2 w) (wt_t3 w) (wt_t4 w) (wt_t5 w) dl
      in if ok then (Some True, dl1)
         else if wt_cancelled w then (Some False, dl1)
         else domain_wait parse raw ws dl1)"

subsection \<open>Rules\<close>

definition rule_matches :: "string \<Rightarrow> domain_config \<Rightarrow> bool" where
  "rule_matches domain r \<longleftrightarrow>
     dc_domain r = [] \<or> dc_domain r = domain \<or>
     (\<exists>base. dc_domain r = ''*.'' @ base \<and> (domain = base \<or> (\<exists>sub. domain = sub @ ''.'' @ base)))"

lemma match_rule_Cons:
  "match_rule domain (r # rs) = (if rule_matches domain r then Some r else match_rule domain rs)"
proof -
  have "has_prefix (dc_domain r) ''*.'' \<and>
        (has_suffix domain (drop 1 (dc_domain r)) \<or> domain = drop 2 (dc_domain r)) \<longleftrightarrow>
        (\<exists>base. dc_domain r = ''*.'' @ base \<and> (domain = base \<or> (\<exists>sub. domain = sub @ ''.'' @ base)))"
    by (auto simp: has_prefix_iff has_suffix_iff)
  then show ?thesis
    by (cases "dc_domain r = []"; cases "dc_domain r = domain")
       (simp_all only: match_rule.simps rule_matches_def if_True if_False simp_thms)
qed

subsection \<open>Histories\<close>

datatype domain_op =
    DAllow string wait_turn
  | DMark string time time

type_synonym domain_log = "(string \<times> time \<times> time) list"

text \<open>The log of the admitted requests a rule covers: the domain, the reading its delay was
  checked with, and the reading recorded for it; the latest first.\<close>

fun domain_step :: "url_parser \<Rightarrow> domain_op \<Rightarrow> domain_limiter \<times> domain_log \<Rightarrow> domain_limiter \<times> domain_log" where
  "domain_step parse (DAllow raw w) (dl, lg) =
     (let (ok, dl1) = domain_allow parse raw (wt_rnd w) (wt_t1 w) (wt_t2 w) (wt_t3 w) (wt_t4 w) (wt_t5 w) dl
      in (dl1, if ok \<and> match_rule (extract_host parse raw) (dl_rules dl) \<noteq> None
               then (extract_host parse raw, wt_t1 w, wt_t5 w) # lg else lg))"
| "domain_step parse (DMark raw until tc) (dl, lg) =
     (domain_mark_rate_limited parse raw until tc dl, lg)"

definition domain_run :: "url_parser \<Rightarrow> domain_op list \<Rightarrow> domain_config list \<Rightarrow> domain_limiter \<times> domain_log" where
  "domain_run parse ops rules = fold (domain_step parse) ops (new_domain_limiter rules, [])"

fun random_ok :: "duration \<Rightarrow> domain_op \<Rightarrow> bool" where
  "random_ok n (DAllow raw w) \<longleftrightarrow> 0 \<le> wt_rnd w \<and> (0 < n \<longrightarrow> wt_rnd w < n)"
| "random_ok n (DMark raw until tc) \<longleftrightarrow> True"

definition spaced :: "duration \<Rightarrow> string \<Rightarrow> domain_log \<Rightarrow> bool" where
  "spaced d domain lg \<longleftrightarrow>
     successively (\<lambda>(x, t1, t5) (x', t1', t5'). d \<le> t1 - t5') (filter (\<lambda>e. fst e = domain) lg)"

lemma get_limiter_frame:
  "get_limiter d r dl = (l, dl1) \<Longrightarrow> dl_rules dl1 = dl_rules dl \<and> dl_last_req dl1 = dl_last_req dl"
  by (auto simp: get_limiter_def Let_def split: option.splits)

lemma domain_allow_cases:
  assumes "match_rule (extract_host parse raw) (dl_rules dl) = Some rule"
    and "domain_allow parse raw rnd t1 t2 t3 t4 t5 dl = (ok, dl')"
  shows "dl_rules dl' = dl_rules dl"
    and "ok \<Longrightarrow> \<not> too_soon (extract_host parse raw) rule rnd t1 dl \<and>
           dl_last_req dl' = (dl_last_req dl)(extract_host parse raw \<mapsto> t5)"
    and "\<not> ok \<Longrightarrow> dl_last_req dl' = dl_last_req dl"
  using assms
  by (auto simp: domain_allow_def Let_def dest!: get_limiter_frame split: prod.splits if_splits)

lemma domain_allow_no_rule:
  "match_rule (extract_host parse raw) (dl_rules dl) = None \<Longrightarrow>
     domain_allow parse raw rnd t1 t2 t3 t4 t5 dl = (True, dl)"
  by (simp add: domain_allow_def)

lemma not_too_soon:
  assumes "\<not> too_soon d rule rnd t1 dl" and "dl_last_req dl d = Some lt"
    and "0 < dc_min_delay rule" and "0 \<le> rnd" and "0 < dc_random_delay rule \<longrightarrow> rnd < dc_random_delay rule"
    and "dc_min_delay rule + dc_random_delay rule \<le> max_int64" and "dc_min_delay rule \<le> max_int64"
  shows "dc_min_delay rule \<le> t1 - lt"
proof -
  define delay where "delay = (if dc_random_delay rule > 0 then wrap64 (dc_min_delay rule + rnd) else dc_min_delay rule)"
  have "wrap64 (dc_min_delay rule + rnd) = dc_min_delay rule + rnd" if "0 < dc_random_delay rule"
    using assms that by (intro wrap64_id) (auto simp: min_int64_def)
  then have d: "dc_min_delay rule \<le> delay" "delay \<le> max_int64"
    using assms(4-7) by (auto simp: delay_def)
  have "\<not> time_sub t1 lt < delay"
    using assms(1-3) by (auto simp: too_soon_def Let_def delay_def)
  then have "delay \<le> t1 - lt"
    using time_sub_less_iff [of delay t1 lt] d assms(3) by (simp add: min_int64_def not_less)
  then show ?thesis using d by simp
qed

definition domain_inv :: "domain_config list \<Rightarrow> string \<Rightarrow> duration \<Rightarrow> domain_limiter \<times> domain_log \<Rightarrow> bool" where
  "domain_inv rules domain d st \<longleftrightarrow>
     dl_rules (fst st) = rules \<and> spaced d domain (snd st) \<and>
     dl_last_req (fst st) domain =
       (case filter (\<lambda>e. fst e = domain) (snd st) of [] \<Rightarrow> None | e # es \<Rightarrow> Some (snd (snd e)))"

lemma domain_inv_step:
  assumes inv: "domain_inv rules domain (dc_min_delay rule) (dl, lg)" and m: "match_rule domain rules = Some rule"
    and ok: "random_ok (dc_random_delay rule) op"
    and d: "0 < dc_min_delay rule" "dc_min_delay rule + dc_random_delay rule \<le> max_int64"
      "dc_min_delay rule \<le> max_int64"
  shows "domain_inv rules domain (dc_min_delay rule) (domain_step parse op (dl, lg))"
proof (cases op)
  case (DMark raw until tc)
  then show ?thesis
    using inv by (auto simp: domain_inv_def domain_mark_rate_limited_def Let_def get_limiter_def split: option.splits)
next
  case (DAllow raw w)
  let ?h = "extract_host parse raw"
  obtain b dl1 where a: "domain_allow parse raw (wt_rnd w) (wt_t1 w) (wt_t2 w) (wt_t3 w) (wt_t4 w) (wt_t5 w) dl = (b, dl1)"
    by fastforce
  have rules: "dl_rules dl = rules" using inv by (simp add: domain_inv_def)
  show ?thesis
  proof (cases "match_rule ?h rules")
    case None
    then show ?thesis using inv domain_allow_no_rule [of parse raw dl] rules DAllow by simp
  next
    case (Some r')
    note C = domain_allow_cases [OF _ a, of r', unfolded rules, OF Some]
    show ?thesis
    proof (cases "b \<and> ?h = domain")
      case True
      then have "r' = rule" using Some m by simp
      have "\<not> too_soon domain rule (wt_rnd w) (wt_t1 w) dl"
        using C(2) True \<open>r' = rule\<close> by simp
      then have "dc_min_delay rule \<le> wt_t1 w - lt" if "dl_last_req dl domain = Some lt" for lt
        using not_too_soon [OF _ that d(1) _ _ d(2,3)] ok DAllow by simp
      then show ?thesis
        using inv a Some rules True C DAllow
        by (auto simp: domain_inv_def spaced_def Let_def successively_Cons split: list.splits)
    next
      case False
      then show ?thesis
        using inv a Some rules C DAllow by (cases b) (auto simp: domain_inv_def spaced_def)
    qed
  qed
qed

subsection \<open>Properties\<close>

text \<open>The rule of a domain is the first, in the order given, that matches it; an empty
  pattern matches everything, \<open>*.base\<close> matches \<open>base\<close> and every name that ends
  in a dot and \<open>base\<close>, and any other pattern only itself.\<close>

theorem first_matching_rule:
  "match_rule domain rules = find (rule_matches domain) rules"
  by (induction rules) (simp_all add: match_rule_Cons del: match_rule.simps(2))

text \<open>C38: the delay between requests. In any history of a domain limiter, two consecutive
  admitted requests of a domain whose rule has a \<^verbatim>\<open>MinDelay\<close> are at least that far
  apart, from the instant recorded for the first to the check of the second, whatever the
  random numbers, as long as the two delays together fit a \<^verbatim>\<open>Duration\<close>.\<close>

theorem requests_spaced_by_min_delay:
  assumes "match_rule domain rules = Some rule" and "0 < dc_min_delay rule"
    and "dc_min_delay rule + max 0 (dc_random_delay rule) \<le> max_int64"
    and "\<forall>op\<in>set ops. random_ok (dc_random_delay rule) op"
  shows "spaced (dc_min_delay rule) domain (snd (domain_run parse ops rules))"
proof -
  have "domain_inv rules domain (dc_min_delay rule) (fold (domain_step parse) ops st)"
    if "domain_inv rules domain (dc_min_delay rule) st" for st
    using that assms(4)
  proof (induction ops arbitrary: st)
    case (Cons op ops)
    then show ?case
      using domain_inv_step [OF _ assms(1), of "fst st" "snd st" op parse] assms(2,3) by simp
  qed simp
  moreover have "domain_inv rules domain (dc_min_delay rule) (new_domain_limiter rules, [])"
    by (simp add: domain_inv_def new_domain_limiter_def spaced_def)
  ultimately have "domain_inv rules domain (dc_min_delay rule) (domain_run parse ops rules)"
    by (simp add: domain_run_def)
  then show ?thesis by (simp add: domain_inv_def)
qed

theorem requests_spaced_by_min_delay_witness:
  "let turn = (\<lambda>t. \<lparr>wt_rnd = 1, wt_t1 = t, wt_t2 = t, wt_t3 = t, wt_t4 = t, wt_t5 = t, wt_cancelled = False\<rparr>)
   in spaced 10 ''a.example.com'' (snd (domain_run (\<lambda>u. Some u)
        [DAllow ''a.example.com'' (turn 5), DAllow ''a.example.com'' (turn 8), DAllow ''a.example.com'' (turn 17)]
        [\<lparr>dc_domain = ''*.example.com'', dc_requests = 5, dc_window = 100, dc_min_delay = 10, dc_random_delay = 2\<rparr>]))"
  unfolding Let_def
  by (rule requests_spaced_by_min_delay
        [where rule = "\<lparr>dc_domain = ''*.example.com'', dc_requests = 5, dc_window = 100, dc_min_delay = 10, dc_random_delay = 2\<rparr>",
         simplified domain_config.simps])
     (simp_all add: has_prefix_def has_suffix_def max_int64_def)

end
