(* ===== verification/Proxy_Pool.thy ===== *)
theory Proxy_Pool
  imports Prelude Float64 "HOL-Library.AList" "HOL-Library.Word" "HOL-Library.Signed_Division"
begin

text \<open>
  Package \<^verbatim>\<open>proxypool\<close>: the interface \<^verbatim>\<open>ProxyPool\<close>
  (\<^verbatim>\<open>proxypool.go\<close>), the static pool (\<^verbatim>\<open>static.go\<close>), the health store
  (\<^verbatim>\<open>healthstore.go\<close>) and the health-aware wrapper (\<^verbatim>\<open>healthy.go\<close>).
  Interface values are records of operations, and their contracts are the locales
  \<open>rotating_pool\<close> and \<open>health_store\<close>. The atomic 64-bit counter of the rotation is a
  word, so it wraps where Go's does. \<^verbatim>\<open>url.Parse\<close> is the parameter \<open>parse\<close> of
  the functions for \<^verbatim>\<open>http.Transport\<close>, of whatever result type it has.
  \<^verbatim>\<open>HealthyProxyPool.Next\<close> holds its mutex for one candidate at a time and takes the candidates
  from the pool without it; \<open>healthy_next\<close> is one whole call, so its facts are about calls that follow one
  another. Interleaved calls share out the rotation between them and are not modelled.
\<close>

subsection \<open>The interfaces\<close>

text \<open>\<open>pp_report_auth\<close> is the optional \<^verbatim>\<open>AuthFailureReporter\<close>.\<close>

record 'p pool_ops =
  pp_next :: "'p \<Rightarrow> string \<times> 'p"
  pp_len :: "'p \<Rightarrow> nat"
  pp_report_auth :: "('p \<Rightarrow> 'p) option"

record proxy_health =
  ph_successes :: int
  ph_failures :: int
  ph_total_latency :: duration
  ph_last_used :: time
  ph_deactivate_at :: time

definition zero_health :: proxy_health where
  "zero_health =
     \<lparr>ph_successes = 0, ph_failures = 0, ph_total_latency = 0, ph_last_used = zero_time, ph_deactivate_at = zero_time\<rparr>"

record 'h health_ops =
  hs_get :: "string \<Rightarrow> 'h \<Rightarrow> proxy_health option"
  hs_set :: "string \<Rightarrow> proxy_health \<Rightarrow> 'h \<Rightarrow> 'h"
  hs_all :: "'h \<Rightarrow> (string \<times> proxy_health) list"

subsection \<open>The static pool\<close>

record static_pool =
  sp_proxies :: "string list"
  sp_counter :: "64 word"

definition new_static :: "string list \<Rightarrow> static_pool" where
  "new_static urls = \<lparr>sp_proxies = urls, sp_counter = 0\<rparr>"

definition static_next :: "static_pool \<Rightarrow> string \<times> static_pool" where
  "static_next s =
     (if sp_proxies s = [] then ([], s)
      else let c = sp_counter s + 1;
               idx = unat (c mod word_of_nat (length (sp_proxies s)))
           in (sp_proxies s ! idx, s\<lparr>sp_counter := c\<rparr>))"

definition static_len :: "static_pool \<Rightarrow> nat" where
  "static_len s = length (sp_proxies s)"

definition static_transport_proxy :: "(string \<Rightarrow> 'u) \<Rightarrow> static_pool \<Rightarrow> 'u option \<times> static_pool" where
  "static_transport_proxy parse s =
     (let (next, s') = static_next s in (if next = [] then None else Some (parse next), s'))"

definition static_ops :: "static_pool pool_ops" where
  "static_ops = \<lparr>pp_next = static_next, pp_len = static_len, pp_report_auth = None\<rparr>"

subsection \<open>The in-memory health store\<close>

type_synonym memory_health_store = "(string \<times> proxy_health) list"

definition new_memory_health_store :: memory_health_store where
  "new_memory_health_store = []"

definition mhs_get :: "string \<Rightarrow> memory_health_store \<Rightarrow> proxy_health option" where
  "mhs_get proxy m = map_of m proxy"

definition mhs_set :: "string \<Rightarrow> proxy_health \<Rightarrow> memory_health_store \<Rightarrow> memory_health_store" where
  "mhs_set proxy h m = AList.update proxy h m"

definition mhs_all :: "memory_health_store \<Rightarrow> (string \<times> proxy_health) list" where
  "mhs_all m = m"

definition memory_health_ops :: "memory_health_store health_ops" where
  "memory_health_ops = \<lparr>hs_get = mhs_get, hs_set = mhs_set, hs_all = mhs_all\<rparr>"

subsection \<open>Health records\<close>

record healthy_config =
  hc_failure_threshold :: rat
  hc_min_requests :: int
  hc_cooldown :: duration

definition default_healthy_config :: healthy_config where
  "default_healthy_config =
     \<lparr>hc_failure_threshold = 1 / 2, hc_min_requests = 3, hc_cooldown = 5 * minute\<rparr>"

definition success_rate :: "proxy_health \<Rightarrow> rat" where
  "success_rate h =
     (let total = wrap64 (ph_successes h + ph_failures h)
      in if total = 0 then 1 else fdiv (float_of (ph_successes h)) (float_of total))"

definition avg_latency :: "proxy_health \<Rightarrow> duration" where
  "avg_latency h =
     (let total = wrap64 (ph_successes h + ph_failures h)
      in if total = 0 then 0 else ph_total_latency h sdiv total)"

text \<open>\<^verbatim>\<open>h, _ := store.Get(proxy)\<close>: the zero value when the proxy is unknown.\<close>

definition get_health :: "'h health_ops \<Rightarrow> string \<Rightarrow> 'h \<Rightarrow> proxy_health" where
  "get_health ops proxy s = (case hs_get ops proxy s of Some h \<Rightarrow> h | None \<Rightarrow> zero_health)"

definition record_success_to_store ::
    "'h health_ops \<Rightarrow> string \<Rightarrow> duration \<Rightarrow> time \<Rightarrow> 'h \<Rightarrow> 'h" where
  "record_success_to_store ops proxy latency now s =
     (let h = get_health ops proxy s
      in hs_set ops proxy
           (h\<lparr>ph_successes := wrap64 (ph_successes h + 1),
              ph_total_latency := wrap64 (ph_total_latency h + latency), ph_last_used := now\<rparr>) s)"

definition record_failure_to_store ::
    "'h health_ops \<Rightarrow> healthy_config \<Rightarrow> string \<Rightarrow> duration \<Rightarrow> time \<Rightarrow> time \<Rightarrow> 'h \<Rightarrow> 'h" where
  "record_failure_to_store ops cfg proxy latency now now2 s =
     (let h0 = get_health ops proxy s;
          h = h0\<lparr>ph_failures := wrap64 (ph_failures h0 + 1),
                 ph_total_latency := wrap64 (ph_total_latency h0 + latency), ph_last_used := now\<rparr>;
          total = wrap64 (ph_successes h + ph_failures h);
          h' = (if hc_min_requests cfg \<le> total \<and> success_rate h < fsub 1 (hc_failure_threshold cfg)
                then h\<lparr>ph_deactivate_at := now2\<rparr> else h)
      in hs_set ops proxy h' s)"

subsection \<open>The health-aware pool\<close>

record ('p, 'h) healthy_pool =
  hp_pool_ops :: "'p pool_ops"
  hp_pool :: 'p
  hp_config :: healthy_config
  hp_store_ops :: "'h health_ops"
  hp_store :: 'h

definition apply_healthy_defaults :: "healthy_config \<Rightarrow> healthy_config" where
  "apply_healthy_defaults cfg =
     (let cfg1 = (if hc_failure_threshold cfg \<le> 0
                  then cfg\<lparr>hc_failure_threshold := hc_failure_threshold default_healthy_config\<rparr> else cfg);
          cfg2 = (if hc_min_requests cfg1 \<le> 0
                  then cfg1\<lparr>hc_min_requests := hc_min_requests default_healthy_config\<rparr> else cfg1)
      in if hc_cooldown cfg2 \<le> 0
         then cfg2\<lparr>hc_cooldown := hc_cooldown default_healthy_config\<rparr> else cfg2)"

text \<open>With a custom store (\<^verbatim>\<open>WithHealthStore\<close>), and with the default one.\<close>

definition new_healthy_pool_with ::
    "'p pool_ops \<Rightarrow> 'p \<Rightarrow> healthy_config \<Rightarrow> 'h health_ops \<Rightarrow> 'h \<Rightarrow> ('p, 'h) healthy_pool" where
  "new_healthy_pool_with pops p cfg hops s =
     \<lparr>hp_pool_ops = pops, hp_pool = p, hp_config = apply_healthy_defaults cfg, hp_store_ops = hops, hp_store = s\<rparr>"

definition new_healthy_pool ::
    "'p pool_ops \<Rightarrow> 'p \<Rightarrow> healthy_config \<Rightarrow> ('p, memory_health_store) healthy_pool" where
  "new_healthy_pool pops p cfg = new_healthy_pool_with pops p cfg memory_health_ops new_memory_health_store"

fun healthy_scan :: "time \<Rightarrow> nat \<Rightarrow> ('p, 'h) healthy_pool \<Rightarrow> string \<times> ('p, 'h) healthy_pool" where
  "healthy_scan now 0 hp =
     (let (proxy, p') = pp_next (hp_pool_ops hp) (hp_pool hp) in (proxy, hp\<lparr>hp_pool := p'\<rparr>))"
| "healthy_scan now (Suc k) hp =
     (let (proxy, p') = pp_next (hp_pool_ops hp) (hp_pool hp);
          hp1 = hp\<lparr>hp_pool := p'\<rparr>
      in case hs_get (hp_store_ops hp) proxy (hp_store hp) of
           None \<Rightarrow> (proxy, hp1)
         | Some h \<Rightarrow>
             if ph_deactivate_at h \<noteq> zero_time \<and> ph_deactivate_at h + hc_cooldown (hp_config hp) < now
             then (proxy, hp1\<lparr>hp_store := hs_set (hp_store_ops hp) proxy
                     (h\<lparr>ph_deactivate_at := zero_time, ph_successes := 0, ph_failures := 0\<rparr>) (hp_store hp)\<rparr>)
             else if ph_deactivate_at h \<noteq> zero_time then healthy_scan now k hp1
             else (proxy, hp1))"

definition healthy_next :: "time \<Rightarrow> ('p, 'h) healthy_pool \<Rightarrow> string \<times> ('p, 'h) healthy_pool" where
  "healthy_next now hp = healthy_scan now (pp_len (hp_pool_ops hp) (hp_pool hp)) hp"

definition healthy_len :: "('p, 'h) healthy_pool \<Rightarrow> nat" where
  "healthy_len hp = pp_len (hp_pool_ops hp) (hp_pool hp)"

definition healthy_transport_proxy :: "(string \<Rightarrow> 'u) \<Rightarrow> time \<Rightarrow> ('p, 'h) healthy_pool \<Rightarrow> 'u option \<times> ('p, 'h) healthy_pool" where
  "healthy_transport_proxy parse now hp = (let (next, hp') = healthy_next now hp in (Some (parse next), hp'))"

definition hp_record_success :: "string \<Rightarrow> duration \<Rightarrow> time \<Rightarrow> ('p, 'h) healthy_pool \<Rightarrow> ('p, 'h) healthy_pool" where
  "hp_record_success proxy latency now hp =
     hp\<lparr>hp_store := record_success_to_store (hp_store_ops hp) proxy latency now (hp_store hp)\<rparr>"

definition hp_record_failure :: "string \<Rightarrow> duration \<Rightarrow> time \<Rightarrow> time \<Rightarrow> ('p, 'h) healthy_pool \<Rightarrow> ('p, 'h) healthy_pool" where
  "hp_record_failure proxy latency now now2 hp =
     hp\<lparr>hp_store := record_failure_to_store (hp_store_ops hp) (hp_config hp) proxy latency now now2 (hp_store hp)\<rparr>"

definition healthy_report_auth_failure :: "('p, 'h) healthy_pool \<Rightarrow> ('p, 'h) healthy_pool" where
  "healthy_report_auth_failure hp =
     (case pp_report_auth (hp_pool_ops hp) of
        Some report \<Rightarrow> hp\<lparr>hp_pool := report (hp_pool hp)\<rparr>
      | None \<Rightarrow> hp)"

definition healthy_stats :: "('p, 'h) healthy_pool \<Rightarrow> (string \<times> proxy_health) list" where
  "healthy_stats hp = hs_all (hp_store_ops hp) (hp_store hp)"

text \<open>\<^verbatim>\<open>ActiveCount\<close> reads the clock once per tracked proxy; \<open>clk\<close> gives the
  reading made for each.\<close>

definition active_count :: "(string \<Rightarrow> time) \<Rightarrow> ('p, 'h) healthy_pool \<Rightarrow> int" where
  "active_count clk hp =
     (let active = fold (\<lambda>(proxy, h) n.
            if ph_deactivate_at h \<noteq> zero_time \<and>
               clk proxy < ph_deactivate_at h + hc_cooldown (hp_config hp) then n - 1 else n)
          (hs_all (hp_store_ops hp) (hp_store hp)) (int (pp_len (hp_pool_ops hp) (hp_pool hp)))
      in if active < 0 then 0 else active)"

subsection \<open>The contracts\<close>

text \<open>A pool that rotates over a list with a 64-bit counter.\<close>

locale rotating_pool =
  fixes pops :: "'p pool_ops" and proxies :: "'p \<Rightarrow> string list" and counter :: "'p \<Rightarrow> 64 word"
  assumes len_proxies: "pp_len pops p = length (proxies p)"
    and next_empty: "proxies p = [] \<Longrightarrow> pp_next pops p = ([], p)"
    and next_rotates:
      "\<lbrakk>proxies p \<noteq> []; length (proxies p) < 2 ^ 64\<rbrakk> \<Longrightarrow>
         fst (pp_next pops p) = proxies p ! (unat (counter p + 1) mod length (proxies p))"
    and next_proxies: "proxies (snd (pp_next pops p)) = proxies p"
    and next_counter: "proxies p \<noteq> [] \<Longrightarrow> counter (snd (pp_next pops p)) = counter p + 1"

locale health_store =
  fixes hops :: "'h health_ops"
  assumes get_set: "hs_get hops k' (hs_set hops k h s) = (if k' = k then Some h else hs_get hops k' s)"
    and all_get: "map_of (hs_all hops s) k = hs_get hops k s"

context rotating_pool
begin

lemma next_in_proxies:
  assumes "proxies p \<noteq> []" and "length (proxies p) < 2 ^ 64"
  shows "fst (pp_next pops p) \<in> set (proxies p)"
  using assms by (simp add: next_rotates)

lemma next_position:
  assumes "proxies p \<noteq> []" and "length (proxies p) < 2 ^ 64" and "unat (counter p) + 1 < 2 ^ 64"
  shows "fst (pp_next pops p) = proxies p ! ((unat (counter p) + 1) mod length (proxies p))"
    and "unat (counter (snd (pp_next pops p))) = unat (counter p) + 1"
proof -
  have "unat (counter p + 1) = unat (counter p) + 1"
    using assms(3) by (simp add: unat_word_ariths)
  then show "fst (pp_next pops p) = proxies p ! ((unat (counter p) + 1) mod length (proxies p))"
    and "unat (counter (snd (pp_next pops p))) = unat (counter p) + 1"
    using assms by (simp_all add: next_rotates next_counter)
qed

end

interpretation static: rotating_pool static_ops sp_proxies sp_counter
proof
  fix p :: static_pool
  show "pp_len static_ops p = length (sp_proxies p)" by (simp add: static_ops_def static_len_def)
  show "pp_next static_ops p = ([], p)" if "sp_proxies p = []"
    using that by (simp add: static_ops_def static_next_def)
  show "sp_proxies (snd (pp_next static_ops p)) = sp_proxies p"
    by (simp add: static_ops_def static_next_def Let_def)
  show "sp_counter (snd (pp_next static_ops p)) = sp_counter p + 1" if "sp_proxies p \<noteq> []"
    using that by (simp add: static_ops_def static_next_def Let_def)
  show "fst (pp_next static_ops p) =
      sp_proxies p ! (unat (sp_counter p + 1) mod length (sp_proxies p))"
    if "sp_proxies p \<noteq> []" "length (sp_proxies p) < 2 ^ 64"
    using that by (simp add: static_ops_def static_next_def Let_def unat_mod_distrib unat_of_nat take_bit_eq_mod)
qed

interpretation memory_health: health_store memory_health_ops
proof
  fix k k' h and s :: memory_health_store
  show "hs_get memory_health_ops k' (hs_set memory_health_ops k h s) =
      (if k' = k then Some h else hs_get memory_health_ops k' s)"
    by (simp add: memory_health_ops_def mhs_get_def mhs_set_def update_conv')
  show "map_of (hs_all memory_health_ops s) k = hs_get memory_health_ops k s"
    by (simp add: memory_health_ops_def mhs_get_def mhs_all_def)
qed

text \<open>The store, the wrapped pool and the wrapper's two uses of them.\<close>

definition usable :: "time \<Rightarrow> duration \<Rightarrow> proxy_health option \<Rightarrow> bool" where
  "usable now cooldown ho \<longleftrightarrow>
     (case ho of
        None \<Rightarrow> True
      | Some h \<Rightarrow> ph_deactivate_at h = zero_time \<or> ph_deactivate_at h + cooldown < now)"

locale healthy_client = rotating_pool pops proxies counter + health_store hops
  for pops :: "'p pool_ops" and proxies counter and hops :: "'h health_ops"

context healthy_client
begin

definition hp_ok :: "('p, 'h) healthy_pool \<Rightarrow> bool" where
  "hp_ok hp \<longleftrightarrow> hp_pool_ops hp = pops \<and> hp_store_ops hp = hops \<and>
     proxies (hp_pool hp) \<noteq> [] \<and> length (proxies (hp_pool hp)) < 2 ^ 64"

definition is_usable :: "time \<Rightarrow> ('p, 'h) healthy_pool \<Rightarrow> string \<Rightarrow> bool" where
  "is_usable now hp x \<longleftrightarrow> usable now (hc_cooldown (hp_config hp)) (hs_get hops x (hp_store hp))"

lemma healthy_scan_find:
  assumes "hp_ok hp" and "unat (counter (hp_pool hp)) + Suc k < 2 ^ 64"
  defines "at_pos \<equiv> \<lambda>i. proxies (hp_pool hp) ! ((unat (counter (hp_pool hp)) + i) mod length (proxies (hp_pool hp)))"
  shows "fst (healthy_scan now k hp) =
    (case List.find (is_usable now hp) (map at_pos [1..<Suc k]) of
       Some x \<Rightarrow> x | None \<Rightarrow> at_pos (Suc k))"
  using assms(1,2) unfolding at_pos_def
proof (induction k arbitrary: hp)
  case 0
  then show ?case
    using next_position(1) [of "hp_pool hp"] by (simp add: hp_ok_def split: prod.split) (metis fst_conv)
next
  case (Suc k)
  let ?p = "hp_pool hp"
  let ?n = "length (proxies ?p)"
  obtain x p' where nx: "pp_next pops ?p = (x, p')" by fastforce
  define hp1 where "hp1 = hp\<lparr>hp_pool := p'\<rparr>"
  have ok: "hp_pool_ops hp = pops" "hp_store_ops hp = hops" "proxies ?p \<noteq> []" "?n < 2 ^ 64"
    using Suc.prems(1) by (auto simp: hp_ok_def)
  have x: "x = proxies ?p ! ((unat (counter ?p) + 1) mod ?n)" and c: "unat (counter p') = unat (counter ?p) + 1"
    and pr: "proxies p' = proxies ?p"
    using next_position [OF ok(3,4)] Suc.prems(2) next_proxies [of ?p] by (simp_all add: nx)
  have list: "map (\<lambda>i. proxies ?p ! ((unat (counter ?p) + i) mod ?n)) [1..<Suc (Suc k)] =
      x # map (\<lambda>i. proxies ?p ! ((unat (counter ?p) + Suc i) mod ?n)) [1..<Suc k]"
    unfolding x by (subst upt_conv_Cons) (simp_all add: map_Suc_upt [symmetric] del: upt_Suc map_Suc_upt)
  show ?case
  proof (cases "is_usable now hp x")
    case True
    then have "fst (healthy_scan now (Suc k) hp) = x"
      by (auto simp: nx ok is_usable_def usable_def Let_def split: option.splits)
    then show ?thesis using True unfolding list by simp
  next
    case False
    then have "healthy_scan now (Suc k) hp = healthy_scan now k hp1"
      by (auto simp: nx ok is_usable_def usable_def hp1_def Let_def split: option.splits)
    moreover have "is_usable now hp1 = is_usable now hp" "hp_ok hp1" "hp_pool hp1 = p'"
      using ok pr by (auto simp: hp1_def is_usable_def hp_ok_def fun_eq_iff)
    ultimately show ?thesis
      using Suc.IH [of hp1] Suc.prems(2) False unfolding list
      by (simp add: c pr del: upt_Suc healthy_scan.simps split: option.split)
  qed
qed

text \<open>The whole round: the first usable proxy after the counter, or the one after that round.\<close>

lemma healthy_next_find:
  assumes "hp_ok hp" and "unat (counter (hp_pool hp)) + Suc (length (proxies (hp_pool hp))) < 2 ^ 64"
  shows "fst (healthy_next now hp) =
    (case List.find (is_usable now hp) (rotation (Suc (unat (counter (hp_pool hp)))) (proxies (hp_pool hp))) of
       Some x \<Rightarrow> x
     | None \<Rightarrow> proxies (hp_pool hp) ! (Suc (unat (counter (hp_pool hp))) mod length (proxies (hp_pool hp))))"
proof -
  let ?c = "unat (counter (hp_pool hp))" and ?xs = "proxies (hp_pool hp)"
  have rot: "map (\<lambda>i. ?xs ! ((?c + i) mod length ?xs)) [1..<Suc (length ?xs)] = rotation (Suc ?c) ?xs"
    by (rule nth_equalityI) (simp_all add: rotation_def del: upt_Suc)
  have last_pos: "(?c + Suc (length ?xs)) mod length ?xs = Suc ?c mod length ?xs"
    by (metis add_Suc add_Suc_right mod_add_self2)
  have "pp_len (hp_pool_ops hp) (hp_pool hp) = length ?xs"
    using assms(1) len_proxies by (simp add: hp_ok_def)
  then show ?thesis
    using healthy_scan_find [OF assms, of now] unfolding rot last_pos healthy_next_def by simp
qed

lemma healthy_next_result:
  assumes "hp_ok hp" and "unat (counter (hp_pool hp)) + Suc (length (proxies (hp_pool hp))) < 2 ^ 64"
  shows "fst (healthy_next now hp) \<in> set (proxies (hp_pool hp))"
    and "\<exists>x\<in>set (proxies (hp_pool hp)). is_usable now hp x \<Longrightarrow> is_usable now hp (fst (healthy_next now hp))"
proof -
  let ?xs = "rotation (Suc (unat (counter (hp_pool hp)))) (proxies (hp_pool hp))"
  have ne: "proxies (hp_pool hp) \<noteq> []" using assms(1) by (simp add: hp_ok_def)
  have some: "x \<in> set (proxies (hp_pool hp)) \<and> is_usable now hp x" if "List.find (is_usable now hp) ?xs = Some x" for x
    using that by (metis find_Some_iff nth_mem set_rotation)
  show "fst (healthy_next now hp) \<in> set (proxies (hp_pool hp))"
    using some ne unfolding healthy_next_find [OF assms] by (auto split: option.split)
  show "is_usable now hp (fst (healthy_next now hp))" if "\<exists>x\<in>set (proxies (hp_pool hp)). is_usable now hp x"
    using that some unfolding healthy_next_find [OF assms] by (auto simp: find_None_iff split: option.split)
qed

end

interpretation static_healthy: healthy_client static_ops sp_proxies sp_counter memory_health_ops
  by unfold_locales

subsection \<open>Rates\<close>

text \<open>Division of counts below 2^53 is exact enough to compare with one half.\<close>

lemma representable_below_half: "representable (9007199254740991 / 18014398509481984)"
proof -
  have "18014398509481984 * (2::rat) powi (- 54) = 1"
    using powi_shift [of "- 54" 54] by (simp del: power_int_minus)
  then have "9007199254740991 / 18014398509481984 = 9007199254740991 * (2::rat) powi (- 54)"
    by (simp only: divide_eq_eq) simp
  then show ?thesis
    unfolding representable_def
    by (intro exI [of _ 9007199254740991] exI [of _ "- 54"] conjI) (simp_all only: of_int_numeral, simp)
qed

lemma fdiv_less_half_iff:
  assumes "0 \<le> s" and "s \<le> t" and "0 < t" and "t < 2 ^ 53"
  shows "fdiv (float_of s) (float_of t) < 1 / 2 \<longleftrightarrow> 2 * s < t"
proof -
  have fl: "float_of s = of_int s" "float_of t = of_int t"
    using assms by (simp_all add: float_of_exact)
  have half: "representable (1 / 2)"
    unfolding representable_def by (intro exI [of _ 1] exI [of _ "-1"]) simp
  show ?thesis
  proof
    assume lt: "2 * s < t"
    then have "(of_int s :: rat) / of_int t \<le> 9007199254740991 / 18014398509481984"
    proof -
      have "s * 18014398509481984 \<le> 9007199254740991 * t" using lt assms by simp
      then have "(of_int (s * 18014398509481984) :: rat) \<le> of_int (9007199254740991 * t)"
        by (simp only: of_int_le_iff)
      then show ?thesis using assms(3) by (simp add: field_simps)
    qed
    then have "fdiv (float_of s) (float_of t) \<le> 9007199254740991 / 18014398509481984"
      unfolding fdiv_def fl by (rule f64_le_representable [OF representable_below_half])
    then show "fdiv (float_of s) (float_of t) < 1 / 2" by simp
  next
    assume f: "fdiv (float_of s) (float_of t) < 1 / 2"
    show "2 * s < t"
    proof (rule ccontr)
      assume "\<not> 2 * s < t"
      then have "(of_int t :: rat) \<le> of_int (2 * s)" by (simp only: of_int_le_iff)
      then have "(1 / 2 :: rat) \<le> of_int s / of_int t" using assms(3) by (simp add: field_simps)
      then have "1 / 2 \<le> fdiv (float_of s) (float_of t)"
        unfolding fdiv_def fl by (rule f64_ge_representable [OF half])
      with f show False by simp
    qed
  qed
qed

lemma default_success_threshold: "fsub 1 (hc_failure_threshold default_healthy_config) = 1 / 2"
proof -
  have "representable (1 / 2)"
    unfolding representable_def by (intro exI [of _ 1] exI [of _ "-1"]) simp
  then show ?thesis by (simp add: fsub_def default_healthy_config_def f64_representable)
qed

lemma wrap64_small: "0 \<le> x \<Longrightarrow> x < 2 ^ 62 \<Longrightarrow> wrap64 x = x"
  by (rule wrap64_id) (simp_all add: min_int64_def max_int64_def)

subsection \<open>Properties\<close>

fun static_results :: "nat \<Rightarrow> static_pool \<Rightarrow> string list" where
  "static_results 0 s = []"
| "static_results (Suc m) s = fst (static_next s) # static_results m (snd (static_next s))"

lemma static_results_nth:
  assumes "sp_proxies s \<noteq> []" and "length (sp_proxies s) < 2 ^ 64" and "unat (sp_counter s) + m < 2 ^ 64"
  shows "static_results m s =
    map (\<lambda>i. sp_proxies s ! ((unat (sp_counter s) + i) mod length (sp_proxies s))) [1..<Suc m]"
  using assms
proof (induction m arbitrary: s)
  case 0
  then show ?case by simp
next
  case (Suc m)
  let ?f = "\<lambda>i. sp_proxies s ! ((unat (sp_counter s) + i) mod length (sp_proxies s))"
  have op: "pp_next static_ops = static_next" by (simp add: static_ops_def)
  have one: "fst (static_next s) = ?f 1" "unat (sp_counter (snd (static_next s))) = unat (sp_counter s) + 1"
    "sp_proxies (snd (static_next s)) = sp_proxies s"
    using static.next_position [of s] static.next_proxies [of s] Suc.prems by (simp_all add: op)
  have "map ?f [1..<Suc (Suc m)] = ?f 1 # map (\<lambda>i. ?f (Suc i)) [1..<Suc m]"
    by (subst upt_conv_Cons) (simp_all add: map_Suc_upt [symmetric] del: upt_Suc map_Suc_upt)
  then show ?case
    using Suc.IH [of "snd (static_next s)"] Suc.prems one by (simp del: upt_Suc)
qed

text \<open>The static pool rotates. The first 2^64 - 1 calls of \<^verbatim>\<open>Next\<close> on a new pool
  walk through the list in order and wrap around, starting at its second element, so every
  proxy gets its turn once in as many calls as there are proxies.\<close>

theorem static_rotation:
  assumes "urls \<noteq> []" and "length urls < 2 ^ 64" and "i < m" and "m < 2 ^ 64"
  shows "static_results m (new_static urls) ! i = urls ! (Suc i mod length urls)"
proof -
  have "static_results m (new_static urls) = map (\<lambda>i. urls ! (i mod length urls)) [1..<Suc m]"
    using static_results_nth [of "new_static urls" m] assms by (simp add: new_static_def del: upt_Suc)
  then show ?thesis using assms(3) by (simp del: upt_Suc)
qed

theorem static_rotation_witness:
  "static_results 4 (new_static [''a'', ''b'', ''c'']) ! 3 = ''b''"
  using static_rotation [of "[''a'', ''b'', ''c'']" 3 4] by simp

text \<open>C39: dead proxies are skipped. \<^verbatim>\<open>HealthyProxyPool.Next\<close> over a static pool
  always returns one of its proxies; and as long as one of them is usable (never failed, not
  deactivated, or past its cooldown), the one returned is usable, unless the 64-bit counter
  wraps during the scan. This is for calls that follow one another: with interleaved calls a
  scan may miss candidates that the others have taken.\<close>

theorem healthy_next_skips_dead:
  assumes "hp_pool_ops hp = static_ops" and "hp_store_ops hp = memory_health_ops"
    and "sp_proxies (hp_pool hp) \<noteq> []" and "length (sp_proxies (hp_pool hp)) < 2 ^ 64"
    and "unat (sp_counter (hp_pool hp)) + length (sp_proxies (hp_pool hp)) + 1 < 2 ^ 64"
  shows "fst (healthy_next now hp) \<in> set (sp_proxies (hp_pool hp)) \<and>
    ((\<exists>x\<in>set (sp_proxies (hp_pool hp)).
        usable now (hc_cooldown (hp_config hp)) (mhs_get x (hp_store hp))) \<longrightarrow>
     usable now (hc_cooldown (hp_config hp)) (mhs_get (fst (healthy_next now hp)) (hp_store hp)))"
proof -
  have "static_healthy.hp_ok hp" using assms by (simp add: static_healthy.hp_ok_def)
  moreover have "hs_get memory_health_ops = mhs_get" by (simp add: memory_health_ops_def)
  ultimately show ?thesis
    using static_healthy.healthy_next_result [of hp now] assms(5)
    by (simp add: static_healthy.is_usable_def)
qed

theorem healthy_next_skips_dead_witness:
  "let hp = hp_record_failure ''b'' 9 3 3 (hp_record_failure ''b'' 9 2 2 (hp_record_failure ''b'' 9 1 1
         (new_healthy_pool static_ops (new_static [''a'', ''b'']) default_healthy_config)))
   in fst (healthy_next 4 hp) \<in> {''a'', ''b''}"
  using healthy_next_skips_dead
    [of "hp_record_failure ''b'' 9 3 3 (hp_record_failure ''b'' 9 2 2 (hp_record_failure ''b'' 9 1 1
         (new_healthy_pool static_ops (new_static [''a'', ''b'']) default_healthy_config)))" 4]
  by (simp add: hp_record_failure_def new_healthy_pool_def new_healthy_pool_with_def new_static_def Let_def)

text \<open>When a proxy is deactivated. With the default configuration, a recorded failure
  deactivates the proxy exactly when that makes at least three requests of which fewer than
  half succeeded (counts below 2^53, where the comparison of the float64 rates is exact);
  otherwise it leaves the mark as it was, and a recorded success always leaves it.\<close>

theorem default_deactivation_rule:
  assumes "get_health memory_health_ops x s = h" and "0 \<le> ph_successes h" and "0 \<le> ph_failures h"
    and "ph_successes h + ph_failures h + 1 < 2 ^ 53"
  shows "ph_deactivate_at (get_health memory_health_ops x
            (record_failure_to_store memory_health_ops default_healthy_config x d now now2 s)) =
         (if 3 \<le> ph_successes h + ph_failures h + 1 \<and> 2 * ph_successes h < ph_successes h + ph_failures h + 1
          then now2 else ph_deactivate_at h) \<and>
         ph_deactivate_at (get_health memory_health_ops x
            (record_success_to_store memory_health_ops x d now s)) = ph_deactivate_at h"
proof -
  let ?s = "ph_successes h" and ?f = "ph_failures h"
  have gs: "get_health memory_health_ops x (hs_set memory_health_ops x h' s) = h'" for h'
    by (simp add: get_health_def memory_health.get_set)
  have w: "wrap64 (?f + 1) = ?f + 1" "wrap64 (?s + (?f + 1)) = ?s + (?f + 1)"
    using assms by (simp_all add: wrap64_small)
  have rate: "success_rate (h\<lparr>ph_failures := ?f + 1, ph_total_latency := l, ph_last_used := t\<rparr>) < 1 / 2 \<longleftrightarrow>
      2 * ?s < ?s + ?f + 1" for l t
    using fdiv_less_half_iff [of ?s "?s + (?f + 1)"] assms w by (simp add: success_rate_def Let_def algebra_simps)
  have minreq: "hc_min_requests default_healthy_config = 3" by (simp add: default_healthy_config_def)
  show ?thesis
    unfolding record_failure_to_store_def record_success_to_store_def Let_def gs assms(1) minreq
      default_success_threshold
    by (simp only: w rate add.assoc if_distrib [of ph_deactivate_at]) (simp add: w)
qed

theorem default_deactivation_rule_witness:
  "ph_deactivate_at (get_health memory_health_ops ''x''
     (record_failure_to_store memory_health_ops default_healthy_config ''x'' 7 100 101
        [(''x'', zero_health\<lparr>ph_successes := 1, ph_failures := 1\<rparr>)])) = 101"
  using default_deactivation_rule
    [of "''x''" "[(''x'', zero_health\<lparr>ph_successes := 1, ph_failures := 1\<rparr>)]"
        "zero_health\<lparr>ph_successes := 1, ph_failures := 1\<rparr>" 7 100 101]
  by (simp add: get_health_def memory_health_ops_def mhs_get_def zero_health_def)

text \<open>A tracked proxy that is not in the pool (any more) still lowers \<^verbatim>\<open>ActiveCount\<close>.\<close>

lemma active_count_counts_strangers:
  "active_count (\<lambda>x. 1001)
     (new_healthy_pool_with static_ops (new_static [''a'', ''b'']) default_healthy_config memory_health_ops
        [(''gone'', zero_health\<lparr>ph_failures := 3, ph_deactivate_at := 1000\<rparr>)]) = 1"
  by (simp add: active_count_def new_healthy_pool_with_def apply_healthy_defaults_def default_healthy_config_def
      memory_health_ops_def mhs_all_def static_ops_def static_len_def new_static_def zero_health_def time_units)

end
