(* ===== verification/Retry.thy ===== *)
theory Retry
  imports Float64 Go_Errors
begin

text \<open>
  Retries (\<^verbatim>\<open>src/retry.go\<close>, \<^verbatim>\<open>retry_reset.go\<close>, \<^verbatim>\<open>retry_hook.go\<close>), the per-URL
  tracker (\<^verbatim>\<open>retry_tracker.go\<close>) and the backoff configuration
  (\<^verbatim>\<open>backoff.go\<close>). What the loop meets, the function it retries, the context, the
  timer, the random numbers and the hook, acts on a world \<open>'w\<close> that is passed along; the
  operations of the world are a record. A Go result \<open>(value, error)\<close> is a sum. The bound
  of the loop is \<^verbatim>\<open>MaxRetries + 1\<close> turns, on which its recursion is structural.
\<close>

subsection \<open>Configuration and classification\<close>

record retry_config =
  rc_max_retries :: int
  rc_initial_wait :: duration
  rc_max_wait :: duration
  rc_multiplier :: rat
  rc_jitter_pct :: rat

definition default_retry_config :: retry_config where
  "default_retry_config =
     \<lparr>rc_max_retries = 3, rc_initial_wait = 500 * millisecond, rc_max_wait = 10 * second,
      rc_multiplier = 2, rc_jitter_pct = 0\<rparr>"

definition is_retryable_status :: "int \<Rightarrow> bool" where
  "is_retryable_status code \<longleftrightarrow> code = 429 \<or> code = 500 \<or> code = 502 \<or> code = 503 \<or> code = 504"

definition is_retryable :: "go_error \<Rightarrow> bool" where
  "is_retryable e =
     (case errors_as as_http_status e of
        Some code \<Rightarrow> is_retryable_status code
      | None \<Rightarrow>
          if errors_as as_op_error e \<noteq> None then True
          else if errors_as as_dns_error e \<noteq> None then True
          else case errors_as err_timeout e of Some b \<Rightarrow> b | None \<Rightarrow> False)"

subsection \<open>The loop\<close>

text \<open>\<open>rw_ctx_err\<close> is \<^verbatim>\<open>ctx.Err()\<close>; \<open>rw_sleep\<close> is the \<^verbatim>\<open>select\<close> on the timer and
  the context, True when the timer fires first; \<open>rw_hook\<close> is the hook of the context, if it
  has one; \<open>rw_ovf\<close> is the conversion of a float64 that is out of range for an int64, which
  Go leaves to the implementation.\<close>

record 'w retry_world =
  rw_ctx_err :: "'w \<Rightarrow> go_error option \<times> 'w"
  rw_sleep :: "duration \<Rightarrow> 'w \<Rightarrow> bool \<times> 'w"
  rw_rand :: "'w \<Rightarrow> rat \<times> 'w"
  rw_hook :: "(int \<Rightarrow> int \<Rightarrow> go_error \<Rightarrow> 'w \<Rightarrow> 'w) option"
  rw_ovf :: "rat \<Rightarrow> int"

definition retry_base_wait :: "(rat \<Rightarrow> int) \<Rightarrow> retry_config \<Rightarrow> nat \<Rightarrow> duration" where
  "retry_base_wait ovf rc attempt =
     (let wait = int64_of_float ovf (fmul (float_of (rc_initial_wait rc)) (fpow (rc_multiplier rc) attempt))
      in if rc_max_wait rc < wait then rc_max_wait rc else wait)"

definition retry_wait :: "'w retry_world \<Rightarrow> retry_config \<Rightarrow> nat \<Rightarrow> 'w \<Rightarrow> duration \<times> 'w" where
  "retry_wait env rc attempt w =
     (let wait = retry_base_wait (rw_ovf env) rc attempt
      in if 0 < rc_jitter_pct rc
         then let (u, w') = rw_rand env w;
                  jitter = fmul (fmul (float_of wait) (rc_jitter_pct rc)) (fsub (fmul 2 u) 1);
                  wait' = wrap64 (wait + int64_of_float (rw_ovf env) jitter)
              in (if wait' < 0 then 0 else wait', w')
         else (wait, w))"

definition call_hook :: "'w retry_world \<Rightarrow> int \<Rightarrow> int \<Rightarrow> go_error \<Rightarrow> 'w \<Rightarrow> 'w" where
  "call_hook env attempt max_attempts e w =
     (case rw_hook env of None \<Rightarrow> w | Some hook \<Rightarrow> hook attempt max_attempts e w)"

definition call_reset :: "('w \<Rightarrow> 'w) option \<Rightarrow> nat \<Rightarrow> 'w \<Rightarrow> 'w" where
  "call_reset reset attempt w = (case reset of Some f \<Rightarrow> if 0 < attempt then f w else w | None \<Rightarrow> w)"

text \<open>The turns from \<open>attempt\<close> on, \<open>k\<close> of which are left; \<open>lastErr\<close> is nil until a call
  has failed. After the loop the code returns the zero value with \<open>lastErr\<close>, which is a
  success when it is nil.\<close>

fun retry_loop ::
    "'w retry_world \<Rightarrow> retry_config \<Rightarrow> 'a \<Rightarrow> ('w \<Rightarrow> 'w) option \<Rightarrow> ('w \<Rightarrow> (go_error + 'a) \<times> 'w) \<Rightarrow>
     nat \<Rightarrow> nat \<Rightarrow> go_error option \<Rightarrow> 'w \<Rightarrow> (go_error + 'a) \<times> 'w"
where
  "retry_loop env rc zero reset fn attempt 0 lastErr w =
     ((case lastErr of None \<Rightarrow> Inr zero | Some e \<Rightarrow> Inl e), w)"
| "retry_loop env rc zero reset fn attempt (Suc k) lastErr w =
     (case rw_ctx_err env w of
        (Some e, w1) \<Rightarrow> (Inl e, w1)
      | (None, w1) \<Rightarrow>
          (case fn (call_reset reset attempt w1) of
             (Inr a, w2) \<Rightarrow> (Inr a, w2)
           | (Inl e, w2) \<Rightarrow>
               if \<not> is_retryable e then (Inl e, w2)
               else if int attempt < rc_max_retries rc
               then let w3 = call_hook env (int attempt + 1) (rc_max_retries rc) e w2;
                        (wait, w4) = retry_wait env rc attempt w3;
                        (fired, w5) = rw_sleep env wait w4
                    in if fired then retry_loop env rc zero reset fn (Suc attempt) k (Some e) w5
                       else (case rw_ctx_err env w5 of
                               (Some ce, w6) \<Rightarrow> (Inl ce, w6) | (None, w6) \<Rightarrow> (Inr zero, w6))
               else retry_loop env rc zero reset fn (Suc attempt) k (Some e) w2))"

definition retry_do_reset ::
    "'w retry_world \<Rightarrow> retry_config \<Rightarrow> 'a \<Rightarrow> ('w \<Rightarrow> 'w) option \<Rightarrow> ('w \<Rightarrow> (go_error + 'a) \<times> 'w) \<Rightarrow> 'w \<Rightarrow>
     (go_error + 'a) \<times> 'w"
where
  "retry_do_reset env rc zero reset fn w =
     retry_loop env rc zero reset fn 0 (nat (rc_max_retries rc + 1)) None w"

definition retry_do ::
    "'w retry_world \<Rightarrow> retry_config \<Rightarrow> 'a \<Rightarrow> ('w \<Rightarrow> (go_error + 'a) \<times> 'w) \<Rightarrow> 'w \<Rightarrow> (go_error + 'a) \<times> 'w"
where
  "retry_do env rc zero fn w = retry_do_reset env rc zero None fn w"

definition retry_do_with_reset ::
    "'w retry_world \<Rightarrow> retry_config \<Rightarrow> 'a \<Rightarrow> ('w \<Rightarrow> 'w) option \<Rightarrow> ('w \<Rightarrow> (go_error + 'a) \<times> 'w) \<Rightarrow> 'w \<Rightarrow>
     (go_error + 'a) \<times> 'w"
where
  "retry_do_with_reset env rc zero reset fn w = retry_do_reset env rc zero reset fn w"

text \<open>The hook travels in the context, which is a part of the world's record; a nil hook is none.\<close>

definition with_retry_hook :: "(int \<Rightarrow> int \<Rightarrow> go_error \<Rightarrow> 'w \<Rightarrow> 'w) option \<Rightarrow> 'w retry_world \<Rightarrow> 'w retry_world" where
  "with_retry_hook fn env = env\<lparr>rw_hook := fn\<rparr>"

definition retry_hook_from_context :: "'w retry_world \<Rightarrow> (int \<Rightarrow> int \<Rightarrow> go_error \<Rightarrow> 'w \<Rightarrow> 'w) option" where
  "retry_hook_from_context env = rw_hook env"

lemma retry_hook_called:
  "retry_hook_from_context (with_retry_hook fn env) = fn"
  "call_hook (with_retry_hook fn env) i n e w = (case fn of None \<Rightarrow> w | Some f \<Rightarrow> f i n e w)"
  by (simp_all add: retry_hook_from_context_def with_retry_hook_def call_hook_def)

text \<open>\<^verbatim>\<open>RetryHTTP\<close>: a response with a retryable status is closed and becomes an
  error. A response of the library is any type \<open>'r\<close> with its status code; the nil response
  is None.\<close>

definition http_attempt ::
    "('r \<Rightarrow> int) \<Rightarrow> ('r \<Rightarrow> 'w \<Rightarrow> 'w) \<Rightarrow> ('w \<Rightarrow> (go_error + 'r) \<times> 'w) \<Rightarrow> 'w \<Rightarrow> (go_error + 'r option) \<times> 'w"
where
  "http_attempt status close fn w =
     (case fn w of
        (Inl e, w1) \<Rightarrow> (Inl e, w1)
      | (Inr resp, w1) \<Rightarrow>
          if is_retryable_status (status resp)
          then (Inl (HttpStatusError (status resp)), close resp w1)
          else (Inr (Some resp), w1))"

definition retry_http_reset ::
    "'w retry_world \<Rightarrow> retry_config \<Rightarrow> ('r \<Rightarrow> int) \<Rightarrow> ('r \<Rightarrow> 'w \<Rightarrow> 'w) \<Rightarrow> ('w \<Rightarrow> 'w) option \<Rightarrow>
     ('w \<Rightarrow> (go_error + 'r) \<times> 'w) \<Rightarrow> 'w \<Rightarrow> (go_error + 'r option) \<times> 'w"
where
  "retry_http_reset env rc status close reset fn w =
     retry_do_reset env rc None reset (http_attempt status close fn) w"

definition retry_http ::
    "'w retry_world \<Rightarrow> retry_config \<Rightarrow> ('r \<Rightarrow> int) \<Rightarrow> ('r \<Rightarrow> 'w \<Rightarrow> 'w) \<Rightarrow>
     ('w \<Rightarrow> (go_error + 'r) \<times> 'w) \<Rightarrow> 'w \<Rightarrow> (go_error + 'r option) \<times> 'w"
where
  "retry_http env rc status close fn w = retry_do env rc None (http_attempt status close fn) w"

subsection \<open>Retry-After\<close>

text \<open>\<^verbatim>\<open>ParseRetryAfter\<close> on the value of the header; \<open>parse_date layout s\<close> is
  \<^verbatim>\<open>time.Parse\<close>. The product of seconds wraps like any int64.\<close>

definition retry_after_layouts :: "string list" where
  "retry_after_layouts =
     [''Mon, 02 Jan 2006 15:04:05 MST'', ''Mon, 02 Jan 2006 15:04:05 -0700'',
      ''Monday, 02-Jan-06 15:04:05 MST'', ''Mon Jan _2 15:04:05 2006'']"

fun first_date :: "(string \<Rightarrow> string \<Rightarrow> time option) \<Rightarrow> string list \<Rightarrow> string \<Rightarrow> time option" where
  "first_date parse_date [] s = None"
| "first_date parse_date (l # ls) s =
     (case parse_date l s of Some t \<Rightarrow> Some t | None \<Rightarrow> first_date parse_date ls s)"

definition parse_retry_after :: "(string \<Rightarrow> string \<Rightarrow> time option) \<Rightarrow> time \<Rightarrow> string \<Rightarrow> duration" where
  "parse_retry_after parse_date now val =
     (if val = [] then 0
      else case atoi val of
        Some seconds \<Rightarrow>
          if 0 < seconds then wrap64 (seconds * second)
          else (case first_date parse_date retry_after_layouts val of
                  Some t \<Rightarrow> max 0 (time_sub t now) | None \<Rightarrow> 0)
      | None \<Rightarrow> (case first_date parse_date retry_after_layouts val of
                  Some t \<Rightarrow> max 0 (time_sub t now) | None \<Rightarrow> 0))"

subsection \<open>The tracker\<close>

record retry_entry =
  re_attempts :: int
  re_last_attempt :: time
  re_permanent :: bool

record retry_tracker =
  rt_entries :: "string \<Rightarrow> retry_entry option"
  rt_ttl :: duration
  rt_max_attempts :: int

definition new_retry_tracker :: "int \<Rightarrow> duration \<Rightarrow> retry_tracker" where
  "new_retry_tracker n ttl = \<lparr>rt_entries = (\<lambda>u. None), rt_ttl = ttl, rt_max_attempts = n\<rparr>"

definition is_permanent_error :: "go_error \<Rightarrow> bool" where
  "is_permanent_error e =
     (case errors_as as_http_status e of
        None \<Rightarrow> False
      | Some code \<Rightarrow> code = 400 \<or> code = 401 \<or> code = 403 \<or> code = 404 \<or> code = 410 \<or> code = 451)"

definition should_retry :: "string \<Rightarrow> time \<Rightarrow> retry_tracker \<Rightarrow> bool \<times> retry_tracker" where
  "should_retry url now t =
     (case rt_entries t url of
        None \<Rightarrow> (True, t)
      | Some e \<Rightarrow>
          if \<not> re_permanent e \<and> rt_ttl t < time_sub now (re_last_attempt e)
          then (True, t\<lparr>rt_entries := map_delete url (rt_entries t)\<rparr>)
          else if re_permanent e then (False, t)
          else (re_attempts e < rt_max_attempts t, t))"

definition record_attempt :: "string \<Rightarrow> go_error \<Rightarrow> time \<Rightarrow> retry_tracker \<Rightarrow> retry_tracker" where
  "record_attempt url e now t =
     (let old = (case rt_entries t url of
                   Some x \<Rightarrow> x | None \<Rightarrow> \<lparr>re_attempts = 0, re_last_attempt = zero_time, re_permanent = False\<rparr>)
      in t\<lparr>rt_entries := (rt_entries t)(url \<mapsto>
             \<lparr>re_attempts = re_attempts old + 1, re_last_attempt = now, re_permanent = is_permanent_error e\<rparr>)\<rparr>)"

definition tracker_record_success :: "string \<Rightarrow> retry_tracker \<Rightarrow> retry_tracker" where
  "tracker_record_success url t = t\<lparr>rt_entries := map_delete url (rt_entries t)\<rparr>"

subsection \<open>Backoff\<close>

text \<open>The package's own backoff type delegates to a library; \<open>pacing\<close> is that function.\<close>

record backoff =
  bo_initial_wait :: duration
  bo_max_wait :: duration
  bo_multiplier :: rat
  bo_jitter_pct :: rat

definition default_backoff :: backoff where
  "default_backoff =
     \<lparr>bo_initial_wait = 500 * millisecond, bo_max_wait = 10 * second, bo_multiplier = 2, bo_jitter_pct = f64 (3 / 10)\<rparr>"

definition backoff_duration ::
    "(duration \<Rightarrow> duration \<Rightarrow> rat \<Rightarrow> rat \<Rightarrow> int \<Rightarrow> duration) \<Rightarrow> backoff \<Rightarrow> int \<Rightarrow> duration"
where
  "backoff_duration pacing b attempt =
     pacing (bo_initial_wait b) (bo_max_wait b) (bo_multiplier b) (bo_jitter_pct b) attempt"

subsection \<open>Logged runs\<close>

text \<open>The same world with a log of what the loop did to it, in order.\<close>

datatype 'a retry_event =
    EvCtx "go_error option"
  | EvReset
  | EvCall "go_error + 'a"
  | EvHook int int go_error
  | EvWait duration bool

type_synonym ('w, 'a) logged = "'w \<times> 'a retry_event list"

definition logged_world :: "'w retry_world \<Rightarrow> ('w, 'a) logged retry_world" where
  "logged_world env =
     \<lparr>rw_ctx_err = (\<lambda>(w, lg). let (r, w') = rw_ctx_err env w in (r, w', lg @ [EvCtx r])),
      rw_sleep = (\<lambda>d (w, lg). let (b, w') = rw_sleep env d w in (b, w', lg @ [EvWait d b])),
      rw_rand = (\<lambda>(w, lg). let (u, w') = rw_rand env w in (u, w', lg)),
      rw_hook = map_option (\<lambda>hook i n e (w, lg). (hook i n e w, lg @ [EvHook i n e])) (rw_hook env),
      rw_ovf = rw_ovf env\<rparr>"

definition logged_fn :: "('w \<Rightarrow> (go_error + 'a) \<times> 'w) \<Rightarrow> ('w, 'a) logged \<Rightarrow> (go_error + 'a) \<times> ('w, 'a) logged" where
  "logged_fn fn = (\<lambda>(w, lg). let (r, w') = fn w in (r, w', lg @ [EvCall r]))"

definition logged_reset :: "('w \<Rightarrow> 'w) option \<Rightarrow> (('w, 'a) logged \<Rightarrow> ('w, 'a) logged) option" where
  "logged_reset = map_option (\<lambda>f (w, lg). (f w, lg @ [EvReset]))"

fun calls_of :: "'a retry_event list \<Rightarrow> (go_error + 'a) list" where
  "calls_of [] = []"
| "calls_of (EvCall r # lg) = r # calls_of lg"
| "calls_of (_ # lg) = calls_of lg"

fun waits_of :: "'a retry_event list \<Rightarrow> duration list" where
  "waits_of [] = []"
| "waits_of (EvWait d b # lg) = d # waits_of lg"
| "waits_of (_ # lg) = waits_of lg"

definition retry_logged ::
    "'w retry_world \<Rightarrow> retry_config \<Rightarrow> 'a \<Rightarrow> ('w \<Rightarrow> 'w) option \<Rightarrow> ('w \<Rightarrow> (go_error + 'a) \<times> 'w) \<Rightarrow> 'w \<Rightarrow>
     (go_error + 'a) \<times> ('w, 'a) logged"
where
  "retry_logged env rc zero reset fn w =
     retry_do_reset (logged_world env) rc zero (logged_reset reset) (logged_fn fn) (w, [])"

text \<open>A context whose \<^verbatim>\<open>Done\<close> channel is closed has an error.\<close>

definition ctx_ok :: "'w retry_world \<Rightarrow> bool" where
  "ctx_ok env \<longleftrightarrow> (\<forall>d w w'. rw_sleep env d w = (False, w') \<longrightarrow> fst (rw_ctx_err env w') \<noteq> None)"

lemma calls_of_append [simp]: "calls_of (xs @ ys) = calls_of xs @ calls_of ys"
  by (induction xs rule: calls_of.induct) auto

lemma waits_of_append [simp]: "waits_of (xs @ ys) = waits_of xs @ waits_of ys"
  by (induction xs rule: waits_of.induct) auto

lemma logged_simps:
  "rw_ctx_err (logged_world env) (w, lg) = (fst (rw_ctx_err env w), snd (rw_ctx_err env w), lg @ [EvCtx (fst (rw_ctx_err env w))])"
  "rw_sleep (logged_world env) d (w, lg) = (fst (rw_sleep env d w), snd (rw_sleep env d w), lg @ [EvWait d (fst (rw_sleep env d w))])"
  "rw_ovf (logged_world env) = rw_ovf env"
  "logged_fn fn (w, lg) = (fst (fn w), snd (fn w), lg @ [EvCall (fst (fn w))])"
  by (simp_all add: logged_world_def logged_fn_def Let_def case_prod_beta)

lemma logged_retry_wait:
  "retry_wait (logged_world env) rc n (w, lg) = (fst (retry_wait env rc n w), snd (retry_wait env rc n w), lg)"
  by (simp add: retry_wait_def logged_world_def Let_def case_prod_beta)

lemma logged_hook:
  "call_hook (logged_world env) i n e (w, lg) =
     (call_hook env i n e w, lg @ (if rw_hook env = None then [] else [EvHook i n e]))"
  by (simp add: call_hook_def logged_world_def split: option.split)

lemma logged_call_reset:
  "call_reset (logged_reset reset) n (w, lg) =
     (call_reset reset n w, lg @ (if reset = None \<or> n = 0 then [] else [EvReset]))"
  by (simp add: call_reset_def logged_reset_def split: option.split)

lemmas logged_all = logged_simps logged_retry_wait logged_hook logged_call_reset

text \<open>What the log of the turns from \<open>n\<close> on says about the result.\<close>

definition final_call :: "go_error + 'a \<Rightarrow> bool" where
  "final_call r \<longleftrightarrow> (case r of Inr a \<Rightarrow> True | Inl e \<Rightarrow> \<not> is_retryable e)"

lemma not_final_call_iff: "\<not> final_call r \<longleftrightarrow> (\<exists>e. r = Inl e \<and> is_retryable e)"
  by (cases r) (auto simp: final_call_def)

definition trace_ok ::
    "'w retry_world \<Rightarrow> retry_config \<Rightarrow> nat \<Rightarrow> nat \<Rightarrow> go_error option \<Rightarrow> go_error + 'a \<Rightarrow> 'a retry_event list \<Rightarrow> bool"
where
  "trace_ok env rc n k le res new \<longleftrightarrow>
     length (calls_of new) \<le> k \<and>
     (\<forall>r\<in>set (butlast (calls_of new)). \<not> final_call r) \<and>
     (k = 0 \<longrightarrow> new = [] \<and> (\<forall>e. le = Some e \<longrightarrow> res = Inl e)) \<and>
     (0 < k \<longrightarrow>
       (\<forall>a. res = Inr a \<longrightarrow> calls_of new \<noteq> [] \<and> List.last (calls_of new) = Inr a) \<and>
       (\<forall>e. res = Inl e \<longrightarrow>
          EvCtx (Some e) \<in> set new \<or> calls_of new \<noteq> [] \<and> List.last (calls_of new) = Inl e)) \<and>
     (calls_of new \<noteq> [] \<and> final_call (List.last (calls_of new)) \<longrightarrow> res = List.last (calls_of new)) \<and>
     (length (calls_of new) = k \<and> 0 < k \<longrightarrow> res = List.last (calls_of new)) \<and>
     length (waits_of new) \<le> k - 1 \<and>
     (rc_jitter_pct rc \<le> 0 \<longrightarrow>
       (\<exists>m. waits_of new = map (retry_base_wait (rw_ovf env) rc) [n..<n + m]))"

lemma trace_ok_stop: "trace_ok env rc n 0 le (case le of None \<Rightarrow> Inr zero | Some e \<Rightarrow> Inl e) []"
  by (simp add: trace_ok_def split: option.split) (auto intro: exI [of _ 0])

lemma trace_ok_ctx: "trace_ok env rc n (Suc k) le (Inl e) [EvCtx (Some e)]"
  by (simp add: trace_ok_def) (auto intro: exI [of _ 0])

lemma trace_ok_final:
  assumes "calls_of pre = []" and "waits_of pre = []" and "final_call r"
  shows "trace_ok env rc n (Suc k) le r (pre @ [EvCall r])"
  using assms by (auto simp: trace_ok_def final_call_def)

lemma trace_ok_cancelled:
  assumes "calls_of pre = [Inl e]" and "waits_of pre = [d]" and "is_retryable e" and "0 < k"
    and "rc_jitter_pct rc \<le> 0 \<longrightarrow> d = retry_base_wait (rw_ovf env) rc n"
  shows "trace_ok env rc n (Suc k) le (Inl ce) (pre @ [EvCtx (Some ce)])"
  using assms unfolding trace_ok_def by (auto simp: final_call_def intro: exI [of _ "Suc 0"])

lemma trace_ok_next:
  fixes res :: "go_error + 'a"
  assumes tr: "trace_ok env rc (Suc n) k (Some e) res new" and pre: "calls_of pre = [Inl e]" and ret: "is_retryable e"
    and w: "k = 0 \<and> waits_of pre = [] \<or>
      0 < k \<and> (\<exists>d. waits_of pre = [d] \<and> (rc_jitter_pct rc \<le> 0 \<longrightarrow> d = retry_base_wait (rw_ovf env) rc n))"
  shows "trace_ok env rc n (Suc k) le res (pre @ new)"
proof -
  have nf: "\<not> final_call (Inl e :: go_error + 'a)" using ret by (simp add: final_call_def)
  let ?c = "calls_of new"
  from tr have len: "length ?c \<le> k" and but: "\<forall>r\<in>set (butlast ?c). \<not> final_call r"
    and zero: "k = 0 \<longrightarrow> new = [] \<and> (\<forall>e'. Some e = Some e' \<longrightarrow> res = Inl e')"
    and pos: "0 < k \<longrightarrow>
       (\<forall>a. res = Inr a \<longrightarrow> ?c \<noteq> [] \<and> List.last ?c = Inr a) \<and>
       (\<forall>e'. res = Inl e' \<longrightarrow> EvCtx (Some e') \<in> set new \<or> ?c \<noteq> [] \<and> List.last ?c = Inl e')"
    and fin: "?c \<noteq> [] \<and> final_call (List.last ?c) \<longrightarrow> res = List.last ?c"
    and full: "length ?c = k \<and> 0 < k \<longrightarrow> res = List.last ?c"
    and lw: "length (waits_of new) \<le> k - 1"
    and ws: "rc_jitter_pct rc \<le> 0 \<longrightarrow>
       (\<exists>m. waits_of new = map (retry_base_wait (rw_ovf env) rc) [Suc n..<Suc n + m])"
    unfolding trace_ok_def by blast+
  have c: "calls_of (pre @ new) = Inl e # ?c" using pre by simp
  have f0: "length (Inl e # ?c) \<le> Suc k" using len by simp
  have f1: "length (waits_of (pre @ new)) \<le> Suc k - 1" using lw w by auto
  have f2: "\<exists>m. waits_of (pre @ new) = map (retry_base_wait (rw_ovf env) rc) [n..<n + m]"
    if j: "rc_jitter_pct rc \<le> 0"
  proof -
    obtain m where m: "waits_of new = map (retry_base_wait (rw_ovf env) rc) [Suc n..<Suc n + m]"
      using ws j by blast
    show ?thesis
    proof (cases "k = 0")
      case True
      then have "waits_of (pre @ new) = []" using lw w by simp
      then show ?thesis by (intro exI [of _ 0]) simp
    next
      case False
      then obtain d where "waits_of pre = [d]" "d = retry_base_wait (rw_ovf env) rc n" using w j by auto
      then have "waits_of (pre @ new) = map (retry_base_wait (rw_ovf env) rc) [n..<n + Suc m]"
        using m by (subst upt_conv_Cons) auto
      then show ?thesis ..
    qed
  qed
  have f3: "\<forall>r\<in>set (butlast (Inl e # ?c)). \<not> final_call r"
    using but nf by simp
  have f4: "res = List.last (Inl e # ?c)" if l: "length (Inl e # ?c) = Suc k"
    using zero full l by (cases "k = 0") auto
  have f5: "res = List.last (Inl e # ?c)" if "final_call (List.last (Inl e # ?c))"
    using fin nf that by (cases "?c = []") auto
  have f6: "(\<forall>a. res = Inr a \<longrightarrow> List.last (Inl e # ?c) = Inr a) \<and>
      (\<forall>e'. res = Inl e' \<longrightarrow> EvCtx (Some e') \<in> set (pre @ new) \<or> List.last (Inl e # ?c) = Inl e')"
    using zero pos by (cases "k = 0") auto
  show ?thesis
    unfolding trace_ok_def c using f0 f1 f2 f3 f4 f5 f6 by blast
qed

lemma retry_wait_no_jitter:
  "rc_jitter_pct rc \<le> 0 \<Longrightarrow> fst (retry_wait env rc n w) = retry_base_wait (rw_ovf env) rc n"
  by (simp add: retry_wait_def)

text \<open>One induction for both: the log changes nothing, and it is as described.\<close>

lemma retry_loop_logged:
  assumes "ctx_ok env" and "int n + int k = rc_max_retries rc + 1"
  shows "\<exists>new. retry_loop (logged_world env) rc zero (logged_reset reset) (logged_fn fn) n k le (w, lg) =
      (fst (retry_loop env rc zero reset fn n k le w), snd (retry_loop env rc zero reset fn n k le w), lg @ new) \<and>
    trace_ok env rc n k le (fst (retry_loop env rc zero reset fn n k le w)) new"
  using assms(2)
proof (induction k arbitrary: n le w lg)
  case 0
  then show ?case using trace_ok_stop [of env rc n le zero] by (intro exI [of _ "[]"]) simp
next
  case (Suc k)
  obtain c w1 where c: "rw_ctx_err env w = (c, w1)" by fastforce
  show ?case
  proof (cases c)
    case (Some e)
    then show ?thesis using trace_ok_ctx [of env rc n k le e] c
      by (intro exI [of _ "[EvCtx (Some e)]"]) (simp add: logged_all)
  next
    case None
    define rs :: "'b retry_event list" where "rs = (if reset = None \<or> n = 0 then [] else [EvReset])"
    have rs [simp]: "calls_of rs = []" "waits_of rs = []" by (simp_all add: rs_def)
    obtain r w2 where r: "fn (call_reset reset n w1) = (r, w2)" by fastforce
    note simps = c None r logged_all rs_def [symmetric]
    show ?thesis
    proof (cases "final_call r")
      case True
      have "retry_loop env rc zero reset fn n (Suc k) le w = (r, w2)"
        using True by (cases r) (simp_all add: simps final_call_def)
      moreover have "retry_loop (logged_world env) rc zero (logged_reset reset) (logged_fn fn) n (Suc k) le (w, lg) =
          (r, w2, lg @ (EvCtx None # rs) @ [EvCall r])"
        using True by (cases r) (simp_all add: simps final_call_def)
      moreover have "trace_ok env rc n (Suc k) le r ((EvCtx None # rs) @ [EvCall r])"
        using True by (intro trace_ok_final) simp_all
      ultimately show ?thesis by (metis fst_conv snd_conv)
    next
      case False
      then obtain e where e: "r = Inl e" "is_retryable e" by (auto simp: final_call_def split: sum.splits)
      show ?thesis
      proof (cases "int n < rc_max_retries rc")
        case False
        then have k: "k = 0" using Suc.prems by simp
        let ?pre = "EvCtx None # rs @ [EvCall (Inl e)]"
        have "retry_loop env rc zero reset fn n (Suc k) le w = (Inl e, w2)"
          using e False k by (simp add: simps)
        moreover have "retry_loop (logged_world env) rc zero (logged_reset reset) (logged_fn fn) n (Suc k) le (w, lg) =
            (Inl e, w2, lg @ ?pre)"
          using e False k by (simp add: simps)
        moreover have "trace_ok env rc n (Suc k) le (Inl e) (?pre @ [])"
          using trace_ok_stop [of env rc "Suc n" "Some e"] e k by (intro trace_ok_next [where e = e]) simp_all
        ultimately show ?thesis by (metis append_Nil2 fst_conv snd_conv)
      next
        case True
        then have k: "0 < k" using Suc.prems by simp
        define hk :: "'b retry_event list" where
          "hk = (if rw_hook env = None then [] else [EvHook (int n + 1) (rc_max_retries rc) e])"
        have hk [simp]: "calls_of hk = []" "waits_of hk = []" by (simp_all add: hk_def)
        obtain d w4 where d: "retry_wait env rc n (call_hook env (int n + 1) (rc_max_retries rc) e w2) = (d, w4)"
          by fastforce
        have dw: "rc_jitter_pct rc \<le> 0 \<longrightarrow> d = retry_base_wait (rw_ovf env) rc n"
          using retry_wait_no_jitter [of rc env n] d by (metis fst_conv)
        obtain b w5 where b: "rw_sleep env d w4 = (b, w5)" by fastforce
        let ?pre = "EvCtx None # rs @ EvCall (Inl e) # hk @ [EvWait d b]"
        note simps2 = simps e True d b hk_def [symmetric] Let_def
        show ?thesis
        proof (cases b)
          case True
          have one: "retry_loop env rc zero reset fn n (Suc k) le w = retry_loop env rc zero reset fn (Suc n) k (Some e) w5"
            using True by (simp add: simps2)
          have two: "retry_loop (logged_world env) rc zero (logged_reset reset) (logged_fn fn) n (Suc k) le (w, lg) =
              retry_loop (logged_world env) rc zero (logged_reset reset) (logged_fn fn) (Suc n) k (Some e) (w5, lg @ ?pre)"
            using True by (simp add: simps2)
          obtain new where new: "retry_loop (logged_world env) rc zero (logged_reset reset) (logged_fn fn) (Suc n) k (Some e) (w5, lg @ ?pre) =
              (fst (retry_loop env rc zero reset fn (Suc n) k (Some e) w5), snd (retry_loop env rc zero reset fn (Suc n) k (Some e) w5), (lg @ ?pre) @ new)"
            and tr: "trace_ok env rc (Suc n) k (Some e) (fst (retry_loop env rc zero reset fn (Suc n) k (Some e) w5)) new"
            using Suc.IH [of "Suc n" "Some e" w5 "lg @ ?pre"] Suc.prems by auto
          have "trace_ok env rc n (Suc k) le (fst (retry_loop env rc zero reset fn (Suc n) k (Some e) w5)) (?pre @ new)"
            using tr e(2) k dw by (intro trace_ok_next [where e = e]) auto
          then show ?thesis unfolding one two new by (intro exI [of _ "?pre @ new"]) simp
        next
          case False
          obtain ce w6 where ce: "rw_ctx_err env w5 = (Some ce, w6)"
            using assms(1) b False unfolding ctx_ok_def by (metis option.exhaust prod.collapse)
          have "retry_loop env rc zero reset fn n (Suc k) le w = (Inl ce, w6)"
            using False ce by (simp add: simps2)
          moreover have "retry_loop (logged_world env) rc zero (logged_reset reset) (logged_fn fn) n (Suc k) le (w, lg) =
              (Inl ce, w6, lg @ ?pre @ [EvCtx (Some ce)])"
            using False ce by (simp add: simps2)
          moreover have "trace_ok env rc n (Suc k) le (Inl ce) (?pre @ [EvCtx (Some ce)])"
            using e(2) k dw by (intro trace_ok_cancelled [where e = e and d = d]) auto
          ultimately show ?thesis by (metis fst_conv snd_conv)
        qed
      qed
    qed
  qed
qed

lemma retry_logged_trace:
  assumes "ctx_ok env" and "0 \<le> rc_max_retries rc"
  shows "fst (retry_logged env rc zero reset fn w) = fst (retry_do_reset env rc zero reset fn w)"
    and "trace_ok env rc 0 (nat (rc_max_retries rc + 1)) None (fst (retry_logged env rc zero reset fn w))
           (snd (snd (retry_logged env rc zero reset fn w)))"
  using retry_loop_logged [OF assms(1), of 0 "nat (rc_max_retries rc + 1)" rc zero reset fn None w "[]"] assms(2)
  by (auto simp: retry_logged_def retry_do_reset_def)

lemma retry_loop_Inr:
  assumes "ctx_ok env" and "int n + int k = rc_max_retries rc + 1"
    and "fst (retry_loop env rc zero reset fn n k le w) = Inr a" and "0 < k \<or> le \<noteq> None"
  shows "\<exists>w'. fst (fn w') = Inr a"
proof -
  have tr: "trace_ok env rc n k le (Inr a) new \<Longrightarrow> 0 < k" for new :: "'b retry_event list"
    using assms(4) by (cases "k = 0") (auto simp: trace_ok_def)
  have "fst (retry_loop env rc zero reset fn n k le w) = Inr a \<Longrightarrow> 0 < k \<or> le \<noteq> None \<Longrightarrow> ?thesis"
    using assms(2)
  proof (induction k arbitrary: n le w)
    case 0
    then show ?case by (auto split: option.splits)
  next
    case (Suc k)
    obtain c w1 where c: "rw_ctx_err env w = (c, w1)" by fastforce
    obtain r w2 where r: "fn (call_reset reset n w1) = (r, w2)" by fastforce
    show ?case
    proof (cases "c = None \<and> (\<exists>e. r = Inl e \<and> is_retryable e)")
      case False
      then show ?thesis using Suc.prems(1) c r
        by (cases c; cases r) (auto intro: exI [of _ "call_reset reset n w1"])
    next
      case True
      then obtain e where e: "c = None" "r = Inl e" "is_retryable e" by blast
      show ?thesis
      proof (cases "int n < rc_max_retries rc")
        case False
        then show ?thesis using Suc.prems c r e Suc.IH [of "Suc n" "Some e" w2] by simp
      next
        case lt: True
        obtain d w4 where d: "retry_wait env rc n (call_hook env (int n + 1) (rc_max_retries rc) e w2) = (d, w4)"
          by fastforce
        obtain b w5 where b: "rw_sleep env d w4 = (b, w5)" by fastforce
        show ?thesis
        proof (cases b)
          case True
          then show ?thesis using Suc.prems c r e lt d b Suc.IH [of "Suc n" "Some e" w5] by simp
        next
          case False
          obtain ce w6 where ce: "rw_ctx_err env w5 = (Some ce, w6)"
            using assms(1) b False unfolding ctx_ok_def by (metis option.exhaust prod.collapse)
          then show ?thesis using Suc.prems(1) c r e lt d b False by simp
        qed
      qed
    qed
  qed
  then show ?thesis using assms(3,4) by blast
qed

subsection \<open>Waits of the default configuration\<close>

lemma default_base_wait:
  assumes "n \<le> 24"
  shows "retry_base_wait ovf default_retry_config n = min (500 * millisecond * 2 ^ n) (10 * second)"
proof -
  have p: "(2::int) ^ n \<le> 2 ^ 24" using assms by (intro power_increasing) auto
  have p0: "0 < (2::int) ^ n" by simp
  have "f64 (of_int (2 ^ n)) = of_int (2 ^ n)"
    using p by (intro f64_representable representable_of_int) simp
  then have pw: "fpow 2 n = of_int (2 ^ n)" by (simp add: fpow_def)
  have "float_of 500000000 = of_int 500000000" by (simp add: float_of_exact)
  moreover have "f64 (of_int (500000000 * 2 ^ n)) = of_int (500000000 * 2 ^ n)"
    using p by (intro f64_representable representable_of_int) simp
  ultimately have "fmul (float_of 500000000) (fpow 2 n) = of_int (500000000 * 2 ^ n)"
    unfolding fmul_def pw by (simp only: of_int_mult)
  moreover have "ftrunc (of_int (500000000 * 2 ^ n) :: rat) = 500000000 * 2 ^ n"
    by (rule ftrunc_of_int)
  moreover have "min_int64 \<le> 500000000 * 2 ^ n" "500000000 * 2 ^ n \<le> max_int64"
    using p p0 by (simp_all add: min_int64_def max_int64_def del: zero_less_power zero_less_numeral)
  ultimately have "int64_of_float ovf (fmul (float_of 500000000) (fpow 2 n)) = 500000000 * 2 ^ n"
    using int64_of_float_in_range by metis
  then show ?thesis
    by (simp add: retry_base_wait_def default_retry_config_def time_units min_def)
qed

subsection \<open>The tracker and the history of a URL\<close>

datatype tracker_op = Attempt string go_error time | Succeed string | Ask string time

fun retry_tracker_step :: "tracker_op \<Rightarrow> retry_tracker \<Rightarrow> retry_tracker" where
  "retry_tracker_step (Attempt url e now) t = record_attempt url e now t"
| "retry_tracker_step (Succeed url) t = tracker_record_success url t"
| "retry_tracker_step (Ask url now) t = snd (should_retry url now t)"

text \<open>The failed attempts of a URL since its last success or eviction.\<close>

fun attempts_step :: "duration \<Rightarrow> string \<Rightarrow> tracker_op \<Rightarrow> (go_error \<times> time) list \<Rightarrow> (go_error \<times> time) list" where
  "attempts_step ttl url (Attempt u e now) xs = (if u = url then xs @ [(e, now)] else xs)"
| "attempts_step ttl url (Succeed u) xs = (if u = url then [] else xs)"
| "attempts_step ttl url (Ask u now) xs =
     (if u = url \<and> xs \<noteq> [] \<and> \<not> is_permanent_error (fst (List.last xs)) \<and> ttl < time_sub now (snd (List.last xs))
      then [] else xs)"

definition entry_of :: "(go_error \<times> time) list \<Rightarrow> retry_entry option" where
  "entry_of xs =
     (if xs = [] then None
      else Some \<lparr>re_attempts = int (length xs), re_last_attempt = snd (List.last xs),
                 re_permanent = is_permanent_error (fst (List.last xs))\<rparr>)"

lemma tracker_step_refines:
  assumes "rt_entries t url = entry_of xs"
  shows "rt_entries (retry_tracker_step op t) url = entry_of (attempts_step (rt_ttl t) url op xs)"
proof (cases op)
  case (Ask u now)
  show ?thesis
  proof (cases "u = url")
    case True
    then show ?thesis using assms Ask
      by (cases "xs = []") (auto simp: should_retry_def entry_of_def)
  next
    case False
    then show ?thesis using assms Ask by (auto simp: should_retry_def split: option.split)
  qed
qed (use assms in \<open>cases "xs = []"; auto simp: record_attempt_def tracker_record_success_def entry_of_def Let_def\<close>)+

lemma tracker_step_frame:
  "rt_ttl (retry_tracker_step op t) = rt_ttl t \<and> rt_max_attempts (retry_tracker_step op t) = rt_max_attempts t"
  by (cases op) (auto simp: record_attempt_def tracker_record_success_def should_retry_def Let_def split: option.split)

lemma tracker_run_refines:
  "rt_entries t url = entry_of xs \<Longrightarrow>
     rt_entries (fold retry_tracker_step ops t) url = entry_of (fold (attempts_step (rt_ttl t) url) ops xs) \<and>
     rt_ttl (fold retry_tracker_step ops t) = rt_ttl t \<and>
     rt_max_attempts (fold retry_tracker_step ops t) = rt_max_attempts t"
proof (induction ops arbitrary: t xs)
  case (Cons op ops)
  then show ?case
    using tracker_step_refines [of t url xs op] tracker_step_frame [of op t] Cons.IH [of "retry_tracker_step op t"]
    by simp
qed simp

subsection \<open>Properties\<close>

text \<open>C27: what a retry loop does. With \<open>MaxRetries \<ge> 0\<close> the function is called at most
  \<open>MaxRetries + 1\<close> times; every call but the last returned a retryable error; a success or
  a non-retryable error ends the loop at once and is its result; when all the attempts are
  used, the result is the last of them; and any other result is an error of the context. The
  waits are at most \<open>MaxRetries\<close>, none after the last attempt.\<close>

theorem retry_outcome:
  assumes "ctx_ok env" and "0 \<le> rc_max_retries rc"
    and "retry_logged env rc zero reset fn w = (res, w', lg)"
  shows "res = fst (retry_do_reset env rc zero reset fn w) \<and>
    int (length (calls_of lg)) \<le> rc_max_retries rc + 1 \<and>
    (\<forall>r\<in>set (butlast (calls_of lg)). \<exists>e. r = Inl e \<and> is_retryable e) \<and>
    (calls_of lg \<noteq> [] \<and> final_call (List.last (calls_of lg)) \<longrightarrow> res = List.last (calls_of lg)) \<and>
    (int (length (calls_of lg)) = rc_max_retries rc + 1 \<longrightarrow> res = List.last (calls_of lg)) \<and>
    ((calls_of lg \<noteq> [] \<and> res = List.last (calls_of lg)) \<or> (\<exists>e. res = Inl e \<and> EvCtx (Some e) \<in> set lg)) \<and>
    int (length (waits_of lg)) \<le> rc_max_retries rc"
proof -
  let ?k = "nat (rc_max_retries rc + 1)"
  have k: "0 < ?k" "int ?k = rc_max_retries rc + 1" using assms(2) by auto
  have tr: "trace_ok env rc 0 ?k None res lg"
    using retry_logged_trace(2) [OF assms(1,2), of zero reset fn w] assms(3) by simp
  then have t: "length (calls_of lg) \<le> ?k" "\<forall>r\<in>set (butlast (calls_of lg)). \<not> final_call r"
    "\<forall>a. res = Inr a \<longrightarrow> calls_of lg \<noteq> [] \<and> List.last (calls_of lg) = Inr a"
    "\<forall>e. res = Inl e \<longrightarrow> EvCtx (Some e) \<in> set lg \<or> calls_of lg \<noteq> [] \<and> List.last (calls_of lg) = Inl e"
    "calls_of lg \<noteq> [] \<and> final_call (List.last (calls_of lg)) \<longrightarrow> res = List.last (calls_of lg)"
    "length (calls_of lg) = ?k \<longrightarrow> res = List.last (calls_of lg)" "length (waits_of lg) \<le> ?k - 1"
    using k(1) unfolding trace_ok_def by blast+
  have "res = fst (retry_do_reset env rc zero reset fn w)"
    using retry_logged_trace(1) [OF assms(1,2), of zero reset fn w] assms(3) by simp
  moreover have "int (length (calls_of lg)) \<le> rc_max_retries rc + 1" using t(1) k(2) by linarith
  moreover have "\<forall>r\<in>set (butlast (calls_of lg)). \<exists>e. r = Inl e \<and> is_retryable e"
    using t(2) by (simp add: not_final_call_iff)
  moreover have "int (length (calls_of lg)) = rc_max_retries rc + 1 \<longrightarrow> res = List.last (calls_of lg)"
    using t(6) k(2) by (metis of_nat_eq_iff)
  moreover have "(calls_of lg \<noteq> [] \<and> res = List.last (calls_of lg)) \<or> (\<exists>e. res = Inl e \<and> EvCtx (Some e) \<in> set lg)"
    using t(3,4) by (cases res) auto
  moreover have "int (length (waits_of lg)) \<le> rc_max_retries rc" using t(7) k by linarith
  ultimately show ?thesis using t(5) by blast
qed

definition quiet_world :: "nat retry_world" where
  "quiet_world = \<lparr>rw_ctx_err = (\<lambda>w. (None, w)), rw_sleep = (\<lambda>d w. (True, w)), rw_rand = (\<lambda>w. (0, w)), rw_hook = None, rw_ovf = (\<lambda>q. 0)\<rparr>"

theorem retry_outcome_witness:
  "let (res, w', lg) = retry_logged quiet_world (default_retry_config\<lparr>rc_max_retries := 1\<rparr>) (0 :: int) None
         (\<lambda>w. (if w = 1 then Inr 7 else Inl (HttpStatusError 503), Suc w)) 0
   in int (length (calls_of lg)) \<le> 2 \<and> int (length (waits_of lg)) \<le> 1"
proof -
  let ?r = "retry_logged quiet_world (default_retry_config\<lparr>rc_max_retries := 1\<rparr>) (0 :: int) None
         (\<lambda>w. (if w = 1 then Inr 7 else Inl (HttpStatusError 503), Suc w)) 0"
  obtain res w' lg where r: "?r = (res, w', lg)" by (rule prod_cases3)
  have "ctx_ok quiet_world" by (simp add: ctx_ok_def quiet_world_def)
  moreover have "0 \<le> rc_max_retries (default_retry_config\<lparr>rc_max_retries := 1\<rparr>)" by simp
  ultimately have "int (length (calls_of lg)) \<le> rc_max_retries (default_retry_config\<lparr>rc_max_retries := 1\<rparr>) + 1"
    and "int (length (waits_of lg)) \<le> rc_max_retries (default_retry_config\<lparr>rc_max_retries := 1\<rparr>)"
    using retry_outcome [OF _ _ r] by blast+
  then show ?thesis unfolding r by simp
qed

text \<open>The waits. With the default configuration, whatever the world does, the waits of a
  run are the first of 500 ms, 1 s and 2 s, in this order.\<close>

theorem default_waits:
  assumes "ctx_ok env" and "retry_logged env default_retry_config zero reset fn w = (res, w', lg)"
  shows "\<exists>m \<le> 3. waits_of lg = map (\<lambda>n. 500 * millisecond * 2 ^ n) [0..<m]"
proof -
  have mr: "rc_max_retries default_retry_config = 3" "rc_jitter_pct default_retry_config = 0"
    by (simp_all add: default_retry_config_def)
  have "trace_ok env default_retry_config 0 4 None res lg"
    using retry_logged_trace(2) [OF assms(1), of default_retry_config zero reset fn w] assms(2) mr by simp
  then obtain m where m: "waits_of lg = map (retry_base_wait (rw_ovf env) default_retry_config) [0..<m]"
    and l: "length (waits_of lg) \<le> 4 - 1"
    using mr(2) unfolding trace_ok_def by (metis order_refl add_0)
  then have "m \<le> 3" by simp
  moreover have "retry_base_wait (rw_ovf env) default_retry_config n = 500 * millisecond * 2 ^ n" if "n < m" for n
  proof -
    have "n = 0 \<or> n = 1 \<or> n = 2" using that \<open>m \<le> 3\<close> by linarith
    then show ?thesis using default_base_wait [of n] by (auto simp: time_units)
  qed
  ultimately show ?thesis using m by (intro exI [of _ m]) simp
qed

theorem default_waits_witness:
  "\<exists>m \<le> 3. waits_of (snd (snd (retry_logged quiet_world default_retry_config (0 :: int) None
       (\<lambda>w. (Inl (HttpStatusError 503), Suc w)) 0))) = map (\<lambda>n. 500 * millisecond * 2 ^ n) [0..<m]"
proof -
  obtain res w' lg where r: "retry_logged quiet_world default_retry_config (0 :: int) None
       (\<lambda>w. (Inl (HttpStatusError 503), Suc w)) 0 = (res, w', lg)" by (rule prod_cases3)
  have "ctx_ok quiet_world" by (simp add: ctx_ok_def quiet_world_def)
  from default_waits [OF this r] show ?thesis unfolding r by simp
qed

text \<open>\<^verbatim>\<open>RetryHTTP\<close> never hands over a response whose status is retryable, and
  never a nil response without an error, as long as \<open>MaxRetries \<ge> 0\<close>.\<close>

theorem retry_http_no_retryable_status:
  assumes "ctx_ok env" and "0 \<le> rc_max_retries rc"
    and "fst (retry_http_reset env rc status close reset fn w) = Inr r"
  shows "\<exists>resp. r = Some resp \<and> \<not> is_retryable_status (status resp)"
proof -
  obtain w' where "fst (http_attempt status close fn w') = Inr r"
    using retry_loop_Inr [OF assms(1), of 0 "nat (rc_max_retries rc + 1)" rc None reset
        "http_attempt status close fn" None w r] assms(2,3)
    by (auto simp: retry_http_reset_def retry_do_reset_def)
  then show ?thesis by (auto simp: http_attempt_def split: prod.splits sum.splits if_splits)
qed

theorem retry_http_no_retryable_status_witness:
  "\<exists>resp. Some (200 :: int) = Some resp \<and> \<not> is_retryable_status (id resp)"
  by (rule retry_http_no_retryable_status [of quiet_world "default_retry_config\<lparr>rc_max_retries := 0\<rparr>" id "\<lambda>r w. w" None "\<lambda>w. (Inr 200, w)" 0])
     (simp_all add: ctx_ok_def quiet_world_def default_retry_config_def retry_http_reset_def retry_do_reset_def
        http_attempt_def is_retryable_status_def call_reset_def)

text \<open>What \<^verbatim>\<open>ShouldRetry\<close> answers. After any history of the tracker, a URL may be
  retried unless its failures since its last success or eviction end with a permanent one, or
  number at least the maximum with the last within the TTL; other URLs do not matter.\<close>

theorem should_retry_spec:
  "fst (should_retry url now (fold retry_tracker_step ops (new_retry_tracker n ttl))) =
    (let xs = fold (attempts_step ttl url) ops []
     in xs = [] \<or>
        (\<not> is_permanent_error (fst (List.last xs)) \<and>
         (ttl < time_sub now (snd (List.last xs)) \<or> int (length xs) < n)))"
proof -
  let ?t = "new_retry_tracker n ttl"
  have "rt_entries ?t url = entry_of []" "rt_ttl ?t = ttl" "rt_max_attempts ?t = n"
    by (simp_all add: new_retry_tracker_def entry_of_def)
  then show ?thesis
    using tracker_run_refines [of ?t url "[]" ops]
    by (auto simp: should_retry_def entry_of_def Let_def split: option.split)
qed

text \<open>A negative \<open>MaxRetries\<close>: the function is never called, and the zero value is
  returned with a nil error; for \<^verbatim>\<open>RetryHTTP\<close> that is a nil response.\<close>

lemma negative_max_retries:
  "rc_max_retries rc < 0 \<Longrightarrow> retry_http env rc status close fn w = (Inr None, w)"
  by (simp add: retry_http_def retry_do_def retry_do_reset_def)

text \<open>A later transient error clears the permanent mark.\<close>

lemma permanent_mark_is_lost:
  "fst (should_retry ''u'' 3 (record_attempt ''u'' (HttpStatusError 503) 2
          (record_attempt ''u'' (HttpStatusError 404) 1 (new_retry_tracker 5 100))))"
  by (simp add: should_retry_def record_attempt_def new_retry_tracker_def is_permanent_error_def errors_as_def
      List.map_filter_simps Let_def)

end
