(* ===== verification/Profile.thy ===== *)
theory Profile
  imports Prelude Go_Strings
begin

text \<open>
  Browser profiles and everything derived from them: the tables and the Client Hints of
  \<^verbatim>\<open>src/profile.go\<close>, the navigation headers of \<^verbatim>\<open>src/ua.go\<close>, the header orders
  of \<^verbatim>\<open>src/header_order.go\<close> and \<^verbatim>\<open>src/client.go\<close>, and the names of the TLS
  profiles of \<^verbatim>\<open>src/backend.go\<close>. A header map is a partial function; the nil map is
  None. \<^verbatim>\<open>rand.IntN\<close> is the argument \<open>intn\<close>, a choice below its argument.
\<close>

record browser_profile =
  bp_user_agent :: string
  bp_tls_profile :: string
  bp_browser :: string
  bp_os :: string
  bp_mobile :: bool

type_synonym header_map = "string \<Rightarrow> string option"

record browser_identity =
  id_profile :: browser_profile
  id_client_hints :: "header_map option"

definition bp :: "string \<Rightarrow> string \<Rightarrow> string \<Rightarrow> string \<Rightarrow> bool \<Rightarrow> browser_profile" where
  "bp ua tls browser os mobile =
     \<lparr>bp_user_agent = ua, bp_tls_profile = tls, bp_browser = browser, bp_os = os, bp_mobile = mobile\<rparr>"

definition zero_profile :: browser_profile where
  "zero_profile = bp [] [] [] [] False"

definition tls_profile_names :: "string list" where
  "tls_profile_names =
     [''chrome_131'', ''chrome_133'', ''chrome_144'', ''chrome_146'', ''chrome_150'', ''chrome_152'', 
      ''chrome_156'', ''firefox_133'', ''firefox_148'', ''brave_146'', ''safari_16_0'', 
      ''safari_ios_18_0'', ''safari_ios_17_0'', ''safari_ios_26_0'']"

definition default_tls_profile :: string where
  "default_tls_profile = ''chrome_156''"

subsection \<open>The tables\<close>

definition builtin_profiles :: "browser_profile list" where
  "builtin_profiles =
     [bp ''Mozilla/5.0 (Windows NT 10.0; Win64; x64) AppleWebKit/537.36 (KHTML, like Gecko) Chrome/156.0.0.0 Safari/537.36'' ''chrome_156'' ''chrome'' ''windows'' False,
      bp ''Mozilla/5.0 (Macintosh; Intel Mac OS X 10_15_7) AppleWebKit/537.36 (KHTML, like Gecko) Chrome/156.0.0.0 Safari/537.36'' ''chrome_156'' ''chrome'' ''macos'' False,
      bp ''Mozilla/5.0 (X11; Linux x86_64) AppleWebKit/537.36 (KHTML, like Gecko) Chrome/156.0.0.0 Safari/537.36'' ''chrome_156'' ''chrome'' ''linux'' False,
      bp ''Mozilla/5.0 (Linux; Android 10; K) AppleWebKit/537.36 (KHTML, like Gecko) Chrome/156.0.0.0 Mobile Safari/537.36'' ''chrome_156'' ''chrome'' ''android'' True,
      bp ''Mozilla/5.0 (Windows NT 10.0; Win64; x64) AppleWebKit/537.36 (KHTML, like Gecko) Chrome/152.0.0.0 Safari/537.36'' ''chrome_152'' ''chrome'' ''windows'' False,
      bp ''Mozilla/5.0 (Macintosh; Intel Mac OS X 10_15_7) AppleWebKit/537.36 (KHTML, like Gecko) Chrome/152.0.0.0 Safari/537.36'' ''chrome_152'' ''chrome'' ''macos'' False,
      bp ''Mozilla/5.0 (X11; Linux x86_64) AppleWebKit/537.36 (KHTML, like Gecko) Chrome/152.0.0.0 Safari/537.36'' ''chrome_152'' ''chrome'' ''linux'' False,
      bp ''Mozilla/5.0 (Linux; Android 10; K) AppleWebKit/537.36 (KHTML, like Gecko) Chrome/152.0.0.0 Mobile Safari/537.36'' ''chrome_152'' ''chrome'' ''android'' True,
      bp ''Mozilla/5.0 (Windows NT 10.0; Win64; x64) AppleWebKit/537.36 (KHTML, like Gecko) Chrome/150.0.0.0 Safari/537.36'' ''chrome_150'' ''chrome'' ''windows'' False,
      bp ''Mozilla/5.0 (Macintosh; Intel Mac OS X 10_15_7) AppleWebKit/537.36 (KHTML, like Gecko) Chrome/150.0.0.0 Safari/537.36'' ''chrome_150'' ''chrome'' ''macos'' False,
      bp ''Mozilla/5.0 (X11; Linux x86_64) AppleWebKit/537.36 (KHTML, like Gecko) Chrome/150.0.0.0 Safari/537.36'' ''chrome_150'' ''chrome'' ''linux'' False,
      bp ''Mozilla/5.0 (Windows NT 10.0; Win64; x64) AppleWebKit/537.36 (KHTML, like Gecko) Chrome/146.0.0.0 Safari/537.36'' ''chrome_146'' ''chrome'' ''windows'' False,
      bp ''Mozilla/5.0 (Macintosh; Intel Mac OS X 10_15_7) AppleWebKit/537.36 (KHTML, like Gecko) Chrome/146.0.0.0 Safari/537.36'' ''chrome_146'' ''chrome'' ''macos'' False,
      bp ''Mozilla/5.0 (X11; Linux x86_64) AppleWebKit/537.36 (KHTML, like Gecko) Chrome/146.0.0.0 Safari/537.36'' ''chrome_146'' ''chrome'' ''linux'' False,
      bp ''Mozilla/5.0 (Linux; Android 10; K) AppleWebKit/537.36 (KHTML, like Gecko) Chrome/146.0.0.0 Mobile Safari/537.36'' ''chrome_146'' ''chrome'' ''android'' True,
      bp ''Mozilla/5.0 (iPhone; CPU iPhone OS 18_6 like Mac OS X) AppleWebKit/605.1.15 (KHTML, like Gecko) Version/26.0 Mobile/15E148 Safari/604.1'' ''safari_ios_26_0'' ''safari'' ''ios'' True,
      bp ''Mozilla/5.0 (Windows NT 10.0; Win64; x64; rv:148.0) Gecko/20100101 Firefox/148.0'' ''firefox_148'' ''firefox'' ''windows'' False,
      bp ''Mozilla/5.0 (Macintosh; Intel Mac OS X 10.15; rv:148.0) Gecko/20100101 Firefox/148.0'' ''firefox_148'' ''firefox'' ''macos'' False,
      bp ''Mozilla/5.0 (X11; Ubuntu; Linux x86_64; rv:148.0) Gecko/20100101 Firefox/148.0'' ''firefox_148'' ''firefox'' ''linux'' False,
      bp ''Mozilla/5.0 (Windows NT 10.0; Win64; x64) AppleWebKit/537.36 (KHTML, like Gecko) Chrome/146.0.0.0 Safari/537.36'' ''brave_146'' ''brave'' ''windows'' False,
      bp ''Mozilla/5.0 (Macintosh; Intel Mac OS X 10_15_7) AppleWebKit/537.36 (KHTML, like Gecko) Chrome/146.0.0.0 Safari/537.36'' ''brave_146'' ''brave'' ''macos'' False,
      bp ''Mozilla/5.0 (X11; Linux x86_64) AppleWebKit/537.36 (KHTML, like Gecko) Chrome/146.0.0.0 Safari/537.36'' ''brave_146'' ''brave'' ''linux'' False,
      bp ''Mozilla/5.0 (Windows NT 10.0; Win64; x64) AppleWebKit/537.36 (KHTML, like Gecko) Chrome/152.0.0.0 Safari/537.36 Edg/152.0.0.0'' ''chrome_152'' ''edge'' ''windows'' False,
      bp ''Mozilla/5.0 (Macintosh; Intel Mac OS X 10_15_7) AppleWebKit/537.36 (KHTML, like Gecko) Chrome/152.0.0.0 Safari/537.36 Edg/152.0.0.0'' ''chrome_152'' ''edge'' ''macos'' False]"

definition legacy_profiles :: "browser_profile list" where
  "legacy_profiles =
     [bp ''Mozilla/5.0 (Windows NT 10.0; Win64; x64) AppleWebKit/537.36 (KHTML, like Gecko) Chrome/144.0.0.0 Safari/537.36'' ''chrome_144'' ''chrome'' ''windows'' False,
      bp ''Mozilla/5.0 (Macintosh; Intel Mac OS X 10_15_7) AppleWebKit/537.36 (KHTML, like Gecko) Chrome/144.0.0.0 Safari/537.36'' ''chrome_144'' ''chrome'' ''macos'' False,
      bp ''Mozilla/5.0 (X11; Linux x86_64) AppleWebKit/537.36 (KHTML, like Gecko) Chrome/144.0.0.0 Safari/537.36'' ''chrome_144'' ''chrome'' ''linux'' False,
      bp ''Mozilla/5.0 (Windows NT 10.0; Win64; x64) AppleWebKit/537.36 (KHTML, like Gecko) Chrome/133.0.0.0 Safari/537.36'' ''chrome_133'' ''chrome'' ''windows'' False,
      bp ''Mozilla/5.0 (Macintosh; Intel Mac OS X 10_15_7) AppleWebKit/537.36 (KHTML, like Gecko) Chrome/133.0.0.0 Safari/537.36'' ''chrome_133'' ''chrome'' ''macos'' False,
      bp ''Mozilla/5.0 (X11; Linux x86_64) AppleWebKit/537.36 (KHTML, like Gecko) Chrome/133.0.0.0 Safari/537.36'' ''chrome_133'' ''chrome'' ''linux'' False,
      bp ''Mozilla/5.0 (Windows NT 10.0; Win64; x64) AppleWebKit/537.36 (KHTML, like Gecko) Chrome/131.0.0.0 Safari/537.36'' ''chrome_131'' ''chrome'' ''windows'' False,
      bp ''Mozilla/5.0 (Macintosh; Intel Mac OS X 10_15_7) AppleWebKit/537.36 (KHTML, like Gecko) Chrome/131.0.0.0 Safari/537.36'' ''chrome_131'' ''chrome'' ''macos'' False,
      bp ''Mozilla/5.0 (X11; Linux x86_64) AppleWebKit/537.36 (KHTML, like Gecko) Chrome/131.0.0.0 Safari/537.36'' ''chrome_131'' ''chrome'' ''linux'' False,
      bp ''Mozilla/5.0 (Linux; Android 10; K) AppleWebKit/537.36 (KHTML, like Gecko) Chrome/131.0.0.0 Mobile Safari/537.36'' ''chrome_131'' ''chrome'' ''android'' True,
      bp ''Mozilla/5.0 (Windows NT 10.0; Win64; x64) AppleWebKit/537.36 (KHTML, like Gecko) Chrome/131.0.0.0 Safari/537.36 Edg/131.0.0.0'' ''chrome_131'' ''edge'' ''windows'' False,
      bp ''Mozilla/5.0 (Macintosh; Intel Mac OS X 10_15_7) AppleWebKit/537.36 (KHTML, like Gecko) Chrome/131.0.0.0 Safari/537.36 Edg/131.0.0.0'' ''chrome_131'' ''edge'' ''macos'' False,
      bp ''Mozilla/5.0 (Macintosh; Intel Mac OS X 10_15_7) AppleWebKit/605.1.15 (KHTML, like Gecko) Version/16.0 Safari/605.1.15'' ''safari_16_0'' ''safari'' ''macos'' False,
      bp ''Mozilla/5.0 (iPhone; CPU iPhone OS 18_0 like Mac OS X) AppleWebKit/605.1.15 (KHTML, like Gecko) Version/18.0 Mobile/15E148 Safari/604.1'' ''safari_ios_18_0'' ''safari'' ''ios'' True,
      bp ''Mozilla/5.0 (iPhone; CPU iPhone OS 17_0 like Mac OS X) AppleWebKit/605.1.15 (KHTML, like Gecko) Version/17.0 Mobile/15E148 Safari/604.1'' ''safari_ios_17_0'' ''safari'' ''ios'' True,
      bp ''Mozilla/5.0 (Windows NT 10.0; Win64; x64; rv:133.0) Gecko/20100101 Firefox/133.0'' ''firefox_133'' ''firefox'' ''windows'' False,
      bp ''Mozilla/5.0 (Macintosh; Intel Mac OS X 10.15; rv:133.0) Gecko/20100101 Firefox/133.0'' ''firefox_133'' ''firefox'' ''macos'' False,
      bp ''Mozilla/5.0 (X11; Ubuntu; Linux x86_64; rv:133.0) Gecko/20100101 Firefox/133.0'' ''firefox_133'' ''firefox'' ''linux'' False]"

fun find_profile :: "string \<Rightarrow> browser_profile list list \<Rightarrow> browser_profile option" where
  "find_profile p [] = None"
| "find_profile p (s # ss) =
     (case find (\<lambda>b. bp_tls_profile b = p) s of Some b \<Rightarrow> Some b | None \<Rightarrow> find_profile p ss)"

definition profile_for_tls :: "string \<Rightarrow> browser_profile option" where
  "profile_for_tls p = find_profile p [builtin_profiles, legacy_profiles]"

definition user_agent_for_profile :: "string \<Rightarrow> string" where
  "user_agent_for_profile p = (case profile_for_tls p of None \<Rightarrow> [] | Some b \<Rightarrow> bp_user_agent b)"

subsection \<open>Random profiles\<close>

record profile_filter =
  pf_os :: string
  pf_browser :: string
  pf_mobile :: "bool option"

definition no_filter :: profile_filter where
  "no_filter = \<lparr>pf_os = [], pf_browser = [], pf_mobile = None\<rparr>"

definition with_os :: "string \<Rightarrow> profile_filter \<Rightarrow> profile_filter" where
  "with_os os f = f\<lparr>pf_os := to_lower os\<rparr>"

definition with_browser :: "string \<Rightarrow> profile_filter \<Rightarrow> profile_filter" where
  "with_browser b f = f\<lparr>pf_browser := to_lower b\<rparr>"

definition with_mobile :: "bool \<Rightarrow> profile_filter \<Rightarrow> profile_filter" where
  "with_mobile m f = f\<lparr>pf_mobile := Some m\<rparr>"

definition profile_matches :: "profile_filter \<Rightarrow> browser_profile \<Rightarrow> bool" where
  "profile_matches f p \<longleftrightarrow>
     \<not> (pf_os f \<noteq> [] \<and> bp_os p \<noteq> pf_os f) \<and>
     \<not> (pf_browser f \<noteq> [] \<and> bp_browser p \<noteq> pf_browser f) \<and>
     (case pf_mobile f of None \<Rightarrow> True | Some m \<Rightarrow> bp_mobile p = m)"

definition pick_profiles :: "profile_filter \<Rightarrow> browser_profile list" where
  "pick_profiles f = filter (profile_matches f) builtin_profiles"

definition random_profile :: "(nat \<Rightarrow> nat) \<Rightarrow> (profile_filter \<Rightarrow> profile_filter) list \<Rightarrow> browser_profile" where
  "random_profile intn opts =
     (let f = fold (\<lambda>opt f. opt f) opts no_filter;
          candidates = pick_profiles f;
          candidates' = (if candidates = [] \<and> pf_browser f \<noteq> []
                         then pick_profiles (no_filter\<lparr>pf_browser := pf_browser f\<rparr>) else candidates)
      in if candidates' = [] then zero_profile else candidates' ! intn (length candidates'))"

definition platform_matched_profile :: "string \<Rightarrow> (nat \<Rightarrow> nat) \<Rightarrow> browser_profile" where
  "platform_matched_profile goos intn =
     (if goos = ''windows'' then random_profile intn [with_os ''windows'', with_mobile False]
      else if goos = ''darwin'' then random_profile intn [with_os ''macos'', with_mobile False]
      else if goos = ''linux'' then random_profile intn [with_os ''linux'', with_mobile False]
      else builtin_profiles ! intn (length builtin_profiles))"

subsection \<open>Client Hints\<close>

text \<open>The part of a User-Agent after a marker, up to the next dot.\<close>

definition version_after :: "string \<Rightarrow> string \<Rightarrow> string" where
  "version_after marker ua =
     (case str_index ua marker of
        None \<Rightarrow> ''131''
      | Some i \<Rightarrow> takeWhile (\<lambda>c. c \<noteq> CHR ''.'') (drop (i + length marker) ua))"

definition extract_chrome_version :: "string \<Rightarrow> string" where
  "extract_chrome_version ua = version_after ''Chrome/'' ua"

definition extract_edge_version :: "string \<Rightarrow> string" where
  "extract_edge_version ua = version_after ''Edg/'' ua"

definition extract_platform :: "string \<Rightarrow> string" where
  "extract_platform ua =
     (if str_contains ua ''Windows'' then ''Windows''
      else if str_contains ua ''Macintosh'' \<or> str_contains ua ''Mac OS X'' then ''macOS''
      else if str_contains ua ''Android'' then ''Android''
      else if str_contains ua ''iPhone'' \<or> str_contains ua ''iPad'' then ''iOS''
      else if str_contains ua ''Linux'' then ''Linux''
      else ''Windows'')"

definition grease_chars :: "string list" where
  "grease_chars = ['' '', ''('', '':'', ''-'', ''.'', ''/'', '')'', '';'', ''='', ''?'', ''_'']"

definition grease_versions :: "string list" where
  "grease_versions = [''8'', ''99'', ''24'']"

definition brand_orders :: "(nat list) list" where
  "brand_orders = [[0, 1, 2], [0, 2, 1], [1, 0, 2], [1, 2, 0], [2, 0, 1], [2, 1, 0]]"

definition brand_seed :: "string \<Rightarrow> nat" where
  "brand_seed major = (case atoi major of None \<Rightarrow> 0 | Some s \<Rightarrow> if s < 0 then 0 else nat s)"

definition brand_entries :: "string \<Rightarrow> string \<Rightarrow> string \<Rightarrow> string list" where
  "brand_entries major brand brand_version =
     (let seed = brand_seed major
      in [quoted (''Not'' @ grease_chars ! (seed mod 11) @ ''A'' @ grease_chars ! ((seed + 1) mod 11) @ ''Brand'')
            @ '';v='' @ quoted (grease_versions ! (seed mod 3)),
          quoted ''Chromium'' @ '';v='' @ quoted major,
          quoted brand @ '';v='' @ quoted brand_version])"

text \<open>The loop writes entry \<open>i\<close> to the position the order gives for it.\<close>

definition place_brands :: "nat list \<Rightarrow> string list \<Rightarrow> string list" where
  "place_brands order entries =
     fold (\<lambda>(i, pos) out. out[pos := entries ! i]) (zip [0..<length order] order) [[], [], []]"

definition sec_ch_ua :: "string \<Rightarrow> string \<Rightarrow> string \<Rightarrow> string" where
  "sec_ch_ua major brand brand_version =
     join '', '' (place_brands (brand_orders ! (brand_seed major mod 6)) (brand_entries major brand brand_version))"

definition client_hints_headers :: "string \<Rightarrow> header_map option" where
  "client_hints_headers ua =
     (if \<not> str_contains ua ''Chrome/'' then None
      else let version = extract_chrome_version ua;
               platform = extract_platform ua;
               mobile = (if str_contains ua ''Mobile'' then ''?1'' else ''?0'');
               (brand, brand_version) = (if str_contains ua ''Edg/'' then (''Microsoft Edge'', extract_edge_version ua)
                                         else (''Google Chrome'', version))
           in Some [''sec-ch-ua'' \<mapsto> sec_ch_ua version brand brand_version,
                    ''sec-ch-ua-mobile'' \<mapsto> mobile,
                    ''sec-ch-ua-platform'' \<mapsto> quoted platform])"

subsection \<open>Navigation headers\<close>

definition random_user_agents :: "string list" where
  "random_user_agents =
     [''Mozilla/5.0 (Windows NT 10.0; Win64; x64) AppleWebKit/537.36 (KHTML, like Gecko) Chrome/156.0.0.0 Safari/537.36'',
      ''Mozilla/5.0 (Macintosh; Intel Mac OS X 10_15_7) AppleWebKit/537.36 (KHTML, like Gecko) Chrome/156.0.0.0 Safari/537.36'',
      ''Mozilla/5.0 (X11; Linux x86_64) AppleWebKit/537.36 (KHTML, like Gecko) Chrome/156.0.0.0 Safari/537.36'',
      ''Mozilla/5.0 (Macintosh; Intel Mac OS X 10_15_7) AppleWebKit/605.1.15 (KHTML, like Gecko) Version/17.2 Safari/605.1.15'',
      ''Mozilla/5.0 (X11; Ubuntu; Linux x86_64; rv:148.0) Gecko/20100101 Firefox/148.0'',
      ''Mozilla/5.0 (Windows NT 10.0; Win64; x64; rv:148.0) Gecko/20100101 Firefox/148.0'',
      ''Mozilla/5.0 (Macintosh; Intel Mac OS X 10.15; rv:148.0) Gecko/20100101 Firefox/148.0'']"

definition random_user_agent :: "(nat \<Rightarrow> nat) \<Rightarrow> string" where
  "random_user_agent intn = random_user_agents ! intn (length random_user_agents)"

definition default_chrome_user_agents :: "string list" where
  "default_chrome_user_agents =
     map bp_user_agent (filter (\<lambda>b. bp_tls_profile b = default_tls_profile \<and> bp_browser b = ''chrome'' \<and> \<not> bp_mobile b)
       builtin_profiles)"

definition navigation_accept :: string where
  "navigation_accept =
     ''text/html,application/xhtml+xml,application/xml;q=0.9,image/avif,image/webp,image/apng,*/*;q=0.8,application/signed-exchange;v=b3;q=0.7''"

definition navigation_accept_from_156 :: string where
  "navigation_accept_from_156 =
     ''text/html,application/xhtml+xml,application/xml;q=0.9,image/jxl,image/avif,image/webp,image/apng,*/*;q=0.8,application/signed-exchange;v=b3;q=0.7''"

definition jxl_accept_first_major :: int where
  "jxl_accept_first_major = 156"

definition navigation_accept_for :: "string \<Rightarrow> string" where
  "navigation_accept_for ua =
     (case atoi (extract_chrome_version ua) of
        Some maj \<Rightarrow> if jxl_accept_first_major \<le> maj then navigation_accept_from_156 else navigation_accept
      | None \<Rightarrow> navigation_accept)"

definition chrome_navigation_headers :: "string \<Rightarrow> header_map" where
  "chrome_navigation_headers ua =
     [''accept-language'' \<mapsto> ''en-US,en;q=0.9'',
      ''upgrade-insecure-requests'' \<mapsto> ''1'',
      ''user-agent'' \<mapsto> ua,
      ''accept'' \<mapsto> navigation_accept_for ua,
      ''sec-fetch-site'' \<mapsto> ''none'',
      ''sec-fetch-mode'' \<mapsto> ''navigate'',
      ''sec-fetch-user'' \<mapsto> ''?1'',
      ''sec-fetch-dest'' \<mapsto> ''document'',
      ''accept-encoding'' \<mapsto> ''gzip, deflate, br, zstd'',
      ''priority'' \<mapsto> ''u=0, i'']"

definition with_hints :: "header_map \<Rightarrow> header_map option \<Rightarrow> header_map" where
  "with_hints h hints = (case hints of None \<Rightarrow> h | Some m \<Rightarrow> h ++ m)"

definition pick_chrome_user_agent :: "(nat \<Rightarrow> nat) \<Rightarrow> string list \<Rightarrow> string" where
  "pick_chrome_user_agent intn uas =
     (if uas = [] then user_agent_for_profile default_tls_profile else uas ! intn (length uas))"

definition chrome_headers :: "(nat \<Rightarrow> nat) \<Rightarrow> header_map" where
  "chrome_headers intn = chrome_navigation_headers (pick_chrome_user_agent intn default_chrome_user_agents)"

definition chrome_headers_for :: "browser_profile \<Rightarrow> header_map" where
  "chrome_headers_for p =
     with_hints (chrome_navigation_headers (bp_user_agent p)) (client_hints_headers (bp_user_agent p))"

text \<open>The method of the client, on the identity it reports.\<close>

definition client_chrome_headers :: "browser_identity \<Rightarrow> header_map" where
  "client_chrome_headers i =
     with_hints (chrome_navigation_headers (bp_user_agent (id_profile i))) (id_client_hints i)"

subsection \<open>Header orders\<close>

definition default_header_order :: "string list" where
  "default_header_order =
     [''sec-ch-ua'', ''sec-ch-ua-mobile'', ''sec-ch-ua-platform'', ''accept-language'', 
      ''upgrade-insecure-requests'', ''user-agent'', ''accept'', ''sec-fetch-site'', 
      ''sec-fetch-mode'', ''sec-fetch-user'', ''sec-fetch-dest'', ''accept-encoding'', ''priority'', 
      ''referer'', ''cookie'']"

definition firefox_header_order :: "string list" where
  "firefox_header_order =
     [''user-agent'', ''accept'', ''accept-language'', ''accept-encoding'', ''referer'', ''cookie'', 
      ''upgrade-insecure-requests'', ''sec-fetch-dest'', ''sec-fetch-mode'', ''sec-fetch-site'', 
      ''sec-fetch-user'', ''priority'', ''te'']"

definition chrome_navigation_header_order :: "string list" where
  "chrome_navigation_header_order =
     [''sec-ch-ua'', ''sec-ch-ua-mobile'', ''sec-ch-ua-platform'', ''upgrade-insecure-requests'', 
      ''user-agent'', ''accept'', ''sec-fetch-site'', ''sec-fetch-mode'', ''sec-fetch-user'', 
      ''sec-fetch-dest'', ''referer'', ''accept-encoding'', ''accept-language'', ''cookie'', 
      ''priority'']"

definition brave_navigation_header_order :: "string list" where
  "brave_navigation_header_order =
     [''sec-ch-ua'', ''sec-ch-ua-mobile'', ''sec-ch-ua-platform'', ''upgrade-insecure-requests'', 
      ''user-agent'', ''accept'', ''sec-gpc'', ''sec-fetch-site'', ''sec-fetch-mode'', 
      ''sec-fetch-user'', ''sec-fetch-dest'', ''referer'', ''accept-encoding'', ''accept-language'', 
      ''cookie'', ''priority'']"

definition chrome_fetch_tail :: "string list" where
  "chrome_fetch_tail =
     [''sec-ch-ua'', ''sec-ch-ua-mobile'', ''user-agent'', ''accept'', ''sec-fetch-site'', 
      ''sec-fetch-mode'', ''sec-fetch-dest'', ''referer'', ''accept-encoding'', ''accept-language'', 
      ''cookie'', ''priority'']"

definition chrome_fetch_header_order :: "string list \<Rightarrow> string list" where
  "chrome_fetch_header_order custom = [''sec-ch-ua-platform''] @ custom @ chrome_fetch_tail"

definition header_order_for_browser :: "string \<Rightarrow> string list" where
  "header_order_for_browser browser =
     (if browser = ''firefox'' then firefox_header_order else default_header_order)"

definition extension_order_randomised :: "string list" where
  "extension_order_randomised = [''chrome_146'', ''chrome_150'', ''chrome_152'', ''chrome_156'', ''brave_146'']"

definition default_header_order_for :: "browser_identity \<Rightarrow> bool \<Rightarrow> string list" where
  "default_header_order_for i fetch_mode =
     (let b = bp_browser (id_profile i); tls = bp_tls_profile (id_profile i)
      in if fetch_mode then chrome_fetch_header_order []
         else if b = ''chrome'' \<and> tls \<in> set extension_order_randomised then chrome_navigation_header_order
         else if b = ''brave'' \<and> tls = ''brave_146'' then brave_navigation_header_order
         else header_order_for_browser b)"


subsection \<open>Coherence of the tables\<close>

definition is_chromium_browser :: "string \<Rightarrow> bool" where
  "is_chromium_browser b \<longleftrightarrow> b = ''chrome'' \<or> b = ''edge'' \<or> b = ''brave''"

definition os_platform :: "string \<Rightarrow> string" where
  "os_platform os =
     (if os = ''windows'' then ''Windows'' else if os = ''macos'' then ''macOS''
      else if os = ''linux'' then ''Linux'' else if os = ''android'' then ''Android'' else [])"

definition coherent :: "browser_profile \<Rightarrow> bool" where
  "coherent p \<longleftrightarrow>
     bp_tls_profile p \<in> set tls_profile_names \<and>
     str_contains (bp_user_agent p) ''Chrome/'' = is_chromium_browser (bp_browser p) \<and>
     (is_chromium_browser (bp_browser p) \<longrightarrow>
        tl (dropWhile (\<lambda>c. c \<noteq> CHR ''_'') (bp_tls_profile p)) = extract_chrome_version (bp_user_agent p) \<and>
        extract_platform (bp_user_agent p) = os_platform (bp_os p) \<and>
        str_contains (bp_user_agent p) ''Mobile'' = bp_mobile p \<and>
        str_contains (bp_user_agent p) ''Edg/'' = (bp_browser p = ''edge'') \<and>
        (bp_browser p = ''edge'' \<longrightarrow>
           extract_edge_version (bp_user_agent p) = extract_chrome_version (bp_user_agent p)))"

end
