(* ===== verification/Profile_Coherence.thy ===== *)
theory Profile_Coherence
  imports Profile "HOL-Library.Multiset"
begin

text \<open>
  What makes the profiles of \<open>Profile\<close> coherent: every entry of the tables describes one
  browser, the profiles handed out come from the tables, the brand list is the one Chromium
  builds, and every header has its place in the order. The checks of the tables are
  evaluated entry by entry.
\<close>

lemma builtin_coherent_first: "list_all coherent (take 10 builtin_profiles)"
  by code_simp

lemma builtin_coherent_next: "list_all coherent (take 10 (drop 10 builtin_profiles))"
  by code_simp

lemma builtin_coherent_last: "list_all coherent (drop 20 builtin_profiles)"
  by code_simp

lemma builtin_coherent: "list_all coherent builtin_profiles"
proof -
  have "builtin_profiles = take 10 builtin_profiles @ take 10 (drop 10 builtin_profiles) @ drop 20 builtin_profiles"
    by (simp add: take_add [of 10 10, simplified, symmetric] flip: append_assoc)
  then show ?thesis
    using builtin_coherent_first builtin_coherent_next builtin_coherent_last by (metis list_all_append)
qed

lemma legacy_coherent: "list_all coherent legacy_profiles"
  by code_simp

lemma tables_resolve: "list_all (\<lambda>n. profile_for_tls n \<noteq> None) tls_profile_names"
  by code_simp

lemma coherent_builtin: "b \<in> set builtin_profiles \<Longrightarrow> coherent b"
  using builtin_coherent by (simp add: list_all_iff)

lemma find_SomeD: "find P xs = Some b \<Longrightarrow> b \<in> set xs \<and> P b"
  by (induction xs) (auto split: if_splits)

lemma profile_for_tls_SomeD:
  "profile_for_tls p = Some b \<Longrightarrow> b \<in> set (builtin_profiles @ legacy_profiles) \<and> bp_tls_profile b = p"
  by (auto simp: profile_for_tls_def split: option.splits dest!: find_SomeD)

lemma coherent_table: "b \<in> set (builtin_profiles @ legacy_profiles) \<Longrightarrow> coherent b"
  using builtin_coherent legacy_coherent by (auto simp: list_all_iff)

lemma client_hints_None_iff: "client_hints_headers ua = None \<longleftrightarrow> \<not> str_contains ua ''Chrome/''"
  by (simp add: client_hints_headers_def Let_def split: prod.split)

lemma client_hints_dom:
  "client_hints_headers ua = Some m \<Longrightarrow> dom m = {''sec-ch-ua'', ''sec-ch-ua-mobile'', ''sec-ch-ua-platform''}"
  by (auto simp: client_hints_headers_def Let_def split: if_splits prod.splits)

text \<open>Six orders of three brands.\<close>

lemma place_brands_perm:
  assumes "order \<in> set brand_orders" and "length entries = 3"
  shows "mset (place_brands order entries) = mset entries"
proof -
  obtain a b c where e: "entries = [a, b, c]"
    using assms(2) by (auto simp: numeral_3_eq_3 length_Suc_conv)
  have "order \<in> {[0, 1, 2], [0, 2, 1], [1, 0, 2], [1, 2, 0], [2, 0, 1], [2, 1, 0]}"
    using assms(1) by (simp add: brand_orders_def)
  then show ?thesis
    unfolding e by (elim insertE emptyE) (simp_all add: place_brands_def numeral_2_eq_2)
qed

subsection \<open>Properties\<close>

text \<open>The Client Hints that describe an entry: the form factor, the platform and, in some order, the brand
  with the major of the TLS profile, Chromium with the same major, and a third.\<close>

definition tls_major :: "string \<Rightarrow> string" where
  "tls_major p = tl (dropWhile (\<lambda>c. c \<noteq> CHR ''_'') p)"

definition hints_describe :: "browser_profile \<Rightarrow> header_map \<Rightarrow> bool" where
  "hints_describe b m \<longleftrightarrow>
     dom m = {''sec-ch-ua'', ''sec-ch-ua-mobile'', ''sec-ch-ua-platform''} \<and>
     m ''sec-ch-ua-mobile'' = Some (if bp_mobile b then ''?1'' else ''?0'') \<and>
     m ''sec-ch-ua-platform'' = Some (quoted (os_platform (bp_os b))) \<and>
     (\<exists>brands other.
        m ''sec-ch-ua'' = Some (join '', '' brands) \<and>
        mset brands =
          {#other, quoted ''Chromium'' @ '';v='' @ quoted (tls_major (bp_tls_profile b)),
            quoted (if bp_browser b = ''edge'' then ''Microsoft Edge'' else ''Google Chrome'') @ '';v='' @
              quoted (tls_major (bp_tls_profile b))#})"

lemma sec_ch_ua_brands:
  "\<exists>brands other. sec_ch_ua major brand v = join '', '' brands \<and>
     mset brands = {#other, quoted ''Chromium'' @ '';v='' @ quoted major, quoted brand @ '';v='' @ quoted v#}"
proof -
  let ?entries = "brand_entries major brand v" and ?order = "brand_orders ! (brand_seed major mod 6)"
  have "?order \<in> set brand_orders" by (rule nth_mem) (simp add: brand_orders_def)
  then have "mset (place_brands ?order ?entries) = mset ?entries"
    by (rule place_brands_perm) (simp add: brand_entries_def Let_def)
  then show ?thesis unfolding sec_ch_ua_def brand_entries_def Let_def by (intro exI conjI) (rule refl, simp)
qed

lemma coherent_hints:
  assumes "coherent b"
  shows "case client_hints_headers (bp_user_agent b) of
      None \<Rightarrow> \<not> is_chromium_browser (bp_browser b)
    | Some m \<Rightarrow> is_chromium_browser (bp_browser b) \<and> hints_describe b m"
proof (cases "is_chromium_browser (bp_browser b)")
  case True
  then have ua: "str_contains (bp_user_agent b) ''Chrome/''"
    "extract_chrome_version (bp_user_agent b) = tls_major (bp_tls_profile b)"
    "extract_platform (bp_user_agent b) = os_platform (bp_os b)" "str_contains (bp_user_agent b) ''Mobile'' = bp_mobile b"
    "str_contains (bp_user_agent b) ''Edg/'' = (bp_browser b = ''edge'')"
    "bp_browser b = ''edge'' \<Longrightarrow> extract_edge_version (bp_user_agent b) = tls_major (bp_tls_profile b)"
    using assms by (simp_all add: coherent_def tls_major_def)
  show ?thesis
    using True ua sec_ch_ua_brands [of "tls_major (bp_tls_profile b)" "if bp_browser b = ''edge'' then ''Microsoft Edge'' else ''Google Chrome''"
        "tls_major (bp_tls_profile b)"]
    by (auto simp: client_hints_headers_def hints_describe_def Let_def split: prod.split)
next
  case False
  then show ?thesis using assms by (simp add: coherent_def client_hints_headers_def)
qed

text \<open>C23: one browser per TLS profile. Every TLS profile the package names resolves to an
  entry of the tables, and whatever a lookup returns is an entry for the profile asked for
  that describes one browser: a Chromium User-Agent exactly for Chrome, Edge and Brave, with
  the major of the TLS profile in it and the platform and form factor of the entry. The Client Hints
  made from that User-Agent say the same: there are none for other browsers, and for these the mobile
  flag and the platform are the entry's, and the brands are Chromium, Microsoft Edge or Google Chrome with
  the major of the TLS profile, and a third.\<close>

theorem lookup_describes_one_browser:
  "list_all (\<lambda>n. profile_for_tls n \<noteq> None) tls_profile_names \<and>
   (case profile_for_tls p of
      None \<Rightarrow> user_agent_for_profile p = []
    | Some b \<Rightarrow> bp_tls_profile b = p \<and> coherent b \<and> user_agent_for_profile p = bp_user_agent b \<and>
        (case client_hints_headers (bp_user_agent b) of
           None \<Rightarrow> \<not> is_chromium_browser (bp_browser b)
         | Some m \<Rightarrow> is_chromium_browser (bp_browser b) \<and> hints_describe b m))"
  using tables_resolve profile_for_tls_SomeD [of p] coherent_table coherent_hints
  by (auto simp: user_agent_for_profile_def split: option.split)

abbreviation filter_of :: "(profile_filter \<Rightarrow> profile_filter) list \<Rightarrow> profile_filter" where
  "filter_of opts \<equiv> fold (\<lambda>opt g. opt g) opts no_filter"

abbreviation browser_filter :: "string \<Rightarrow> profile_filter" where
  "browser_filter b \<equiv> no_filter\<lparr>pf_browser := b\<rparr>"

lemma pick_in_table:
  "p \<in> set (pick_profiles f) \<longleftrightarrow> p \<in> set builtin_profiles \<and> profile_matches f p"
  "pick_profiles f = [] \<longleftrightarrow> \<not> (\<exists>b\<in>set builtin_profiles. profile_matches f b)"
  by (auto simp: pick_profiles_def filter_empty_conv)

lemma random_profile_picked:
  assumes "\<forall>n > 0. intn n < n"
  shows "pick_profiles (filter_of opts) \<noteq> [] \<Longrightarrow> random_profile intn opts \<in> set (pick_profiles (filter_of opts))"
    and "pick_profiles (filter_of opts) = [] \<Longrightarrow> pf_browser (filter_of opts) \<noteq> [] \<Longrightarrow>
      pick_profiles (browser_filter (pf_browser (filter_of opts))) \<noteq> [] \<Longrightarrow>
      random_profile intn opts \<in> set (pick_profiles (browser_filter (pf_browser (filter_of opts))))"
  using assms by (simp_all add: random_profile_def Let_def)

lemma random_profile_zero:
  "pick_profiles (filter_of opts) = [] \<Longrightarrow>
     pf_browser (filter_of opts) = [] \<or> pick_profiles (browser_filter (pf_browser (filter_of opts))) = [] \<Longrightarrow>
     random_profile intn opts = zero_profile"
  by (auto simp: random_profile_def Let_def)

lemma browser_not_listed:
  assumes "b = [] \<or> pick_profiles (browser_filter b) = []"
  shows "b \<notin> bp_browser ` set builtin_profiles"
proof -
  have "list_all (\<lambda>p. bp_browser p \<noteq> []) builtin_profiles"
    by (simp add: builtin_profiles_def bp_def)
  then show ?thesis
    using assms by (auto simp: list_all_iff pick_in_table profile_matches_def no_filter_def)
qed

text \<open>What \<^verbatim>\<open>RandomProfile\<close> returns. The result is a coherent entry of the
  built-in table or the zero profile; it meets every filter whenever some entry does; it
  never is another browser than the one asked for; and it is the zero profile only when no
  entry meets the filters, and none has the browser if one was asked for.\<close>

theorem random_profile_respects_filters:
  assumes "\<forall>n > 0. intn n < n"
  defines "f opts \<equiv> fold (\<lambda>opt g. opt g) opts no_filter"
  shows "(random_profile intn opts = zero_profile \<or>
           random_profile intn opts \<in> set builtin_profiles \<and> coherent (random_profile intn opts) \<and>
           (pf_browser (f opts) \<noteq> [] \<longrightarrow> bp_browser (random_profile intn opts) = pf_browser (f opts))) \<and>
         ((\<exists>b\<in>set builtin_profiles. profile_matches (f opts) b) \<longrightarrow>
           random_profile intn opts \<in> set builtin_profiles \<and> profile_matches (f opts) (random_profile intn opts)) \<and>
         (pf_browser (f opts) \<in> bp_browser ` set builtin_profiles \<longrightarrow>
           random_profile intn opts \<in> set builtin_profiles)"
proof (cases "pick_profiles (filter_of opts) = []")
  case False
  then have "random_profile intn opts \<in> set (pick_profiles (filter_of opts))"
    using random_profile_picked(1) [OF assms(1)] by blast
  then show ?thesis unfolding f_def using coherent_builtin by (auto simp: pick_in_table profile_matches_def)
next
  case True
  show ?thesis
  proof (cases "pf_browser (filter_of opts) \<noteq> [] \<and> pick_profiles (browser_filter (pf_browser (filter_of opts))) \<noteq> []")
    case relaxed: True
    then have "random_profile intn opts \<in> set (pick_profiles (browser_filter (pf_browser (filter_of opts))))"
      using random_profile_picked(2) [OF assms(1)] True by blast
    then show ?thesis unfolding f_def using coherent_builtin relaxed True
      by (auto simp: pick_in_table profile_matches_def no_filter_def)
  next
    case False
    then have "random_profile intn opts = zero_profile" "pf_browser (filter_of opts) \<notin> bp_browser ` set builtin_profiles"
      using random_profile_zero [OF True] browser_not_listed by blast+
    then show ?thesis unfolding f_def using True by (auto simp: pick_in_table)
  qed
qed

theorem random_profile_respects_filters_witness:
  "random_profile (\<lambda>n. n - 1) [with_browser ''Safari'', with_os ''macos''] = zero_profile \<or>
   bp_browser (random_profile (\<lambda>n. n - 1) [with_browser ''Safari'', with_os ''macos'']) = ''safari''"
proof -
  let ?opts = "[with_browser ''Safari'', with_os ''macos'']"
  have "pf_browser (fold (\<lambda>opt g. opt g) ?opts no_filter) = ''safari''" by code_simp
  moreover have "\<forall>n>0. n - 1 < (n :: nat)" by simp
  ultimately show ?thesis
    using random_profile_respects_filters [of "\<lambda>n. n - 1" ?opts] by (metis list.distinct(1))
qed

text \<open>The brand list. For every major, \<^verbatim>\<open>sec-ch-ua\<close> is the three brands in
  some order, joined: a GREASE brand that depends on the major alone, Chromium and the
  browser, the last two with the version given.\<close>

theorem sec_ch_ua_has_three_brands:
  "\<exists>xs. mset xs = mset (brand_entries major brand version) \<and> length xs = 3 \<and>
     sec_ch_ua major brand version = join '', '' xs"
proof -
  let ?o = "brand_orders ! (brand_seed major mod 6)"
  have "brand_seed major mod 6 < length brand_orders" by (simp add: brand_orders_def)
  then have "?o \<in> set brand_orders" by (rule nth_mem)
  moreover have "length (brand_entries major brand version) = 3" by (simp add: brand_entries_def Let_def)
  ultimately have "mset (place_brands ?o (brand_entries major brand version)) = mset (brand_entries major brand version)"
    by (rule place_brands_perm)
  then show ?thesis
    using \<open>length (brand_entries major brand version) = 3\<close>
    by (intro exI [of _ "place_brands ?o (brand_entries major brand version)"])
       (metis sec_ch_ua_def size_mset)
qed

text \<open>The brand lists of Chrome 156 and 131 are those captured from the browsers
  (\<^verbatim>\<open>src/testdata/wire\<close>; the capture of 131 is of an unbranded build, so its two brands are
  the list without the browser's own).\<close>

theorem sec_ch_ua_matches_captures:
  "sec_ch_ua ''156'' ''Google Chrome'' ''156'' =
     quoted ''Not:A-Brand'' @ '';v='' @ quoted ''8'' @ '', '' @ quoted ''Chromium'' @ '';v='' @ quoted ''156'' @ '', '' @
     quoted ''Google Chrome'' @ '';v='' @ quoted ''156'' \<and>
   sec_ch_ua ''131'' ''Google Chrome'' ''131'' =
     quoted ''Google Chrome'' @ '';v='' @ quoted ''131'' @ '', '' @ quoted ''Chromium'' @ '';v='' @ quoted ''131'' @ '', '' @
     quoted ''Not_A Brand'' @ '';v='' @ quoted ''24''"
  by code_simp

abbreviation navigation_names :: "string set" where
  "navigation_names \<equiv> {''accept-language'', ''upgrade-insecure-requests'', ''user-agent'', ''accept'', ''sec-fetch-site'',
     ''sec-fetch-mode'', ''sec-fetch-user'', ''sec-fetch-dest'', ''accept-encoding'', ''priority''}"

abbreviation hint_names :: "string set" where
  "hint_names \<equiv> {''sec-ch-ua'', ''sec-ch-ua-mobile'', ''sec-ch-ua-platform''}"

lemma navigation_dom: "dom (chrome_navigation_headers ua) = navigation_names"
  by (auto simp: chrome_navigation_headers_def)

lemma chrome_headers_dom:
  assumes "coherent p"
  shows "dom (chrome_headers_for p) \<subseteq> navigation_names \<union> (if bp_browser p = ''firefox'' then {} else hint_names)"
proof (cases "client_hints_headers (bp_user_agent p)")
  case None
  then show ?thesis using navigation_dom [of "bp_user_agent p"] by (simp add: chrome_headers_for_def with_hints_def)
next
  case (Some m)
  moreover have "client_hints_headers (bp_user_agent p) = None" if firefox: "bp_browser p = ''firefox''"
    using assms firefox by (simp add: coherent_def is_chromium_browser_def client_hints_None_iff)
  ultimately have "bp_browser p \<noteq> ''firefox''" by auto
  then show ?thesis
    using Some navigation_dom [of "bp_user_agent p"] client_hints_dom [OF Some]
    by (simp add: chrome_headers_for_def with_hints_def)
qed

lemma chrome_headers_user_agent: "chrome_headers_for p ''user-agent'' = Some (bp_user_agent p)"
proof (cases "client_hints_headers (bp_user_agent p)")
  case (Some m)
  have "''user-agent'' \<notin> dom m" unfolding client_hints_dom [OF Some] by simp
  then have "m ''user-agent'' = None" by (simp add: domIff)
  then show ?thesis using Some by (simp add: chrome_headers_for_def with_hints_def map_add_def chrome_navigation_headers_def)
qed (simp add: chrome_headers_for_def with_hints_def chrome_navigation_headers_def)

definition covers_navigation :: "string list \<Rightarrow> bool \<Rightarrow> bool" where
  "covers_navigation order hints \<longleftrightarrow>
     distinct order \<and> navigation_names \<union> (if hints then hint_names else {}) \<subseteq> set order"

lemma orders_cover:
  "covers_navigation chrome_navigation_header_order True" "covers_navigation brave_navigation_header_order True"
  "covers_navigation default_header_order True" "covers_navigation firefox_header_order False"
  by (simp_all add: covers_navigation_def chrome_navigation_header_order_def brave_navigation_header_order_def
      default_header_order_def firefox_header_order_def)

text \<open>Every header has its place. For a coherent profile, the order the client uses by
  default for a navigation has no duplicates and lists every header that
  \<^verbatim>\<open>ChromeHeadersFor\<close> sends, which carry that profile's User-Agent.\<close>

theorem header_order_covers_headers:
  assumes "coherent p" and "id_profile i = p"
  shows "distinct (default_header_order_for i False) \<and>
         dom (chrome_headers_for p) \<subseteq> set (default_header_order_for i False) \<and>
         chrome_headers_for p ''user-agent'' = Some (bp_user_agent p)"
proof -
  have "covers_navigation (default_header_order_for i False) (bp_browser p \<noteq> ''firefox'')"
    using assms(2) orders_cover by (auto simp: default_header_order_for_def Let_def header_order_for_browser_def)
  then show ?thesis
    using chrome_headers_dom [OF assms(1)] chrome_headers_user_agent unfolding covers_navigation_def
    by (cases "bp_browser p = ''firefox''") auto
qed

theorem header_order_covers_headers_witness:
  "dom (chrome_headers_for (hd builtin_profiles)) \<subseteq>
     set (default_header_order_for \<lparr>id_profile = hd builtin_profiles, id_client_hints = None\<rparr> False)"
proof -
  have "coherent (hd builtin_profiles)"
    by (rule coherent_builtin) (simp add: builtin_profiles_def)
  then show ?thesis
    using header_order_covers_headers [of "hd builtin_profiles" "\<lparr>id_profile = hd builtin_profiles, id_client_hints = None\<rparr>"]
    by simp
qed

text \<open>The navigation order differs from the default one in more than the place of
  \<^verbatim>\<open>accept-language\<close>: \<^verbatim>\<open>referer\<close>, \<^verbatim>\<open>cookie\<close> and
  \<^verbatim>\<open>priority\<close> are placed differently too.\<close>

lemma orders_differ_beyond_accept_language:
  "filter (\<lambda>h. h \<noteq> ''accept-language'') chrome_navigation_header_order \<noteq>
   filter (\<lambda>h. h \<noteq> ''accept-language'') default_header_order"
  by (simp add: chrome_navigation_header_order_def default_header_order_def)

text \<open>A User-Agent of an iPhone names Mac OS X, so the platform found for it is macOS.\<close>

lemma iphone_platform:
  "str_contains ua ''Mac OS X'' \<Longrightarrow> extract_platform ua \<noteq> ''iOS''"
  by (simp add: extract_platform_def)

end
