(* ===== verification/Go_Net.thy ===== *)
theory Go_Net
  imports Go_Errors "HOL-Library.Word"
begin

unbundle bit_operations_syntax

text \<open>
  The part of Go's \<^verbatim>\<open>net\<close>, \<^verbatim>\<open>net/netip\<close> and \<^verbatim>\<open>net/url\<close> the source uses. An
  address is a word; \<open>IP4\<close> and \<open>IP6\<close> are a \<^verbatim>\<open>net.IP\<close> of 4 and of 16 bytes (the
  parser and the resolver return no other lengths). An address of \<^verbatim>\<open>netip\<close> also
  carries a zone. A URL is its scheme and its host field; \<^verbatim>\<open>url.Parse\<close> itself is a
  parameter of the definitions that need it.
\<close>

datatype net_ip = IP4 "32 word" | IP6 "128 word"

text \<open>Byte \<open>i\<close> of an address, counted from the front.\<close>

definition octet4 :: "nat \<Rightarrow> 32 word \<Rightarrow> 8 word" where
  "octet4 i a = ucast (drop_bit (8 * (3 - i)) a)"

definition octet6 :: "nat \<Rightarrow> 128 word \<Rightarrow> 8 word" where
  "octet6 i a = ucast (drop_bit (8 * (15 - i)) a)"

definition is_mapped :: "128 word \<Rightarrow> bool" where
  "is_mapped a \<longleftrightarrow> drop_bit 32 a = 0xFFFF"

definition mapped :: "32 word \<Rightarrow> 128 word" where
  "mapped a = push_bit 32 0xFFFF OR ucast a"

fun to4 :: "net_ip \<Rightarrow> 32 word option" where
  "to4 (IP4 a) = Some a"
| "to4 (IP6 a) = (if is_mapped a then Some (ucast a) else None)"

fun as16 :: "net_ip \<Rightarrow> 128 word" where
  "as16 (IP4 a) = mapped a"
| "as16 (IP6 a) = a"

text \<open>The predicates of \<^verbatim>\<open>net.IP\<close>: a test on the four bytes when \<^verbatim>\<open>To4\<close> gives
  them, and one on the sixteen bytes otherwise.\<close>

definition by_version :: "(32 word \<Rightarrow> bool) \<Rightarrow> (128 word \<Rightarrow> bool) \<Rightarrow> net_ip \<Rightarrow> bool" where
  "by_version p4 p6 ip = (case to4 ip of Some a \<Rightarrow> p4 a | None \<Rightarrow> p6 (as16 ip))"

definition ip_is_loopback :: "net_ip \<Rightarrow> bool" where
  "ip_is_loopback = by_version (\<lambda>a. octet4 0 a = 127) (\<lambda>a. a = 1)"

definition ip_is_private :: "net_ip \<Rightarrow> bool" where
  "ip_is_private = by_version
     (\<lambda>a. octet4 0 a = 10 \<or> octet4 0 a = 172 \<and> octet4 1 a AND 0xF0 = 16 \<or> octet4 0 a = 192 \<and> octet4 1 a = 168)
     (\<lambda>a. octet6 0 a AND 0xFE = 0xFC)"

definition ip_is_unspecified :: "net_ip \<Rightarrow> bool" where
  "ip_is_unspecified ip \<longleftrightarrow> as16 ip = mapped 0 \<or> as16 ip = 0"

definition ip_is_link_local_unicast :: "net_ip \<Rightarrow> bool" where
  "ip_is_link_local_unicast = by_version
     (\<lambda>a. octet4 0 a = 169 \<and> octet4 1 a = 254) (\<lambda>a. octet6 0 a = 0xFE \<and> octet6 1 a AND 0xC0 = 0x80)"

definition ip_is_link_local_multicast :: "net_ip \<Rightarrow> bool" where
  "ip_is_link_local_multicast = by_version
     (\<lambda>a. octet4 0 a = 224 \<and> octet4 1 a = 0 \<and> octet4 2 a = 0) (\<lambda>a. octet6 0 a = 0xFF \<and> octet6 1 a AND 0x0F = 2)"

definition ip_is_multicast :: "net_ip \<Rightarrow> bool" where
  "ip_is_multicast = by_version (\<lambda>a. octet4 0 a AND 0xF0 = 0xE0) (\<lambda>a. octet6 0 a = 0xFF)"

subsection \<open>Parsing addresses\<close>

datatype netip_addr = Addr4 "32 word" | Addr6 "128 word" string

definition bytes_word :: "nat list \<Rightarrow> 'a::len word" where
  "bytes_word bs = foldl (\<lambda>w b. push_bit 8 w OR word_of_nat b) 0 bs"

text \<open>A field of a dotted quad: digits, at most 255, no leading zero.\<close>

definition parse_octet :: "string \<Rightarrow> nat option" where
  "parse_octet s =
     (if s \<noteq> [] \<and> list_all is_digit s \<and> (hd s = CHR ''0'' \<longrightarrow> length s = 1) \<and> digits_val s \<le> 255
      then Some (digits_val s) else None)"

definition parse_ipv4_fields :: "string \<Rightarrow> nat list option" where
  "parse_ipv4_fields s =
     (let fs = map parse_octet (split_on ''.'' s)
      in if length fs = 4 \<and> None \<notin> set fs then Some (map the fs) else None)"

definition hex_val :: "char \<Rightarrow> nat option" where
  "hex_val c =
     (let n = (of_char c :: nat)
      in if 48 \<le> n \<and> n \<le> 57 then Some (n - 48)
         else if 97 \<le> n \<and> n \<le> 102 then Some (n - 87)
         else if 65 \<le> n \<and> n \<le> 70 then Some (n - 55) else None)"

text \<open>The loop over the groups: \<open>bs\<close> are the bytes so far, \<open>ell\<close> the position of the
  ellipsis; at most eight groups are read, each taking two bytes. A result is the bytes,
  the ellipsis and what is left of the text.\<close>

fun parse_ipv6_groups ::
    "nat \<Rightarrow> string \<Rightarrow> nat list \<Rightarrow> nat option \<Rightarrow> (nat list \<times> nat option \<times> string) option"
where
  "parse_ipv6_groups 0 s bs ell = Some (bs, ell, s)"
| "parse_ipv6_groups (Suc k) s bs ell =
     (let ds = takeWhile (\<lambda>c. hex_val c \<noteq> None) s;
          rest = drop (length ds) s;
          acc = foldl (\<lambda>n c. 16 * n + the (hex_val c)) 0 ds
      in if 4 < length ds \<or> ds = [] then None
         else if rest \<noteq> [] \<and> hd rest = CHR ''.'' then
           (if ell = None \<and> length bs \<noteq> 12 \<or> 16 < length bs + 4 then None
            else case parse_ipv4_fields s of
                   None \<Rightarrow> None | Some fs \<Rightarrow> Some (bs @ fs, ell, []))
         else let bs' = bs @ [acc div 256, acc mod 256]
              in if rest = [] then Some (bs', ell, [])
                 else if hd rest \<noteq> CHR '':'' \<or> length rest = 1 then None
                 else let s' = tl rest
                      in if hd s' = CHR '':''
                         then (if ell \<noteq> None then None
                               else if tl s' = [] then Some (bs', Some (length bs'), [])
                               else parse_ipv6_groups k (tl s') bs' (Some (length bs')))
                         else parse_ipv6_groups k s' bs' ell)"

definition parse_ipv6_bytes :: "string \<Rightarrow> nat list option" where
  "parse_ipv6_bytes s =
     (let lead = has_prefix s ''::''
      in if s = ''::'' then Some (replicate 16 0)
         else case parse_ipv6_groups 8 (if lead then drop 2 s else s) [] (if lead then Some 0 else None) of
                None \<Rightarrow> None
              | Some (bs, ell, rest) \<Rightarrow>
                  if rest \<noteq> [] then None
                  else if length bs < 16 then
                    (case ell of None \<Rightarrow> None
                     | Some e \<Rightarrow> Some (take e bs @ replicate (16 - length bs) 0 @ drop e bs))
                  else if ell \<noteq> None then None else Some bs)"

definition parse_ipv6 :: "string \<Rightarrow> netip_addr option" where
  "parse_ipv6 s =
     (let (body, zone) = (case str_index s ''%'' of None \<Rightarrow> (s, None) | Some i \<Rightarrow> (take i s, Some (drop (i + 1) s)))
      in if zone = Some [] then None
         else case parse_ipv6_bytes body of
                None \<Rightarrow> None
              | Some bs \<Rightarrow> Some (Addr6 (bytes_word bs) (case zone of None \<Rightarrow> [] | Some z \<Rightarrow> z)))"

text \<open>\<^verbatim>\<open>netip.ParseAddr\<close>: the first dot, colon or percent sign decides.\<close>

definition parse_addr :: "string \<Rightarrow> netip_addr option" where
  "parse_addr s =
     (case dropWhile (\<lambda>c. c \<noteq> CHR ''.'' \<and> c \<noteq> CHR '':'' \<and> c \<noteq> CHR ''%'') s of
        [] \<Rightarrow> None
      | c # _ \<Rightarrow>
          if c = CHR ''.'' then map_option (\<lambda>bs. Addr4 (bytes_word bs)) (parse_ipv4_fields s)
          else if c = CHR '':'' then parse_ipv6 s else None)"

text \<open>\<^verbatim>\<open>net.ParseIP\<close> refuses a zone and returns sixteen bytes.\<close>

definition parse_ip :: "string \<Rightarrow> net_ip option" where
  "parse_ip s =
     (case parse_addr s of
        Some (Addr4 a) \<Rightarrow> Some (IP6 (mapped a))
      | Some (Addr6 a zone) \<Rightarrow> if zone = [] then Some (IP6 a) else None
      | None \<Rightarrow> None)"

fun without_zone :: "netip_addr \<Rightarrow> netip_addr" where
  "without_zone (Addr4 a) = Addr4 a"
| "without_zone (Addr6 a z) = Addr6 a []"

fun addr_unmap :: "netip_addr \<Rightarrow> netip_addr" where
  "addr_unmap (Addr4 a) = Addr4 a"
| "addr_unmap (Addr6 a z) = (if is_mapped a then Addr4 (ucast a) else Addr6 a z)"

subsection \<open>Hosts and ports\<close>

text \<open>The position of the last occurrence of a character.\<close>

fun last_index :: "char \<Rightarrow> string \<Rightarrow> nat option" where
  "last_index c [] = None"
| "last_index c (d # s) =
     (case last_index c s of Some i \<Rightarrow> Some (Suc i) | None \<Rightarrow> if c = d then Some 0 else None)"

text \<open>\<^verbatim>\<open>net.SplitHostPort\<close>: None stands for its errors.\<close>

definition split_host_port :: "string \<Rightarrow> (string \<times> string) option" where
  "split_host_port hp =
     (case last_index (CHR '':'') hp of
        None \<Rightarrow> None
      | Some i \<Rightarrow>
          if hd hp = CHR ''['' then
            (case str_index hp '']'' of
               None \<Rightarrow> None
             | Some e \<Rightarrow>
                 if e + 1 = i \<and> CHR ''['' \<notin> set (drop 1 hp) \<and> CHR '']'' \<notin> set (drop (e + 1) hp)
                 then Some (drop 1 (take e hp), drop (i + 1) hp) else None)
          else if CHR '':'' \<in> set (take i hp) \<or> CHR ''['' \<in> set hp \<or> CHR '']'' \<in> set hp then None
          else Some (take i hp, drop (i + 1) hp))"

record go_url =
  url_scheme :: string
  url_host :: string

text \<open>The split of the host field behind \<^verbatim>\<open>Hostname()\<close> and \<^verbatim>\<open>Port()\<close>.\<close>

definition url_split_host :: "string \<Rightarrow> string \<times> string" where
  "url_split_host hp =
     (let (host, port) = (case last_index (CHR '':'') hp of
                            Some i \<Rightarrow> if list_all is_digit (drop (i + 1) hp)
                                      then (take i hp, drop (i + 1) hp) else (hp, [])
                          | None \<Rightarrow> (hp, []))
      in (if has_prefix host ''['' \<and> has_suffix host '']'' then butlast (drop 1 host) else host, port))"

definition url_hostname :: "go_url \<Rightarrow> string" where
  "url_hostname u = fst (url_split_host (url_host u))"

definition url_port :: "go_url \<Rightarrow> string" where
  "url_port u = snd (url_split_host (url_host u))"

subsection \<open>Printing addresses\<close>

definition octet_str :: "nat \<Rightarrow> 32 word \<Rightarrow> string" where
  "octet_str i a = nat_str (unat (octet4 i a))"

definition ip4_str :: "32 word \<Rightarrow> string" where
  "ip4_str a = octet_str 0 a @ ''.'' @ octet_str 1 a @ ''.'' @ octet_str 2 a @ ''.'' @ octet_str 3 a"

subsection \<open>Facts\<close>

lemma high_low:
  fixes a :: "32 word" and c :: "128 word"
  assumes "take_bit 96 c = c"
  shows "drop_bit 32 (push_bit 32 c OR ucast a) = c" "ucast (push_bit 32 c OR ucast a) = a"
proof -
  have c: "bit c n \<Longrightarrow> n < 96" for n
    using assms by (metis bit_take_bit_iff)
  show "drop_bit 32 (push_bit 32 c OR ucast a) = c"
    by (rule bit_word_eqI) (auto simp: bit_simps dest: bit_imp_le_length c)
  show "ucast (push_bit 32 c OR ucast a) = a"
    by (rule bit_word_eqI) (auto simp: bit_simps)
qed

lemma mapped_simps [simp]:
  "is_mapped (mapped a)" "ucast (mapped a) = a" "mapped a \<noteq> 0"
proof -
  have c: "take_bit 96 (0xFFFF :: 128 word) = 0xFFFF" by simp
  show m: "is_mapped (mapped a)" unfolding is_mapped_def mapped_def by (rule high_low(1) [OF c])
  show "ucast (mapped a) = a" unfolding mapped_def by (rule high_low(2) [OF c])
  show "mapped a \<noteq> 0" using m by (auto simp: is_mapped_def)
qed

lemma mapped_ucast: "is_mapped b \<Longrightarrow> mapped (ucast b) = b"
proof -
  assume b: "is_mapped b"
  have "ucast (ucast b :: 32 word) = take_bit 32 b"
    by (rule bit_word_eqI) (auto simp: bit_simps)
  then have "mapped (ucast b) = push_bit 32 (drop_bit 32 b) OR take_bit 32 b"
    using b by (simp add: mapped_def is_mapped_def)
  also have "\<dots> = b" by (rule bit_word_eqI) (auto simp: bit_simps)
  finally show ?thesis .
qed

lemma mapped_eq_iff [simp]: "mapped a = mapped b \<longleftrightarrow> a = b"
  by (metis mapped_simps(2))

lemma split_acc_field:
  "CHR ''.'' \<notin> set x \<Longrightarrow> split_acc ''.'' acc (x @ ''.'' @ y) = (rev acc @ x) # split_acc ''.'' [] y"
proof (induction x arbitrary: acc)
  case Nil
  show ?case by (subst split_acc.simps) simp
next
  case (Cons c x)
  then show ?case by (subst split_acc.simps) auto
qed

lemma split_acc_last: "CHR ''.'' \<notin> set x \<Longrightarrow> split_acc ''.'' acc x = [rev acc @ x]"
proof (induction x arbitrary: acc)
  case Nil
  show ?case by (subst split_acc.simps) simp
next
  case (Cons c x)
  then show ?case by (subst split_acc.simps) auto
qed

lemma digits_avoid: "list_all is_digit s \<Longrightarrow> \<not> is_digit c \<Longrightarrow> c \<notin> set s"
  by (auto simp: list_all_iff)

lemma nat_str_avoids [simp]:
  "CHR ''.'' \<notin> set (nat_str n)" "CHR '':'' \<notin> set (nat_str n)" "CHR ''['' \<notin> set (nat_str n)" "CHR '']'' \<notin> set (nat_str n)"
  "CHR ''%'' \<notin> set (nat_str n)"
  by (rule digits_avoid [OF nat_str_digits], simp add: is_digit_def Let_def)+

lemma hd_nat_str_zero: "hd (nat_str n) = CHR ''0'' \<Longrightarrow> length (nat_str n) = 1"
proof (induction n rule: nat_str.induct)
  case (1 n)
  show ?case
  proof (cases "n < 10")
    case True
    then show ?thesis by (subst nat_str.simps) simp
  next
    case False
    have eq: "nat_str n = nat_str (n div 10) @ [digit_char (n mod 10)]" using False by (subst nat_str.simps) simp
    then have "hd (nat_str (n div 10)) = CHR ''0''" using 1(2) by (simp add: hd_append)
    then have l: "length (nat_str (n div 10)) = 1" using 1(1) [OF False] by simp
    then have "nat_str (n div 10) = [CHR ''0'']" using \<open>hd (nat_str (n div 10)) = CHR ''0''\<close>
      by (cases "nat_str (n div 10)") auto
    then have "digits_val (nat_str (n div 10)) = digits_val [CHR ''0'']" by simp
    then have "n div 10 = 0" by (simp only: digits_val_nat_str) (simp add: digits_val_def digit_val_def)
    with False show ?thesis by simp
  qed
qed

lemma parse_octet_nat_str [simp]: "n \<le> 255 \<Longrightarrow> parse_octet (nat_str n) = Some n"
  using hd_nat_str_zero [of n] nat_str_digits [of n] by (simp add: parse_octet_def)

lemma octet_le: "unat (b :: 8 word) \<le> 255"
proof -
  have "unat b < 2 ^ LENGTH(8)" by (rule unsigned_less)
  then show ?thesis by simp
qed

lemma parse_ip4_str [simp]:
  "parse_ipv4_fields (ip4_str a) = Some (map (\<lambda>i. unat (octet4 i a)) [0, 1, 2, 3])"
  by (simp add: parse_ipv4_fields_def ip4_str_def octet_str_def split_on_def split_acc_field [simplified] split_acc_last octet_le)

lemma bytes_word_octets: "bytes_word (map (\<lambda>i. unat (octet4 i a)) [0, 1, 2, 3]) = a"
  apply (rule bit_word_eqI)
  apply (auto simp: bytes_word_def octet4_def bit_simps)
  subgoal for n by (cases "16 \<le> n") simp_all
  subgoal for n by (cases "24 \<le> n"; cases "16 \<le> n"; simp)
  done

lemma last_index_None: "c \<notin> set s \<Longrightarrow> last_index c s = None"
  by (induction s) auto

lemma last_index_append [simp]: "c \<notin> set t \<Longrightarrow> last_index c (s @ c # t) = Some (length s)"
  by (induction s) (auto simp: last_index_None)


lemma ip4_str_chars [simp]:
  "CHR '':'' \<notin> set (ip4_str a)" "CHR ''['' \<notin> set (ip4_str a)" "CHR '']'' \<notin> set (ip4_str a)"
  by (simp_all add: ip4_str_def octet_str_def)

lemma parse_ip_ip4_str [simp]: "parse_ip (ip4_str a) = Some (IP6 (mapped a))"
proof -
  let ?p = "\<lambda>c. c \<noteq> CHR ''.'' \<and> c \<noteq> CHR '':'' \<and> c \<noteq> CHR ''%''"
  have "\<And>c. c \<in> set (octet_str 0 a) \<Longrightarrow> ?p c"
    using nat_str_avoids [of "unat (octet4 0 a)"] by (auto simp: octet_str_def)
  then have "dropWhile ?p (ip4_str a) = ''.'' @ octet_str 1 a @ ''.'' @ octet_str 2 a @ ''.'' @ octet_str 3 a"
    by (simp add: ip4_str_def dropWhile_append2)
  then have "parse_addr (ip4_str a) = Some (Addr4 a)"
    using bytes_word_octets [of a] by (simp add: parse_addr_def)
  then show ?thesis by (simp add: parse_ip_def)
qed

lemma split_host_port_plain [simp]:
  "host \<noteq> [] \<Longrightarrow> CHR '':'' \<notin> set host \<Longrightarrow> CHR ''['' \<notin> set host \<Longrightarrow> CHR '']'' \<notin> set host \<Longrightarrow>
     split_host_port (host @ CHR '':'' # nat_str p) = Some (host, nat_str p)"
  by (cases host) (auto simp: split_host_port_def)

lemma ip4_str_nonempty [simp]: "ip4_str a \<noteq> []"
  by (simp add: ip4_str_def octet_str_def)

end
