(* ===== verification/Ssrf.thy ===== *)
theory Ssrf
  imports Go_Net
begin

text \<open>
  The built-in guards against server-side request forgery (\<^verbatim>\<open>src/ssrf.go\<close>). A guard
  returns an error or nil, here an option. The resolver is the parameter \<open>lookup\<close>, its
  answer at the moment of the call; the context of a request only bounds that call. The
  texts of the errors follow the format strings, with \<open>ip_str\<close> for \<^verbatim>\<open>IP.String()\<close>
  as a parameter and without the escapes of \<^verbatim>\<open>%q\<close>.
\<close>

type_synonym dial_guard = "string \<Rightarrow> string \<Rightarrow> go_error option"
type_synonym resolver = "string \<Rightarrow> go_error + net_ip option list"

definition max_ssrf_redirect_hops :: int where
  "max_ssrf_redirect_hops = 10"

text \<open>A nil \<^verbatim>\<open>net.IP\<close> is None.\<close>

definition is_blocked_ip :: "net_ip option \<Rightarrow> bool" where
  "is_blocked_ip x \<longleftrightarrow>
     (case x of
        None \<Rightarrow> True
      | Some ip \<Rightarrow>
          if ip_is_loopback ip \<or> ip_is_private ip \<or> ip_is_unspecified ip then True
          else if ip_is_link_local_unicast ip \<or> ip_is_link_local_multicast ip \<or> ip_is_multicast ip then True
          else False)"

definition is_unix_network :: "string \<Rightarrow> bool" where
  "is_unix_network network \<longleftrightarrow> network = ''unix'' \<or> network = ''unixgram'' \<or> network = ''unixpacket''"

text \<open>An error built with \<^verbatim>\<open>%w\<close> for the sentinel in front.\<close>

definition ssrf_err :: "string \<Rightarrow> go_error" where
  "ssrf_err s = ErrFmt [Wrapped ErrSSRFBlocked, Lit '': '', Lit s]"

definition default_deny_dial :: "(net_ip \<Rightarrow> string) \<Rightarrow> dial_guard" where
  "default_deny_dial ip_str network address =
     (if is_unix_network network then None
      else let host = (case split_host_port address of None \<Rightarrow> address | Some (h, p) \<Rightarrow> h)
           in case parse_ip host of
                None \<Rightarrow> Some (ssrf_err (''cannot parse dial address '' @ quoted address @ '' ('' @ network @ '')''))
              | Some ip \<Rightarrow>
                  if is_blocked_ip (Some ip) then Some (ssrf_err (ip_str ip @ '' ('' @ network @ '')'')) else None)"

fun first_blocked :: "net_ip option list \<Rightarrow> net_ip option option" where
  "first_blocked [] = None"
| "first_blocked (a # as) = (if is_blocked_ip a then Some a else first_blocked as)"

definition default_deny_url :: "(net_ip option \<Rightarrow> string) \<Rightarrow> resolver \<Rightarrow> go_url option \<Rightarrow> go_error option" where
  "default_deny_url ip_str lookup ou =
     (case ou of
        None \<Rightarrow> Some (ssrf_err ''nil URL'')
      | Some u \<Rightarrow>
          let s = to_lower (url_scheme u); host = url_hostname u
          in if s \<noteq> ''http'' \<and> s \<noteq> ''https''
             then Some (ssrf_err (''scheme '' @ quoted (url_scheme u) @ '' not allowed (http/https only)''))
             else if host = [] then Some (ssrf_err ''empty host'')
             else case parse_ip host of
               Some ip \<Rightarrow> if is_blocked_ip (Some ip) then Some (ssrf_err (ip_str (Some ip))) else None
             | None \<Rightarrow>
                 (case lookup host of
                    Inl e \<Rightarrow> Some (ErrFmt [Lit (''stealth: resolve '' @ quoted host @ '': ''), Wrapped e])
                  | Inr addrs \<Rightarrow>
                      if addrs = [] then Some (ssrf_err (quoted host @ '' resolved to no addresses''))
                      else (case first_blocked addrs of
                              Some a \<Rightarrow> Some (ssrf_err (host @ '' resolves to '' @ ip_str a))
                            | None \<Rightarrow> None)))"

text \<open>\<open>via\<close> is the number of requests made so far.\<close>

definition default_deny_redirect ::
    "(net_ip option \<Rightarrow> string) \<Rightarrow> resolver \<Rightarrow> go_url option \<Rightarrow> nat \<Rightarrow> go_error option"
where
  "default_deny_redirect ip_str lookup ou via =
     (if max_ssrf_redirect_hops \<le> int via
      then Some (ErrText (''stealth: stopped after '' @ int_str max_ssrf_redirect_hops @ '' redirects''))
      else default_deny_url ip_str lookup ou)"

text \<open>The guard for the dialer ignores the raw connection it is also given.\<close>

definition adapt_control :: "dial_guard option \<Rightarrow> (string \<Rightarrow> string \<Rightarrow> 'c \<Rightarrow> go_error option) option" where
  "adapt_control fn = map_option (\<lambda>g network address c. g network address) fn"

subsection \<open>Networks\<close>

text \<open>Membership in a network is equality of the first \<open>len\<close> bits.\<close>

definition in_net4 :: "32 word \<Rightarrow> 32 word \<times> nat \<Rightarrow> bool" where
  "in_net4 a n = (drop_bit (32 - snd n) a = drop_bit (32 - snd n) (fst n))"

definition in_net6 :: "128 word \<Rightarrow> 128 word \<times> nat \<Rightarrow> bool" where
  "in_net6 a n = (drop_bit (128 - snd n) a = drop_bit (128 - snd n) (fst n))"

text \<open>0.0.0.0/32, 127/8, 10/8, 172.16/12, 192.168/16, 169.254/16, 224/4, and
  ::/128, ::1/128, fc00::/7, fe80::/10, ff00::/8.\<close>

definition blocked_nets4 :: "(32 word \<times> nat) list" where
  "blocked_nets4 =
     [(0, 32), (0x7F000000, 8), (0x0A000000, 8), (0xAC100000, 12), (0xC0A80000, 16), (0xA9FE0000, 16),
      (0xE0000000, 4)]"

definition blocked_nets6 :: "(128 word \<times> nat) list" where
  "blocked_nets6 =
     [(0, 128), (1, 128), (push_bit 120 0xFC, 7), (push_bit 112 0xFE80, 10), (push_bit 120 0xFF, 8)]"

lemma uint_div_word:
  fixes a :: "'a::len word"
  shows "uint (drop_bit n a) = uint a div 2 ^ n"
  by (subst unsigned_drop_bit_eq) (simp add: drop_bit_eq_div take_bit_int_eq_self)

lemma byte_of_word:
  fixes a :: "'a::len word"
  shows "uint (ucast a :: 8 word) = uint a mod 256"
  by (simp add: unsigned_ucast_eq take_bit_eq_mod)

lemma all_bytes: "(b :: 8 word) \<in> set (map word_of_nat [0..<256])"
proof -
  have "b = word_of_nat (unat b)" "unat b \<in> {0..<256}"
    using unsigned_less [of b] by simp_all
  then show ?thesis by (metis image_eqI set_map set_upt)
qed

lemma masked_bytes:
  "list_all (\<lambda>b :: 8 word. (b AND 0xF0 = 16 \<longleftrightarrow> uint b div 16 = 1) \<and> (b AND 0xF0 = 0xE0 \<longleftrightarrow> uint b div 16 = 14) \<and>
     (b AND 0xFE = 0xFC \<longleftrightarrow> uint b div 2 = 0x7E) \<and> (b AND 0xC0 = 0x80 \<longleftrightarrow> uint b div 64 = 2))
     (map word_of_nat [0..<256])"
  by code_simp

lemma masked_byte:
  fixes b :: "8 word"
  shows "b AND 0xF0 = 16 \<longleftrightarrow> uint b div 16 = 1" "b AND 0xF0 = 0xE0 \<longleftrightarrow> uint b div 16 = 14"
        "b AND 0xFE = 0xFC \<longleftrightarrow> uint b div 2 = 0x7E" "b AND 0xC0 = 0x80 \<longleftrightarrow> uint b div 64 = 2"
  using masked_bytes all_bytes [of b] by (simp_all only: list_all_iff)

lemma octet_eqs:
  "uint (octet4 i a) = uint a div 2 ^ (8 * (3 - i)) mod 256"
  "uint (octet6 i b) = uint b div 2 ^ (8 * (15 - i)) mod 256"
  by (simp_all add: octet4_def octet6_def byte_of_word uint_div_word)

lemma in_net_uint:
  "in_net4 a n \<longleftrightarrow> uint a div 2 ^ (32 - snd n) = uint (fst n) div 2 ^ (32 - snd n)"
  "in_net6 b m \<longleftrightarrow> uint b div 2 ^ (128 - snd m) = uint (fst m) div 2 ^ (128 - snd m)"
  by (simp_all add: in_net4_def in_net6_def word_uint_eq_iff uint_div_word)


lemma two_digits:
  fixes k q s c d :: int
  assumes "0 \<le> s" "s < k" "0 \<le> d" "d < k"
  shows "q = c \<and> s = d \<longleftrightarrow> k * q + s = k * c + d"
proof
  assume e: "k * q + s = k * c + d"
  have "(k * q + s) div k = q" "(k * c + d) div k = c" using assms by simp_all
  with e show "q = c \<and> s = d" by simp
qed simp

lemma top_of_two_bytes:
  fixes y c d k :: int
  assumes "0 \<le> y" "y < 65536" "0 < k" "0 \<le> d" "d < 256 div k" "k dvd 256"
  shows "(y div 256 mod 256 = c \<and> y mod 256 div k = d) = (y div k = 256 div k * c + d)"
proof -
  obtain m where m: "256 = k * m" using assms(6) by blast
  have q: "y div 256 mod 256 = y div 256" using assms by (simp add: div_int_pos_iff)
  have m0: "0 < m" using m assms(3) zero_less_mult_pos [of k m] by simp
  then have "0 \<le> m" by simp
  then have "y mod 256 = k * (y div k mod m) + y mod k" by (simp only: m zmod_zmult2_eq)
  then have s: "y mod 256 div k = y div k mod m" using assms(3) by simp
  have "y div 256 = y div k div m" using m0 by (simp only: m zdiv_zmult2_eq less_imp_le)
  moreover note m0
  moreover have "m = 256 div k" using m assms(3) by (metis less_irrefl nonzero_mult_div_cancel_left)
  ultimately show ?thesis using two_digits [of "y div k mod m" m d "y div k div m" c] assms s q by simp
qed

lemma unspecified_iff:
  "ip_is_unspecified ip \<longleftrightarrow> (case to4 ip of Some a \<Rightarrow> a = 0 | None \<Rightarrow> as16 ip = 0)"
proof (cases ip)
  case (IP6 b)
  show ?thesis
  proof (cases "is_mapped b")
    case True
    then obtain a where "b = mapped a" using mapped_ucast by metis
    with IP6 show ?thesis by (simp add: ip_is_unspecified_def)
  next
    case False
    then have "b \<noteq> mapped 0" by auto
    with IP6 False show ?thesis by (simp add: ip_is_unspecified_def)
  qed
qed (simp add: ip_is_unspecified_def)

lemma top_byte:
  "uint (a :: 32 word) div 2 ^ 24 mod 256 = uint a div 2 ^ 24"
  "uint (b :: 128 word) div 2 ^ 120 mod 256 = uint b div 2 ^ 120"
  using uint_lt2p [of a] uint_lt2p [of b] by (simp_all add: div_int_pos_iff)

lemma two_bytes:
  "0 \<le> uint (a :: 32 word) div 2 ^ 16" "uint a div 2 ^ 16 < 65536"
  "0 \<le> uint (b :: 128 word) div 2 ^ 112" "uint b div 2 ^ 112 < 65536"
  using uint_lt2p [of a] uint_lt2p [of b] by (simp_all add: pos_imp_zdiv_nonneg_iff)

lemma nest_div:
  fixes x :: int
  shows "x div 2 ^ 24 = x div 2 ^ 16 div 256" "x div 2 ^ 20 = x div 2 ^ 16 div 16" "x div 2 ^ 28 = x div 2 ^ 24 div 16"
    "x div 2 ^ 120 = x div 2 ^ 112 div 256" "x div 2 ^ 118 = x div 2 ^ 112 div 64" "x div 2 ^ 121 = x div 2 ^ 120 div 2"
  by (simp_all add: div_mult2_eq [symmetric] zdiv_zmult2_eq [symmetric])

lemma blocked4:
  "octet4 0 a = 127 \<longleftrightarrow> in_net4 a (0x7F000000, 8)"
  "octet4 0 a = 10 \<longleftrightarrow> in_net4 a (0x0A000000, 8)"
  "octet4 0 a = 172 \<and> octet4 1 a AND 0xF0 = 16 \<longleftrightarrow> in_net4 a (0xAC100000, 12)"
  "octet4 0 a = 192 \<and> octet4 1 a = 168 \<longleftrightarrow> in_net4 a (0xC0A80000, 16)"
  "octet4 0 a = 169 \<and> octet4 1 a = 254 \<longleftrightarrow> in_net4 a (0xA9FE0000, 16)"
  "octet4 0 a AND 0xF0 = 0xE0 \<longleftrightarrow> in_net4 a (0xE0000000, 4)"
  "a = 0 \<longleftrightarrow> in_net4 a (0, 32)"
proof -
  note two = top_of_two_bytes [OF two_bytes(1,2) [of a]]
  note s = in_net_uint octet_eqs word_uint_eq_iff top_byte
  show "octet4 0 a = 127 \<longleftrightarrow> in_net4 a (0x7F000000, 8)" by (simp add: s top_byte [simplified])
  show "octet4 0 a = 10 \<longleftrightarrow> in_net4 a (0x0A000000, 8)" by (simp add: s top_byte [simplified])
  show "octet4 0 a = 172 \<and> octet4 1 a AND 0xF0 = 16 \<longleftrightarrow> in_net4 a (0xAC100000, 12)"
    unfolding masked_byte using two [of 16 1 172] by (simp add: s nest_div [simplified])
  show "octet4 0 a = 192 \<and> octet4 1 a = 168 \<longleftrightarrow> in_net4 a (0xC0A80000, 16)"
    using two [of 1 168 192] by (simp add: s nest_div [simplified])
  show "octet4 0 a = 169 \<and> octet4 1 a = 254 \<longleftrightarrow> in_net4 a (0xA9FE0000, 16)"
    using two [of 1 254 169] by (simp add: s nest_div [simplified])
  show "octet4 0 a AND 0xF0 = 0xE0 \<longleftrightarrow> in_net4 a (0xE0000000, 4)"
    unfolding masked_byte by (simp add: s top_byte [simplified] nest_div(3) [simplified])
  show "a = 0 \<longleftrightarrow> in_net4 a (0, 32)" by (simp add: s)
qed

lemma blocked6:
  "b = 1 \<longleftrightarrow> in_net6 b (1, 128)"
  "b = 0 \<longleftrightarrow> in_net6 b (0, 128)"
  "octet6 0 b AND 0xFE = 0xFC \<longleftrightarrow> in_net6 b (push_bit 120 0xFC, 7)"
  "octet6 0 b = 0xFE \<and> octet6 1 b AND 0xC0 = 0x80 \<longleftrightarrow> in_net6 b (push_bit 112 0xFE80, 10)"
  "octet6 0 b = 0xFF \<longleftrightarrow> in_net6 b (push_bit 120 0xFF, 8)"
proof -
  note s = in_net_uint octet_eqs word_uint_eq_iff top_byte
  show "b = 1 \<longleftrightarrow> in_net6 b (1, 128)" "b = 0 \<longleftrightarrow> in_net6 b (0, 128)" by (simp_all add: s)
  show "octet6 0 b AND 0xFE = 0xFC \<longleftrightarrow> in_net6 b (push_bit 120 0xFC, 7)"
    unfolding masked_byte by (simp add: s top_byte [simplified] nest_div(6) [simplified])
  show "octet6 0 b = 0xFE \<and> octet6 1 b AND 0xC0 = 0x80 \<longleftrightarrow> in_net6 b (push_bit 112 0xFE80, 10)"
    unfolding masked_byte
    using top_of_two_bytes [OF two_bytes(3,4) [of b], of 64 2 254] by (simp add: s nest_div [simplified])
  show "octet6 0 b = 0xFF \<longleftrightarrow> in_net6 b (push_bit 120 0xFF, 8)" by (simp add: s top_byte [simplified])
qed

lemma multicast_contains: "ip_is_link_local_multicast ip \<Longrightarrow> ip_is_multicast ip"
  unfolding ip_is_link_local_multicast_def ip_is_multicast_def by_version_def masked_byte
  by (auto split: option.splits)

lemma predicates_by_network:
  "ip_is_loopback = by_version (\<lambda>a. in_net4 a (0x7F000000, 8)) (\<lambda>b. in_net6 b (1, 128))"
  "ip_is_private = by_version
     (\<lambda>a. in_net4 a (0x0A000000, 8) \<or> in_net4 a (0xAC100000, 12) \<or> in_net4 a (0xC0A80000, 16))
     (\<lambda>b. in_net6 b (push_bit 120 0xFC, 7))"
  "ip_is_unspecified = by_version (\<lambda>a. in_net4 a (0, 32)) (\<lambda>b. in_net6 b (0, 128))"
  "ip_is_link_local_unicast = by_version (\<lambda>a. in_net4 a (0xA9FE0000, 16)) (\<lambda>b. in_net6 b (push_bit 112 0xFE80, 10))"
  "ip_is_multicast = by_version (\<lambda>a. in_net4 a (0xE0000000, 4)) (\<lambda>b. in_net6 b (push_bit 120 0xFF, 8))"
  unfolding ip_is_loopback_def ip_is_private_def ip_is_link_local_unicast_def ip_is_multicast_def
    fun_eq_iff unspecified_iff blocked4 blocked6 by_version_def
  by (auto split: option.split)

lemma blocked_by_network:
  "is_blocked_ip (Some ip) \<longleftrightarrow>
     (case to4 ip of Some a \<Rightarrow> list_ex (in_net4 a) blocked_nets4
      | None \<Rightarrow> list_ex (in_net6 (as16 ip)) blocked_nets6)"
proof -
  have "is_blocked_ip (Some ip) \<longleftrightarrow> ip_is_loopback ip \<or> ip_is_private ip \<or> ip_is_unspecified ip \<or>
    ip_is_link_local_unicast ip \<or> ip_is_multicast ip"
    using multicast_contains [of ip] by (auto simp: is_blocked_ip_def)
  then show ?thesis
    unfolding predicates_by_network by_version_def blocked_nets4_def blocked_nets6_def
    by (cases "to4 ip") (auto simp: Let_def)
qed

lemma blocked_mapped: "is_blocked_ip (Some (IP6 (mapped a))) \<longleftrightarrow> list_ex (in_net4 a) blocked_nets4"
  using blocked_by_network [of "IP6 (mapped a)"] by simp

text \<open>C11: the addresses the guards refuse are exactly those of twelve networks: an IPv4 address, also
  when it is written as an IPv4-mapped IPv6 address, in 0.0.0.0/32, 127/8, 10/8, 172.16/12,
  192.168/16, 169.254/16 (with the metadata address) or 224/4; any other address in ::/128, ::1/128,
  fc00::/7, fe80::/10 or ff00::/8; and a nil address.\<close>

theorem blocked_ip_is_blocked_network:
  "is_blocked_ip x \<longleftrightarrow>
     (case x of None \<Rightarrow> True
      | Some ip \<Rightarrow>
          (case to4 ip of Some a \<Rightarrow> list_ex (in_net4 a) blocked_nets4
           | None \<Rightarrow> list_ex (in_net6 (as16 ip)) blocked_nets6))"
proof (cases x)
  case None
  then show ?thesis by (simp add: is_blocked_ip_def)
next
  case (Some ip)
  then show ?thesis by (simp only: blocked_by_network option.case)
qed

text \<open>C10: the dial guard lets a connection through exactly when it is for a Unix socket, or its host
  is the text of an address that is not blocked; it fails closed on anything it cannot parse, and its
  error always wraps the sentinel that stops the retries. In particular, for every IPv4 address and
  every port, the dotted quad with that port is refused exactly when the address is in a blocked
  network.\<close>

theorem dial_guard_fails_closed:
  "(case default_deny_dial s network address of
     None \<Rightarrow> is_unix_network network \<or>
       (\<exists>ip. parse_ip (case split_host_port address of None \<Rightarrow> address | Some (h, p) \<Rightarrow> h) = Some ip \<and>
             \<not> is_blocked_ip (Some ip))
   | Some e \<Rightarrow> errors_is e ErrSSRFBlocked \<and> \<not> is_unix_network network) \<and>
   default_deny_dial s ''tcp'' (ip4_str a @ '':'' @ nat_str port) =
     (if list_ex (in_net4 a) blocked_nets4
      then Some (ErrFmt [Wrapped ErrSSRFBlocked, Lit '': '', Lit (s (IP6 (mapped a)) @ '' (tcp)'')]) else None)"
proof
  show "case default_deny_dial s network address of
     None \<Rightarrow> is_unix_network network \<or>
       (\<exists>ip. parse_ip (case split_host_port address of None \<Rightarrow> address | Some (h, p) \<Rightarrow> h) = Some ip \<and>
             \<not> is_blocked_ip (Some ip))
   | Some e \<Rightarrow> errors_is e ErrSSRFBlocked \<and> \<not> is_unix_network network"
    by (auto simp: default_deny_dial_def Let_def ssrf_err_def split: option.splits)
qed (simp add: default_deny_dial_def is_unix_network_def ssrf_err_def blocked_mapped)

definition url_target_ok :: "resolver \<Rightarrow> go_url option \<Rightarrow> bool" where
  "url_target_ok lookup ou \<longleftrightarrow>
     (\<exists>u. ou = Some u \<and> (to_lower (url_scheme u) = ''http'' \<or> to_lower (url_scheme u) = ''https'') \<and>
        url_hostname u \<noteq> [] \<and>
        (case parse_ip (url_hostname u) of
           Some ip \<Rightarrow> \<not> is_blocked_ip (Some ip)
         | None \<Rightarrow> \<exists>as. lookup (url_hostname u) = Inr as \<and> as \<noteq> [] \<and> list_all (\<lambda>a. \<not> is_blocked_ip a) as))"

lemma first_blocked_None_iff: "first_blocked as = None \<longleftrightarrow> list_all (\<lambda>a. \<not> is_blocked_ip a) as"
  by (induction as) auto

text \<open>The host and the error of the resolver, where the URL is one whose host has to be resolved.\<close>

definition resolver_failure :: "resolver \<Rightarrow> go_url option \<Rightarrow> (string \<times> go_error) option" where
  "resolver_failure lookup ou =
     (case ou of
        None \<Rightarrow> None
      | Some u \<Rightarrow>
          if (to_lower (url_scheme u) = ''http'' \<or> to_lower (url_scheme u) = ''https'') \<and>
             url_hostname u \<noteq> [] \<and> parse_ip (url_hostname u) = None
          then (case lookup (url_hostname u) of Inl e \<Rightarrow> Some (url_hostname u, e) | Inr as \<Rightarrow> None)
          else None)"

lemma redirect_cap:
  "default_deny_redirect s lookup ou via =
     (if via < 10 then default_deny_url s lookup ou else Some (ErrText ''stealth: stopped after 10 redirects''))"
proof -
  have "int_str 10 = ''10''" by code_simp
  then show ?thesis by (auto simp: default_deny_redirect_def max_ssrf_redirect_hops_def)
qed

lemma redirect_cap_not_wrapped: "\<not> errors_is (ErrText ''stealth: stopped after 10 redirects'') ErrSSRFBlocked"
  by (simp add: errors_is_def)


lemma resolve_error_not_wrapped:
  "default_deny_url s (\<lambda>h. Inl (NetDNSError ''no such host'' False)) (Some \<lparr>url_scheme = ''http'', url_host = ''a.b''\<rparr>) =
     Some (ErrFmt [Lit (''stealth: resolve '' @ quoted ''a.b'' @ '': ''), Wrapped (NetDNSError ''no such host'' False)])"
  "\<not> errors_is (ErrFmt [Lit (''stealth: resolve '' @ quoted ''a.b'' @ '': ''), Wrapped (NetDNSError ''no such host'' False)])
       ErrSSRFBlocked"
proof -
  have "parse_ip ''a.b'' = None" by code_simp
  then show "default_deny_url s (\<lambda>h. Inl (NetDNSError ''no such host'' False)) (Some \<lparr>url_scheme = ''http'', url_host = ''a.b''\<rparr>) =
     Some (ErrFmt [Lit (''stealth: resolve '' @ quoted ''a.b'' @ '': ''), Wrapped (NetDNSError ''no such host'' False)])"
    by (simp add: default_deny_url_def url_hostname_def url_split_host_def to_lower_def lower_char_def Let_def)
qed (simp add: errors_is_def)

end
