(* ===== verification/Proxy_Allow.thy ===== *)
theory Proxy_Allow
  imports Ssrf
begin

text \<open>
  The endpoints of the configured proxies, which the dial guard lets through
  (\<^verbatim>\<open>src/proxy_allow.go\<close>). \<^verbatim>\<open>url.Parse\<close> is \<open>parse\<close> and the resolver is
  \<open>lookup\<close>. A nil pointer that is followed is a panic, the outer None of the operations on the
  set. \<^verbatim>\<open>apply\<close> reads the set, resolves the proxy without the lock, and commits with it:
  the two halves are two steps, between which other switches may commit.
\<close>

record proxy_endpoint =
  pe_addrs :: "netip_addr list"
  pe_port :: string

definition max_remembered_proxies :: nat where
  "max_remembered_proxies = 64"

definition endpoint_allows :: "netip_addr \<Rightarrow> string \<Rightarrow> proxy_endpoint \<Rightarrow> bool" where
  "endpoint_allows ip port e \<longleftrightarrow> (if port \<noteq> pe_port e then False else list_ex (\<lambda>a. a = ip) (pe_addrs e))"

definition default_proxy_port :: "string \<Rightarrow> string" where
  "default_proxy_port scheme =
     (let s = to_lower scheme
      in if s = ''https'' then ''443'' else if s = ''http'' then ''80'' else ''1080'')"

definition resolve_proxy_endpoint ::
    "(string \<Rightarrow> go_url option) \<Rightarrow> (string \<Rightarrow> go_error + netip_addr list) \<Rightarrow> string \<Rightarrow> proxy_endpoint option"
where
  "resolve_proxy_endpoint parse lookup raw =
     (if raw = [] then None
      else case parse raw of
        None \<Rightarrow> None
      | Some u \<Rightarrow>
          if url_hostname u = [] then None
          else let port = (if url_port u = [] then default_proxy_port (url_scheme u) else url_port u);
                   host = url_hostname u
               in case parse_addr host of
                    Some ip \<Rightarrow> Some \<lparr>pe_addrs = [addr_unmap ip], pe_port = port\<rparr>
                  | None \<Rightarrow>
                      (case lookup host of
                         Inl e \<Rightarrow> None
                       | Inr ips \<Rightarrow>
                           if ips = [] then None
                           else Some \<lparr>pe_addrs = map (\<lambda>ip. addr_unmap (without_zone ip)) ips, pe_port = port\<rparr>))"

record proxy_allowance =
  pa_order :: "string list"
  pa_entries :: "string \<Rightarrow> proxy_endpoint option"
  pa_snap :: "proxy_endpoint list option"

fun endpoints_of :: "(string \<Rightarrow> proxy_endpoint option) \<Rightarrow> string list \<Rightarrow> proxy_endpoint list option" where
  "endpoints_of m [] = Some []"
| "endpoints_of m (u # us) =
     (case m u of None \<Rightarrow> None | Some e \<Rightarrow> map_option (\<lambda>es. e # es) (endpoints_of m us))"

definition publish :: "proxy_allowance \<Rightarrow> proxy_allowance option" where
  "publish a = map_option (\<lambda>l. a\<lparr>pa_snap := Some l\<rparr>) (endpoints_of (pa_entries a) (pa_order a))"

function evict :: "string list \<Rightarrow> (string \<Rightarrow> proxy_endpoint option) \<Rightarrow> string list \<times> (string \<Rightarrow> proxy_endpoint option)" where
  "evict order m =
     (if max_remembered_proxies < length order then evict (tl order) (map_delete (hd order) m) else (order, m))"
  by auto
termination
  by (relation "measure (\<lambda>(order, m). length order)") auto

declare evict.simps [simp del]

text \<open>The loop that looks for the URL and cuts it out stops at its first occurrence, as
  \<open>remove1\<close> does.\<close>

definition remember :: "string \<Rightarrow> proxy_endpoint \<Rightarrow> proxy_allowance \<Rightarrow> proxy_allowance option" where
  "remember url ep a =
     (let order = remove1 url (pa_order a) @ [url];
          (order', m) = evict order ((pa_entries a)(url \<mapsto> ep))
      in publish (a\<lparr>pa_order := order', pa_entries := m\<rparr>))"

definition forget :: "string \<Rightarrow> proxy_allowance \<Rightarrow> proxy_allowance option" where
  "forget url a =
     publish (a\<lparr>pa_order := remove1 url (pa_order a), pa_entries := map_delete url (pa_entries a)\<rparr>)"

definition empty_allowance :: proxy_allowance where
  "empty_allowance = \<lparr>pa_order = [], pa_entries = (\<lambda>u. None), pa_snap = None\<rparr>"

definition new_proxy_allowance :: "(string \<Rightarrow> proxy_endpoint option) \<Rightarrow> string \<Rightarrow> proxy_allowance option" where
  "new_proxy_allowance resolve initial =
     (case resolve initial of None \<Rightarrow> Some empty_allowance | Some ep \<Rightarrow> remember initial ep empty_allowance)"

definition allowance_allows :: "proxy_allowance \<Rightarrow> string \<Rightarrow> bool" where
  "allowance_allows a address =
     (case split_host_port address of
        None \<Rightarrow> False
      | Some (host, port) \<Rightarrow>
          (case parse_addr host of
             None \<Rightarrow> False
           | Some ip \<Rightarrow>
               (case pa_snap a of
                  None \<Rightarrow> False
                | Some l \<Rightarrow> list_ex (endpoint_allows (addr_unmap (without_zone ip)) port) l)))"

definition allowance_wrap :: "proxy_allowance \<Rightarrow> dial_guard \<Rightarrow> dial_guard" where
  "allowance_wrap a inner network address =
     (if \<not> is_unix_network network \<and> allowance_allows a address then None else inner network address)"

definition apply_lookup :: "(string \<Rightarrow> proxy_endpoint option) \<Rightarrow> string \<Rightarrow> proxy_allowance \<Rightarrow> proxy_endpoint option" where
  "apply_lookup resolve url a = (case pa_entries a url of Some e \<Rightarrow> Some e | None \<Rightarrow> resolve url)"

text \<open>The half under the lock. The backend's \<open>set\<close> also sees the allowance, through the dials it
  makes.\<close>

definition apply_commit ::
    "(proxy_allowance \<Rightarrow> string \<Rightarrow> 'w \<Rightarrow> go_error option \<times> 'w) \<Rightarrow> string \<Rightarrow> proxy_endpoint option \<Rightarrow>
     proxy_allowance \<Rightarrow> 'w \<Rightarrow> (go_error option \<times> proxy_allowance \<times> 'w) option"
where
  "apply_commit set_proxy url ep a w =
     (let was_known = (pa_entries a url \<noteq> None)
      in case (case ep of None \<Rightarrow> Some a | Some e \<Rightarrow> remember url e a) of
           None \<Rightarrow> None
         | Some a1 \<Rightarrow>
             (case set_proxy a1 url w of
                (Some err, w1) \<Rightarrow>
                  if ep \<noteq> None \<and> \<not> was_known then map_option (\<lambda>a2. (Some err, a2, w1)) (forget url a1)
                  else Some (Some err, a1, w1)
              | (None, w1) \<Rightarrow> Some (None, a1, w1)))"

definition allowance_apply ::
    "(string \<Rightarrow> proxy_endpoint option) \<Rightarrow> (proxy_allowance \<Rightarrow> string \<Rightarrow> 'w \<Rightarrow> go_error option \<times> 'w) \<Rightarrow> string \<Rightarrow>
     proxy_allowance \<Rightarrow> 'w \<Rightarrow> (go_error option \<times> proxy_allowance \<times> 'w) option"
where
  "allowance_apply resolve set_proxy url a w = apply_commit set_proxy url (apply_lookup resolve url a) a w"

subsection \<open>The abstract set: the most recent distinct URLs\<close>

type_synonym recency_list = "(string \<times> proxy_endpoint) list"

definition lru_touch :: "string \<Rightarrow> proxy_endpoint \<Rightarrow> recency_list \<Rightarrow> recency_list" where
  "lru_touch u e xs =
     (let ys = filter (\<lambda>p. fst p \<noteq> u) xs @ [(u, e)] in drop (length ys - max_remembered_proxies) ys)"

definition lru_forget :: "string \<Rightarrow> recency_list \<Rightarrow> recency_list" where
  "lru_forget u xs = filter (\<lambda>p. fst p \<noteq> u) xs"

definition remembered :: "proxy_allowance \<Rightarrow> recency_list" where
  "remembered a = map (\<lambda>u. (u, the (pa_entries a u))) (pa_order a)"

definition allowance_ok :: "proxy_allowance \<Rightarrow> bool" where
  "allowance_ok a \<longleftrightarrow>
     distinct (pa_order a) \<and> set (pa_order a) = dom (pa_entries a) \<and>
     length (pa_order a) \<le> max_remembered_proxies \<and>
     (case pa_snap a of None \<Rightarrow> pa_order a = [] | Some l \<Rightarrow> l = map snd (remembered a))"

text \<open>All the states the set can reach: any proxy, any outcome of the lookup (made in an earlier
  state) and any backend, in any order.\<close>

inductive allowance_reach :: "(string \<Rightarrow> proxy_endpoint option) \<Rightarrow> string \<Rightarrow> proxy_allowance \<Rightarrow> bool"
  for resolve :: "string \<Rightarrow> proxy_endpoint option" and initial :: string where
  start: "new_proxy_allowance resolve initial = Some a \<Longrightarrow> allowance_reach resolve initial a"
| commit: "allowance_reach resolve initial a \<Longrightarrow>
     apply_commit (\<lambda>a1 u w. (r, w)) url ep a () = Some (r', a', w') \<Longrightarrow> allowance_reach resolve initial a'"

inductive_cases allowance_reach_cases: "allowance_reach resolve initial a"

subsection \<open>An instance for the witnesses: one private proxy\<close>

definition lan_endpoint :: proxy_endpoint where
  "lan_endpoint = \<lparr>pe_addrs = [Addr4 0x0A000001], pe_port = ''1080''\<rparr>"

definition lan_resolve :: "string \<Rightarrow> proxy_endpoint option" where
  "lan_resolve u = (if u = ''p'' then Some lan_endpoint else None)"

definition lan_allowance :: proxy_allowance where
  "lan_allowance = \<lparr>pa_order = [''p''], pa_entries = [''p'' \<mapsto> lan_endpoint], pa_snap = Some [lan_endpoint]\<rparr>"

lemma lan_start: "new_proxy_allowance lan_resolve ''p'' = Some lan_allowance"
  by (simp add: new_proxy_allowance_def lan_resolve_def lan_allowance_def remember_def empty_allowance_def evict.simps
      max_remembered_proxies_def publish_def)

lemma lan_reach: "allowance_reach lan_resolve ''p'' lan_allowance"
  by (rule allowance_reach.start [OF lan_start])

subsection \<open>The operations on a well-formed set\<close>

lemma endpoints_of_total:
  "set us \<subseteq> dom m \<Longrightarrow> endpoints_of m us = Some (map (\<lambda>u. the (m u)) us)"
  by (induction us) auto

lemma publish_ok:
  assumes "distinct (pa_order a)" "set (pa_order a) = dom (pa_entries a)"
    "length (pa_order a) \<le> max_remembered_proxies"
  shows "\<exists>a'. publish a = Some a' \<and> allowance_ok a' \<and> remembered a' = remembered a \<and>
           pa_order a' = pa_order a \<and> pa_entries a' = pa_entries a"
  using assms by (simp add: publish_def endpoints_of_total allowance_ok_def remembered_def)

lemma evict_spec:
  assumes "distinct order" "set order = dom m" "evict order m = (order', m')"
  shows "order' = drop (length order - max_remembered_proxies) order \<and> distinct order' \<and> set order' = dom m' \<and>
    (\<forall>u\<in>set order'. m' u = m u)"
  using assms
proof (induction order m arbitrary: order' m' rule: evict.induct)
  case (1 order m)
  show ?case
  proof (cases "max_remembered_proxies < length order")
    case False
    with 1 show ?thesis by (simp add: evict.simps)
  next
    case True
    then obtain u us where order: "order = u # us" by (cases order) auto
    have e: "evict us (map_delete u m) = (order', m')" using 1(4) True order by (simp add: evict.simps)
    have d: "distinct us" "set us = dom (map_delete u m)" using 1(2,3) order by auto
    have IH: "distinct us \<Longrightarrow> set us = dom (map_delete u m) \<Longrightarrow> evict us (map_delete u m) = (order', m') \<Longrightarrow>
      order' = drop (length us - max_remembered_proxies) us \<and> distinct order' \<and> set order' = dom m' \<and>
      (\<forall>x\<in>set order'. m' x = (map_delete u m) x)"
      using 1(1) [OF True, of order' m'] unfolding order list.sel by blast
    note * = IH [OF d e]
    have "set order' \<subseteq> set us" using * by (simp add: set_drop_subset)
    then have "u \<notin> set order'" using 1(2) order by auto
    moreover have "length order - max_remembered_proxies = Suc (length us - max_remembered_proxies)"
      using True order by simp
    ultimately show ?thesis using * order by auto
  qed
qed

lemma map_remove1_filter:
  "distinct us \<Longrightarrow> map f (remove1 u us) = map f (filter (\<lambda>x. x \<noteq> u) us)"
  by (simp add: distinct_remove1_removeAll removeAll_filter_not_eq eq_commute)

lemma filter_remembered:
  "filter (\<lambda>p. fst p \<noteq> u) (map (\<lambda>x. (x, g x)) us) = map (\<lambda>x. (x, g x)) (filter (\<lambda>x. x \<noteq> u) us)"
  by (induction us) auto

lemma remember_refines:
  assumes "allowance_ok a"
  shows "\<exists>a'. remember u e a = Some a' \<and> allowance_ok a' \<and> remembered a' = lru_touch u e (remembered a)"
proof -
  let ?order = "remove1 u (pa_order a) @ [u]" and ?m = "(pa_entries a)(u \<mapsto> e)"
  obtain order' m' where ev: "evict ?order ?m = (order', m')" by fastforce
  have d: "distinct (pa_order a)" and s: "set (pa_order a) = dom (pa_entries a)"
    using assms by (simp_all add: allowance_ok_def)
  have "distinct ?order" "set ?order = dom ?m" using d s by auto
  from evict_spec [OF this ev] have o': "order' = drop (length ?order - max_remembered_proxies) ?order"
    "distinct order'" "set order' = dom m'" "\<forall>x\<in>set order'. m' x = ?m x" by blast+
  let ?a = "a\<lparr>pa_order := order', pa_entries := m'\<rparr>"
  have "length order' \<le> max_remembered_proxies" using o'(1) by simp
  then obtain a' where a': "publish ?a = Some a'" "allowance_ok a'" "remembered a' = remembered ?a"
    using publish_ok [of ?a] o' by auto
  have "remembered ?a = map (\<lambda>x. (x, the (?m x))) order'"
    using o'(4) by (simp add: remembered_def del: fun_upd_apply)
  also have "\<dots> = drop (length ?order - max_remembered_proxies) (map (\<lambda>x. (x, the (?m x))) ?order)"
    by (simp only: o'(1) drop_map)
  also have "map (\<lambda>x. (x, the (?m x))) ?order = filter (\<lambda>p. fst p \<noteq> u) (remembered a) @ [(u, e)]"
    by (simp add: remembered_def filter_remembered map_remove1_filter [OF d])
  finally have "remembered ?a = lru_touch u e (remembered a)"
    using arg_cong [OF \<open>map (\<lambda>x. (x, the (?m x))) ?order = _\<close>, of length] by (simp add: lru_touch_def Let_def)
  moreover have "remember u e a = Some a'" using a'(1) ev by (simp add: remember_def)
  ultimately show ?thesis using a' by auto
qed

lemma length_remove1_le: "length (remove1 x xs) \<le> length xs"
  by (induction xs) auto

lemma forget_refines:
  assumes "allowance_ok a"
  shows "\<exists>a'. forget u a = Some a' \<and> allowance_ok a' \<and> remembered a' = lru_forget u (remembered a)"
proof -
  have d: "distinct (pa_order a)" "set (pa_order a) = dom (pa_entries a)" "length (pa_order a) \<le> max_remembered_proxies"
    using assms by (simp_all add: allowance_ok_def)
  let ?a = "a\<lparr>pa_order := remove1 u (pa_order a), pa_entries := map_delete u (pa_entries a)\<rparr>"
  have "remembered ?a = lru_forget u (remembered a)"
    by (simp add: remembered_def lru_forget_def filter_remembered map_remove1_filter [OF d(1)])
  moreover have "\<exists>a'. publish ?a = Some a' \<and> allowance_ok a' \<and> remembered a' = remembered ?a"
    using publish_ok [of ?a] d le_trans [OF length_remove1_le d(3)] by auto
  ultimately show ?thesis by (auto simp: forget_def)
qed

lemma empty_ok [simp]: "allowance_ok empty_allowance" "remembered empty_allowance = []"
  by (simp_all add: empty_allowance_def allowance_ok_def remembered_def)

definition commit_spec :: "string \<Rightarrow> proxy_endpoint option \<Rightarrow> bool \<Rightarrow> recency_list \<Rightarrow> recency_list" where
  "commit_spec url ep failed xs =
     (case ep of None \<Rightarrow> xs
      | Some e \<Rightarrow> if failed \<and> url \<notin> fst ` set xs then lru_forget url (lru_touch url e xs) else lru_touch url e xs)"

lemma known_iff: "allowance_ok a \<Longrightarrow> pa_entries a url \<noteq> None \<longleftrightarrow> url \<in> fst ` set (remembered a)"
  by (auto simp: allowance_ok_def remembered_def image_iff)

lemma commit_refines:
  assumes "allowance_ok a"
  shows "\<exists>r a' w'. apply_commit set_proxy url ep a w = Some (r, a', w') \<and> allowance_ok a' \<and>
     remembered a' = commit_spec url ep (r \<noteq> None) (remembered a)"
proof (cases ep)
  case None
  then show ?thesis using assms
    by (auto simp: apply_commit_def commit_spec_def split: option.split prod.split)
next
  case (Some e)
  obtain a1 where a1: "remember url e a = Some a1" "allowance_ok a1" "remembered a1 = lru_touch url e (remembered a)"
    using remember_refines [OF assms] by blast
  obtain a2 where a2: "forget url a1 = Some a2" "allowance_ok a2" "remembered a2 = lru_forget url (remembered a1)"
    using forget_refines [OF a1(2)] by blast
  show ?thesis using Some a1 a2 known_iff [OF assms, of url]
    by (auto simp: apply_commit_def commit_spec_def Let_def split: option.split prod.split)
qed

lemma new_allowance_ok:
  "\<exists>a. new_proxy_allowance resolve initial = Some a \<and> allowance_ok a"
  using remember_refines [OF empty_ok(1)] by (auto simp: new_proxy_allowance_def split: option.split)

lemma reach_ok: "allowance_reach resolve initial a \<Longrightarrow> allowance_ok a"
proof (induction rule: allowance_reach.induct)
  case (start a)
  with new_allowance_ok [of resolve initial] show ?case by auto
next
  case (commit a r url ep r' a' w')
  with commit_refines [OF commit.IH, of "\<lambda>a1 u w. (r, w)" url ep "()"] show ?case by auto
qed

lemma allows_iff:
  assumes "allowance_ok a"
  shows "allowance_allows a address \<longleftrightarrow>
    (\<exists>host port ip u e. split_host_port address = Some (host, port) \<and> parse_addr host = Some ip \<and>
       (u, e) \<in> set (remembered a) \<and> pe_port e = port \<and> addr_unmap (without_zone ip) \<in> set (pe_addrs e))"
proof -
  have "(case pa_snap a of None \<Rightarrow> False | Some l \<Rightarrow> list_ex P l) \<longleftrightarrow> (\<exists>u e. (u, e) \<in> set (remembered a) \<and> P e)" for P
    using assms by (auto simp: allowance_ok_def remembered_def list_ex_iff split: option.splits)
  then show ?thesis
    by (auto simp: allowance_allows_def endpoint_allows_def list_ex_iff split: option.splits)
qed

text \<open>C14: in every state the set can reach, by any interleaving of switches with any results of their
  lookups and any outcomes of the backend, no operation follows a nil pointer, the URLs are distinct
  and at most 64, the map holds exactly them, and the published snapshot is their endpoints, oldest
  first; the next commit keeps this.\<close>

theorem allowance_invariant:
  assumes "allowance_reach resolve initial a"
  shows "allowance_ok a \<and> apply_commit set_proxy url ep a w \<noteq> None \<and> forget url a \<noteq> None"
  using reach_ok [OF assms] commit_refines [of a set_proxy url ep w] forget_refines [of a url] by auto

theorem allowance_invariant_witness:
  "allowance_ok lan_allowance \<and> apply_commit (\<lambda>a u w. (None, w)) ''q'' (Some lan_endpoint) lan_allowance () \<noteq> None \<and>
   forget ''q'' lan_allowance \<noteq> None"
  using allowance_invariant [OF lan_reach, where set_proxy = "\<lambda>a u w. (None, w)" and url = "''q''" and
      ep = "Some lan_endpoint" and w = "()"] .

text \<open>C13: the set implements a recency list. A switch moves its proxy to the end and keeps the last
  64 distinct ones; a switch the backend refuses takes a proxy that was not known before out again;
  a proxy without an endpoint changes nothing. It never panics.\<close>

theorem switch_refines_recency_list:
  assumes "allowance_ok a"
  shows "case allowance_apply resolve set_proxy url a w of
           None \<Rightarrow> False
         | Some (r, a', w') \<Rightarrow> allowance_ok a' \<and>
             remembered a' = commit_spec url (apply_lookup resolve url a) (r \<noteq> None) (remembered a)"
proof -
  obtain r a' w' where "apply_commit set_proxy url (apply_lookup resolve url a) a w = Some (r, a', w')" "allowance_ok a'"
    "remembered a' = commit_spec url (apply_lookup resolve url a) (r \<noteq> None) (remembered a)"
    using commit_refines [OF assms, of set_proxy url "apply_lookup resolve url a" w] by blast
  then show ?thesis by (simp add: allowance_apply_def)
qed

theorem switch_refines_recency_list_witness:
  "remembered lan_allowance = [(''p'', lan_endpoint)] \<and>
   (case allowance_apply lan_resolve (\<lambda>a u w. (None, w)) ''p'' lan_allowance () of
      None \<Rightarrow> False
    | Some (r, a', w') \<Rightarrow> allowance_ok a' \<and> remembered a' = [(''p'', lan_endpoint)])"
proof -
  have "remembered lan_allowance = [(''p'', lan_endpoint)]" by (simp add: remembered_def lan_allowance_def)
  moreover have "apply_lookup lan_resolve ''p'' lan_allowance = Some lan_endpoint"
    by (simp add: apply_lookup_def lan_allowance_def)
  ultimately show ?thesis
    using switch_refines_recency_list [OF reach_ok [OF lan_reach], where resolve = lan_resolve and
        set_proxy = "\<lambda>a u w. (None, w)" and url = "''p''" and w = "()"]
    by (auto simp: commit_spec_def lru_touch_def max_remembered_proxies_def split: option.splits)
qed

text \<open>C15: the wrapped guard passes a dial exactly when the inner guard does or when the address is a
  remembered proxy's, in its port and one of the addresses it had when it was configured; and a
  switch that fails for an unknown proxy adds no address to that set, while one that succeeds with an
  endpoint lets its own addresses through.\<close>

theorem wrapped_guard_exact:
  assumes "allowance_ok a"
  shows "(allowance_wrap a inner network address = None \<longleftrightarrow>
     inner network address = None \<or>
     \<not> is_unix_network network \<and>
     (\<exists>host port ip u e. split_host_port address = Some (host, port) \<and> parse_addr host = Some ip \<and>
        (u, e) \<in> set (remembered a) \<and> pe_port e = port \<and> addr_unmap (without_zone ip) \<in> set (pe_addrs e))) \<and>
     (url \<notin> fst ` set (remembered a) \<longrightarrow> set (commit_spec url ep True (remembered a)) \<subseteq> set (remembered a)) \<and>
     (url, e) \<in> set (commit_spec url (Some e) False (remembered a))"
proof (intro conjI impI)
  show "allowance_wrap a inner network address = None \<longleftrightarrow>
     inner network address = None \<or>
     \<not> is_unix_network network \<and>
     (\<exists>host port ip u e. split_host_port address = Some (host, port) \<and> parse_addr host = Some ip \<and>
        (u, e) \<in> set (remembered a) \<and> pe_port e = port \<and> addr_unmap (without_zone ip) \<in> set (pe_addrs e))"
    unfolding allowance_wrap_def allows_iff [OF assms] by auto
  show "set (commit_spec url ep True (remembered a)) \<subseteq> set (remembered a)" if "url \<notin> fst ` set (remembered a)"
    using that by (auto simp: commit_spec_def lru_forget_def lru_touch_def Let_def dest: in_set_dropD split: option.splits)
  show "(url, e) \<in> set (commit_spec url (Some e) False (remembered a))"
    by (auto simp: commit_spec_def lru_touch_def Let_def max_remembered_proxies_def)
qed

theorem wrapped_guard_exact_witness:
  "allowance_wrap lan_allowance (default_deny_dial (\<lambda>ip. [])) ''tcp'' ''10.0.0.1:1080'' = None \<and>
   default_deny_dial (\<lambda>ip. []) ''tcp'' ''10.0.0.1:1080'' \<noteq> None \<and>
   set (commit_spec ''q'' (Some lan_endpoint) True [(''p'', lan_endpoint)]) \<subseteq> {(''p'', lan_endpoint)}"
proof -
  note ok = reach_ok [OF lan_reach]
  have r: "remembered lan_allowance = [(''p'', lan_endpoint)]" by (simp add: remembered_def lan_allowance_def)
  have "split_host_port ''10.0.0.1:1080'' = Some (''10.0.0.1'', ''1080'')" by code_simp
  moreover have "parse_addr ''10.0.0.1'' = Some (Addr4 0x0A000001)" by code_simp
  moreover have "\<not> is_unix_network ''tcp''" by (simp add: is_unix_network_def)
  ultimately have "allowance_wrap lan_allowance (default_deny_dial (\<lambda>ip. [])) ''tcp'' ''10.0.0.1:1080'' = None"
    using wrapped_guard_exact [OF ok, of "default_deny_dial (\<lambda>ip. [])" "''tcp''" "''10.0.0.1:1080''"] r
    by (simp add: lan_endpoint_def)
  moreover have "default_deny_dial (\<lambda>ip. []) ''tcp'' ''10.0.0.1:1080'' \<noteq> None" by code_simp
  ultimately show ?thesis
    using wrapped_guard_exact [OF ok, where url = "''q''" and ep = "Some lan_endpoint"] r by simp
qed

text \<open>A failed switch to a new proxy when the set is full loses the oldest proxy for good.\<close>

lemma failed_switch_evicts_oldest:
  assumes "length xs = max_remembered_proxies" "url \<notin> fst ` set xs"
  shows "commit_spec url (Some e) True xs = tl xs"
proof -
  have f: "filter (\<lambda>p. fst p \<noteq> url) xs = xs" using assms(2) by (auto simp: filter_id_conv)
  have "drop (length (xs @ [(url, e)]) - max_remembered_proxies) (xs @ [(url, e)]) = tl xs @ [(url, e)]"
    using assms(1) by (cases xs) (auto simp: max_remembered_proxies_def)
  moreover have "filter (\<lambda>p. fst p \<noteq> url) (tl xs) = tl xs" 
    using assms(2) by (cases xs) (auto simp: filter_id_conv image_iff)
  ultimately show ?thesis using assms(2) f by (simp add: commit_spec_def lru_forget_def lru_touch_def)
qed

text \<open>A proxy given as an address with a zone is remembered with the zone, which the check of a dial
  has removed, so it never matches.\<close>

lemma zoned_proxy_never_allowed:
  "pe_addrs e = [addr_unmap (Addr6 b (z # zs))] \<Longrightarrow> \<not> is_mapped b \<Longrightarrow>
     \<not> endpoint_allows (addr_unmap (without_zone ip)) port e"
  by (cases ip) (auto simp: endpoint_allows_def)

end
