(* ===== verification/Middleware.thy ===== *)
theory Middleware
  imports Retry Domain_Limit Profile "HOL-Library.Monad_Syntax"
begin

text \<open>
  Requests, responses, handlers and the built-in middlewares (\<^verbatim>\<open>src/middleware.go\<close>,
  \<^verbatim>\<open>middleware_builtin.go\<close>). A handler gets the request and a world and returns the
  pair of the Go function, the request as it has been changed, and the world. The outer None
  is a handler that does not return: a nil pointer was followed, or a wait never ended. The
  headers of a request are the caller's own map unless they were nil or have been replaced,
  so a change of them is a change of that map.
\<close>

record http_request =
  rq_method :: string
  rq_url :: string
  rq_headers :: "header_map option"
  rq_body :: "string option"
  rq_order :: "string list"

record http_response =
  rs_body :: string
  rs_headers :: header_map
  rs_status :: int

type_synonym http_result = "http_response option \<times> go_error option"
type_synonym 'w handler = "http_request \<Rightarrow> 'w \<Rightarrow> (http_result \<times> http_request \<times> 'w) option"
type_synonym 'w middleware = "'w handler \<Rightarrow> 'w handler"

definition header_get :: "http_request \<Rightarrow> string \<Rightarrow> string" where
  "header_get q k = (case rq_headers q of None \<Rightarrow> [] | Some h \<Rightarrow> lookup_str h k)"

definition header_set :: "string \<Rightarrow> string \<Rightarrow> http_request \<Rightarrow> http_request" where
  "header_set k v q =
     q\<lparr>rq_headers := Some ((case rq_headers q of None \<Rightarrow> (\<lambda>k. None) | Some h \<Rightarrow> h)(k \<mapsto> v))\<rparr>"

text \<open>\<^verbatim>\<open>Chain\<close>: the loop wraps from the last middleware to the first.\<close>

fun chain_from :: "'w middleware list \<Rightarrow> nat \<Rightarrow> 'w handler \<Rightarrow> 'w handler" where
  "chain_from ms 0 final = final"
| "chain_from ms (Suc i) final = chain_from ms i ((ms ! i) final)"

definition chain :: "'w middleware list \<Rightarrow> 'w middleware" where
  "chain ms final = chain_from ms (length ms) final"

subsection \<open>Built-in middlewares\<close>

definition logging_middleware :: "'w middleware" where
  "logging_middleware next q w = do {
     ((resp, err), q1, w1) \<leftarrow> next q w;
     if err \<noteq> None then Some ((resp, err), q1, w1)
     else if resp = None then None
     else Some ((resp, None), q1, w1) }"

text \<open>The retry loop over the handler. Its world is the request and the world of the handler
  with a flag that is set when the handler did not return; the error returned then is not
  retryable, so the loop stops at once.\<close>

type_synonym 'w retry_state = "(http_request \<times> 'w) \<times> bool"

definition lift_world :: "'w retry_world \<Rightarrow> 'w retry_state retry_world" where
  "lift_world env =
     \<lparr>rw_ctx_err = (\<lambda>((q, w), p). let (r, w') = rw_ctx_err env w in (r, ((q, w'), p))),
      rw_sleep = (\<lambda>d ((q, w), p). let (b, w') = rw_sleep env d w in (b, ((q, w'), p))),
      rw_rand = (\<lambda>((q, w), p). let (u, w') = rw_rand env w in (u, ((q, w'), p))),
      rw_hook = map_option (\<lambda>hook i n e ((q, w), p). ((q, hook i n e w), p)) (rw_hook env),
      rw_ovf = rw_ovf env\<rparr>"

definition retry_attempt :: "'w handler \<Rightarrow> 'w retry_state \<Rightarrow> (go_error + http_response option) \<times> 'w retry_state" where
  "retry_attempt next s =
     (let ((q, w), p) = s; panicked = (Inl (ErrText ''panic''), ((q, w), True))
      in case next q w of
           None \<Rightarrow> panicked
         | Some ((resp, err), q1, w1) \<Rightarrow>
             (case err of
                Some e \<Rightarrow> (Inl e, ((q1, w1), p))
              | None \<Rightarrow>
                  (case resp of
                     None \<Rightarrow> panicked
                   | Some r \<Rightarrow>
                       if is_retryable_status (rs_status r) then (Inl (HttpStatusError (rs_status r)), ((q1, w1), p))
                       else (Inr resp, ((q1, w1), p)))))"

definition retry_middleware_with_context :: "'w retry_world \<Rightarrow> retry_config \<Rightarrow> 'w middleware" where
  "retry_middleware_with_context env cfg next q w =
     (case retry_do (lift_world env) cfg None (retry_attempt next) ((q, w), False) of
        (r, ((q1, w1), panicked)) \<Rightarrow>
          if panicked then None
          else Some ((case r of Inl e \<Rightarrow> (None, Some e) | Inr resp \<Rightarrow> (resp, None)), q1, w1))"

text \<open>The background context has no hook and is never cancelled.\<close>

definition background :: "'w retry_world \<Rightarrow> 'w retry_world" where
  "background env =
     env\<lparr>rw_ctx_err := (\<lambda>w. (None, w)), rw_sleep := (\<lambda>d w. (True, snd (rw_sleep env d w))), rw_hook := None\<rparr>"

definition retry_middleware :: "'w retry_world \<Rightarrow> retry_config \<Rightarrow> 'w middleware" where
  "retry_middleware env cfg = retry_middleware_with_context (background env) cfg"

text \<open>\<^verbatim>\<open>parseRetryAfterValue\<close>: the digits are added up in an int, which wraps.\<close>

fun digits_wrap :: "int \<Rightarrow> string \<Rightarrow> int" where
  "digits_wrap n [] = n"
| "digits_wrap n (c # cs) = (if is_digit c then digits_wrap (wrap64 (wrap64 (n * 10) + int (digit_val c))) cs else -1)"

definition parse_retry_after_value :: "(string \<Rightarrow> string \<Rightarrow> time option) \<Rightarrow> time \<Rightarrow> string \<Rightarrow> duration" where
  "parse_retry_after_value parse_date now val =
     (let seconds = digits_wrap 0 val
      in if 0 < seconds then wrap64 (seconds * second)
         else case first_date parse_date retry_after_layouts val of
                Some t \<Rightarrow> if 0 < time_sub t now then time_sub t now else 0
              | None \<Rightarrow> 30 * second)"

text \<open>The limiter as the middleware uses it: \<^verbatim>\<open>Wait\<close> (None while it has not returned)
  and \<^verbatim>\<open>MarkRateLimited\<close>, and the clock.\<close>

record 'w limiter_ops =
  lo_wait :: "string \<Rightarrow> 'w \<Rightarrow> (go_error option \<times> 'w) option"
  lo_mark :: "string \<Rightarrow> time \<Rightarrow> 'w \<Rightarrow> 'w"
  lo_now :: "'w \<Rightarrow> time \<times> 'w"

definition rate_limit_middleware :: "(string \<Rightarrow> string \<Rightarrow> time option) \<Rightarrow> 'w limiter_ops \<Rightarrow> 'w middleware" where
  "rate_limit_middleware parse_date ops next q w = do {
     (werr, w1) \<leftarrow> lo_wait ops (rq_url q) w;
     if werr \<noteq> None then Some ((None, werr), q, w1)
     else do {
       ((resp, err), q1, w2) \<leftarrow> next q w1;
       if err \<noteq> None then Some ((resp, err), q1, w2)
       else do {
         r \<leftarrow> resp;
         let ra = lookup_str (rs_headers r) ''retry-after'';
         if rs_status r = 429 \<and> ra \<noteq> [] then do {
           let (now, w3) = lo_now ops w2;
           let (now', w4) = lo_now ops w3;
           Some ((resp, None), q1, lo_mark ops (rq_url q1) (now + parse_retry_after_value parse_date now' ra) w4) }
         else Some ((resp, None), q1, w2) } } }"

text \<open>The limiter of \<^verbatim>\<open>src/ratelimit/domain.go\<close> behind that interface. The world
  holds the limiter, the turns each coming wait will take and the coming readings of the clock.\<close>

record limiter_world =
  lw_limiter :: domain_limiter
  lw_waits :: "wait_turn list list"
  lw_clock :: "nat \<Rightarrow> time"
  lw_ticks :: nat

definition domain_limiter_ops :: "url_parser \<Rightarrow> limiter_world limiter_ops" where
  "domain_limiter_ops parse =
     \<lparr>lo_wait = (\<lambda>u w.
        (case lw_waits w of
           [] \<Rightarrow> None
         | turns # rest \<Rightarrow>
             (case domain_wait parse u turns (lw_limiter w) of
                (None, dl) \<Rightarrow> None
              | (Some ok, dl) \<Rightarrow> Some (if ok then None else Some ErrCanceled, w\<lparr>lw_limiter := dl, lw_waits := rest\<rparr>)))),
      lo_mark = (\<lambda>u until w.
        w\<lparr>lw_limiter := domain_mark_rate_limited parse u until (lw_clock w (lw_ticks w)) (lw_limiter w),
          lw_ticks := lw_ticks w + 1\<rparr>),
      lo_now = (\<lambda>w. (lw_clock w (lw_ticks w), w\<lparr>lw_ticks := lw_ticks w + 1\<rparr>))\<rparr>"

text \<open>\<^verbatim>\<open>RateLimitMiddleware\<close> itself waits on the background context, which is never cancelled.\<close>

definition background_limiter_ops :: "url_parser \<Rightarrow> limiter_world limiter_ops" where
  "background_limiter_ops parse =
     (domain_limiter_ops parse)\<lparr>lo_wait := (\<lambda>u w.
        lo_wait (domain_limiter_ops parse) u
          (w\<lparr>lw_waits := map (map (\<lambda>t. t\<lparr>wt_cancelled := False\<rparr>)) (lw_waits w)\<rparr>))\<rparr>"

definition rate_limit_middleware_background ::
    "(string \<Rightarrow> string \<Rightarrow> time option) \<Rightarrow> url_parser \<Rightarrow> limiter_world middleware"
where
  "rate_limit_middleware_background parse_date parse = rate_limit_middleware parse_date (background_limiter_ops parse)"

definition client_hints_middleware :: "'w middleware" where
  "client_hints_middleware next q w =
     (case rq_headers q of
        None \<Rightarrow> next q w
      | Some h \<Rightarrow>
          let ua0 = lookup_str h ''user-agent'';
              ua = (if ua0 = [] then lookup_str h ''User-Agent'' else ua0)
          in if ua = [] then next q w
             else case client_hints_headers ua of
                    None \<Rightarrow> next q w
                  | Some hints \<Rightarrow> next (q\<lparr>rq_headers := Some (hints ++ h)\<rparr>) w)"

subsection \<open>Facts\<close>

lemma chain_from_take: "i \<le> length ms \<Longrightarrow> chain_from ms i h = foldr (\<lambda>m h. m h) (take i ms) h"
  by (induction i arbitrary: h) (simp_all add: take_Suc_conv_app_nth)

lemma chain_foldr: "chain ms h = foldr (\<lambda>m h. m h) ms h"
  by (simp add: chain_def chain_from_take)

lemma chain_simps [simp]:
  "chain [] h = h"
  "chain (m # ms) h = m (chain ms h)"
  by (simp_all add: chain_foldr)

lemma chain_append: "chain (ms @ ns) h = chain ms (chain ns h)"
  by (simp add: chain_foldr)

lemma header_set_get [simp]: "header_get (header_set k v q) k' = (if k' = k then v else header_get q k')"
  by (simp add: header_get_def header_set_def lookup_str_def split: option.split)

lemma header_set_fields [simp]:
  "rq_url (header_set k v q) = rq_url q" "rq_method (header_set k v q) = rq_method q"
  "rq_body (header_set k v q) = rq_body q" "rq_order (header_set k v q) = rq_order q"
  by (simp_all add: header_set_def)

text \<open>A retry middleware with a negative bound returns nil and no error without calling the
  handler, and a middleware around it follows that nil pointer.\<close>

lemma negative_retries_panic:
  assumes "rc_max_retries cfg < 0"
  shows "logging_middleware (retry_middleware env cfg h) q w = None"
proof -
  have "retry_do (lift_world (background env)) cfg None (retry_attempt h) ((q, w), False) = (Inr None, ((q, w), False))"
    using assms by (simp add: retry_do_def retry_do_reset_def)
  then show ?thesis
    by (simp add: logging_middleware_def retry_middleware_def retry_middleware_with_context_def)
qed

text \<open>The two parsers of Retry-After disagree on the value 0.\<close>

lemma retry_after_zero:
  "parse_retry_after_value (\<lambda>l s. None) now ''0'' = 30 * second"
  "parse_retry_after (\<lambda>l s. None) now ''0'' = 0"
proof -
  have f: "first_date (\<lambda>l s. None) ls v = None" for ls v by (induction ls) auto
  have "digits_wrap 0 ''0'' = 0" by code_simp
  then show "parse_retry_after_value (\<lambda>l s. None) now ''0'' = 30 * second"
    by (simp add: parse_retry_after_value_def f)
  have "atoi ''0'' = Some 0" by code_simp
  then show "parse_retry_after (\<lambda>l s. None) now ''0'' = 0" by (simp add: parse_retry_after_def f)
qed

text \<open>The seconds of a Retry-After times a second wrap around, to a wait that is over before it begins.\<close>

lemma retry_after_overflow: "parse_retry_after_value parse_date now ''9223372037'' < 0"
proof -
  have d: "digits_wrap 0 ''9223372037'' = 9223372037" by code_simp
  show ?thesis unfolding parse_retry_after_value_def d by code_simp
qed

end
