(* ===== verification/Cloudflare.thy ===== *)
theory Cloudflare
  imports Middleware
begin

text \<open>
  Cloudflare challenges: their detection and the middlewares around it
  (\<^verbatim>\<open>src/cloudflare.go\<close>, \<^verbatim>\<open>middleware_oxbrowser.go\<close>), the client of the
  ox-browser service (\<^verbatim>\<open>oxbrowser.go\<close>) and the two cookie providers
  (\<^verbatim>\<open>solver_byparr.go\<close>, \<^verbatim>\<open>solver_oxbrowser.go\<close>). The network, the clock and
  the JSON codec are parameters; a provider is a record of operations on a world, and what the
  middleware relies on is the locale \<open>cookie_provider\<close>, interpreted on both providers.
\<close>

subsection \<open>Detection\<close>

definition challenge_kind :: "int \<Rightarrow> challenge_type" where
  "challenge_kind status = (if status = 200 then ChallengeManagedAt200 else ChallengeJS)"

definition detect_cloudflare :: "http_response \<Rightarrow> cloudflare_error option" where
  "detect_cloudflare r =
     (let server = to_lower (lookup_str (rs_headers r) ''server'');
          body = to_lower (rs_body r);
          ray = lookup_str (rs_headers r) ''cf-ray'';
          mitigated = to_lower (lookup_str (rs_headers r) ''cf-mitigated'');
          found = (\<lambda>t. Some \<lparr>cf_type = t, cf_status = rs_status r, cf_ray = ray\<rparr>)
      in if \<not> str_contains server ''cloudflare'' then None
         else if str_contains body ''you have been blocked'' \<or> str_contains body ''cf-error-details'' \<or>
                 str_contains body (''cf-error-code'' @ [CHR 0x22] @ ''>1020'') then found ChallengeBlock
         else if str_contains mitigated ''challenge'' then found (challenge_kind (rs_status r))
         else if str_contains body ''turnstile-wrapper'' \<or> str_contains body ''cf-turnstile'' then found ChallengeTurnstile
         else if str_contains body ''challenge-platform'' \<or> str_contains body ''_cf_chl_opt''
              then found (challenge_kind (rs_status r))
         else None)"

definition cloudflare_detect_middleware :: "'w middleware" where
  "cloudflare_detect_middleware next q w = do {
     ((resp, err), q1, w1) \<leftarrow> next q w;
     if err \<noteq> None then Some ((resp, err), q1, w1)
     else do {
       r \<leftarrow> resp;
       Some ((resp, map_option CloudflareErr (detect_cloudflare r)), q1, w1) } }"

subsection \<open>Cookies\<close>

record 'w cookie_ops =
  cp_get :: "string \<Rightarrow> 'w \<Rightarrow> string \<times> 'w"
  cp_solve :: "string \<Rightarrow> cloudflare_error option \<Rightarrow> 'w \<Rightarrow> (go_error + string) \<times> 'w"

definition append_cookie :: "string \<Rightarrow> string \<Rightarrow> string" where
  "append_cookie existing new = (if existing = [] then new else existing @ ''; '' @ new)"

definition inject_cookie :: "string \<Rightarrow> http_request \<Rightarrow> http_request" where
  "inject_cookie cookie q =
     (if cookie = [] then q else header_set ''cookie'' (append_cookie (header_get q ''cookie'') cookie) q)"

definition cloudflare_cookie_middleware :: "url_parser \<Rightarrow> 'w cookie_ops \<Rightarrow> 'w middleware" where
  "cloudflare_cookie_middleware parse ops next q w =
     (let domain = extract_host parse (rq_url q);
          (cookie, w1) = cp_get ops domain w
      in do {
        ((resp, err), q2, w2) \<leftarrow> next (inject_cookie cookie q) w1;
        if err \<noteq> None then Some ((resp, err), q2, w2)
        else do {
          r \<leftarrow> resp;
          case detect_cloudflare r of
            None \<Rightarrow> Some ((resp, None), q2, w2)
          | Some cf \<Rightarrow>
              (case cp_solve ops domain (Some cf) w2 of
                 (Inl e, w3) \<Rightarrow>
                   Some ((resp, Some (ErrFmt [Wrapped (CloudflareErr cf), Lit '': solve failed: '', Wrapped e])), q2, w3)
               | (Inr c, w3) \<Rightarrow>
                   if c = [] then Some ((resp, Some (CloudflareErr cf)), q2, w3)
                   else next (header_set ''cookie'' c q2) w3) } })"

subsection \<open>The ox-browser client\<close>

text \<open>\<open>'p\<close> is the type of proxy functions and \<open>'t\<close> that of other transports; the secret
  transport comes from a library. A transport \<^verbatim>\<open>nil\<close> is the default one.\<close>

datatype ('p, 't) ox_transport = DefaultTransport | ProxyTransport 'p | OtherTransport 't

record ('p, 't) ox_client =
  oc_base_url :: string
  oc_transport :: "('p, 't) ox_transport"
  oc_timeout :: duration

definition ox_auth_transport ::
    "(('p, 't) ox_transport \<Rightarrow> string \<Rightarrow> go_error + ('p, 't) ox_transport) \<Rightarrow> ('p, 't) ox_transport \<Rightarrow> string \<Rightarrow> ('p, 't) ox_transport"
where
  "ox_auth_transport from_env base url = (case from_env base url of Inl e \<Rightarrow> base | Inr t \<Rightarrow> t)"

definition new_ox_browser_client ::
    "(('p, 't) ox_transport \<Rightarrow> string \<Rightarrow> go_error + ('p, 't) ox_transport) \<Rightarrow> string \<Rightarrow> ('p, 't) ox_client"
where
  "new_ox_browser_client from_env url =
     \<lparr>oc_base_url = url, oc_transport = ox_auth_transport from_env DefaultTransport url, oc_timeout = 60 * second\<rparr>"

definition new_ox_browser_client_with_proxy :: "string \<Rightarrow> 'p \<Rightarrow> ('p, 't) ox_client" where
  "new_ox_browser_client_with_proxy url proxy_fn =
     \<lparr>oc_base_url = url, oc_transport = ProxyTransport proxy_fn, oc_timeout = 60 * second\<rparr>"

record solve_response =
  sr_status :: string
  sr_cookies :: "string \<Rightarrow> string option"
  sr_error :: string

record fetch_smart_response =
  fs_status :: int
  fs_body :: string
  fs_method :: string
  fs_cf_detected :: bool
  fs_elapsed_ms :: int
  fs_error :: string

record analyze_tech =
  tech_name :: string
  tech_categories :: "string list"
  tech_confidence :: int
  tech_version :: "string option"

record analyze_response =
  ar_url :: string
  ar_status :: int
  ar_technologies :: "analyze_tech list"
  ar_error :: string

text \<open>The outside of the clients: building a request, sending it through a transport (an error,
  or a status with the result of reading the body), the clock, and the JSON codec.\<close>

datatype json_value = JStr string | JInt int

record ('t, 'n) solver_net =
  sn_build :: "string \<Rightarrow> go_error option"
  sn_send :: "'t \<Rightarrow> string \<Rightarrow> string \<Rightarrow> 'n \<Rightarrow> (go_error + int \<times> (go_error + string)) \<times> 'n"
  sn_now :: "'n \<Rightarrow> time \<times> 'n"
  sn_marshal :: "(string \<times> json_value) list \<Rightarrow> go_error + string"

definition wrap_err :: "string \<Rightarrow> go_error \<Rightarrow> go_error" where
  "wrap_err s e = ErrFmt [Lit s, Wrapped e]"

definition ox_post ::
    "(('p, 't) ox_transport, 'n) solver_net \<Rightarrow> ('p, 't) ox_client \<Rightarrow> string \<Rightarrow> string \<Rightarrow> (string \<Rightarrow> go_error + 'a) \<Rightarrow> 'n \<Rightarrow>
     (go_error + 'a) \<times> 'n"
where
  "ox_post net c path body decode n =
     (case sn_build net (oc_base_url c @ path) of
        Some e \<Rightarrow> (Inl (wrap_err ''ox-browser: build request: '' e), n)
      | None \<Rightarrow>
          (case sn_send net (oc_transport c) (oc_base_url c @ path) body n of
             (Inl e, n1) \<Rightarrow> (Inl (wrap_err (''ox-browser '' @ path @ '': '') e), n1)
           | (Inr (status, Inl e), n1) \<Rightarrow> (Inl (wrap_err ''ox-browser: read response: '' e), n1)
           | (Inr (status, Inr resp), n1) \<Rightarrow>
               if 400 \<le> status
               then (Inl (ErrText (''ox-browser '' @ path @ '': HTTP '' @ int_str status @ '': '' @ resp)), n1)
               else (decode resp, n1)))"

definition ox_call ::
    "(('p, 't) ox_transport, 'n) solver_net \<Rightarrow> ('p, 't) ox_client \<Rightarrow> string \<Rightarrow> (string \<times> json_value) list \<Rightarrow> (string \<Rightarrow> go_error + 'a) \<Rightarrow>
     'n \<Rightarrow> (go_error + 'a) \<times> 'n"
where
  "ox_call net c path args decode n =
     (case sn_marshal net args of
        Inl e \<Rightarrow> (Inl (wrap_err ''marshal request: '' e), n)
      | Inr body \<Rightarrow> ox_post net c path body decode n)"

definition ox_solve ::
    "(('p, 't) ox_transport, 'n) solver_net \<Rightarrow> (string \<Rightarrow> go_error + solve_response) \<Rightarrow> ('p, 't) ox_client \<Rightarrow> string \<Rightarrow> string \<Rightarrow> 'n \<Rightarrow>
     (go_error + (string \<Rightarrow> string option)) \<times> 'n"
where
  "ox_solve net decode c url ctype n =
     (case ox_call net c ''/solve'' [(''url'', JStr url), (''challenge_type'', JStr ctype)] decode n of
        (Inl e, n1) \<Rightarrow> (Inl e, n1)
      | (Inr r, n1) \<Rightarrow>
          if sr_status r \<noteq> ''ok'' then (Inl (ErrText (''ox-browser solve: '' @ sr_error r)), n1)
          else (Inr (sr_cookies r), n1))"

definition ox_fetch_smart ::
    "(('p, 't) ox_transport, 'n) solver_net \<Rightarrow> (string \<Rightarrow> go_error + fetch_smart_response) \<Rightarrow> ('p, 't) ox_client \<Rightarrow> string \<Rightarrow> 'n \<Rightarrow>
     (go_error + fetch_smart_response) \<times> 'n"
where
  "ox_fetch_smart net decode c url n = ox_call net c ''/fetch-smart'' [(''url'', JStr url)] decode n"

definition ox_analyze ::
    "(('p, 't) ox_transport, 'n) solver_net \<Rightarrow> (string \<Rightarrow> go_error + analyze_response) \<Rightarrow> ('p, 't) ox_client \<Rightarrow> string \<Rightarrow> 'n \<Rightarrow>
     (go_error + analyze_response) \<times> 'n"
where
  "ox_analyze net decode c url n = ox_call net c ''/analyze'' [(''url'', JStr url)] decode n"

definition smart_fetch_middleware ::
    "(string \<Rightarrow> 'w \<Rightarrow> (go_error + fetch_smart_response) \<times> 'w) \<Rightarrow> 'w middleware"
where
  "smart_fetch_middleware fetch_smart next q w = do {
     ((resp, err), q1, w1) \<leftarrow> next q w;
     if err \<noteq> None then Some ((resp, err), q1, w1)
     else do {
       r \<leftarrow> resp;
       case detect_cloudflare r of
         None \<Rightarrow> Some ((resp, None), q1, w1)
       | Some cf \<Rightarrow>
           if cf_type cf = ChallengeBlock then Some ((resp, Some (CloudflareErr cf)), q1, w1)
           else (case fetch_smart (rq_url q1) w1 of
                   (Inl e, w2) \<Rightarrow> Some ((resp, Some (CloudflareErr cf)), q1, w2)
                 | (Inr ox, w2) \<Rightarrow>
                     if fs_error ox \<noteq> [] then Some ((resp, Some (CloudflareErr cf)), q1, w2)
                     else Some ((Some \<lparr>rs_body = fs_body ox, rs_headers = rs_headers r, rs_status = fs_status ox\<rparr>, None),
                                q1, w2)) } }"

subsection \<open>The cookie providers\<close>

record cached_cookie =
  cc_cookie :: string
  cc_expires_at :: time

type_synonym cookie_cache = "string \<Rightarrow> cached_cookie option"

definition cached_get :: "cookie_cache \<Rightarrow> string \<Rightarrow> time \<Rightarrow> string" where
  "cached_get cache domain now =
     (case cache domain of
        None \<Rightarrow> []
      | Some e \<Rightarrow> if cc_expires_at e < now then [] else cc_cookie e)"

record byparr_config =
  bc_base_url :: string
  bc_timeout :: duration
  bc_cache_ttl :: duration

definition byparr_defaults :: "byparr_config \<Rightarrow> byparr_config" where
  "byparr_defaults c =
     (let c1 = (if bc_timeout c = 0 then c\<lparr>bc_timeout := 60 * second\<rparr> else c)
      in if bc_cache_ttl c1 = 0 then c1\<lparr>bc_cache_ttl := 25 * minute\<rparr> else c1)"

record byparr_solver =
  by_base_url :: string
  by_timeout :: duration
  by_ttl :: duration
  by_cache :: cookie_cache

definition new_byparr_solver :: "byparr_config \<Rightarrow> byparr_solver" where
  "new_byparr_solver cfg =
     (let c = byparr_defaults cfg
      in \<lparr>by_base_url = bc_base_url c, by_timeout = bc_timeout c, by_ttl = bc_cache_ttl c, by_cache = (\<lambda>d. None)\<rparr>)"

definition byparr_get_cookie :: "byparr_solver \<Rightarrow> string \<Rightarrow> time \<Rightarrow> string" where
  "byparr_get_cookie s domain now = cached_get (by_cache s) domain now"

record solver_solution =
  sol_cookies :: "(string \<times> string) list"
  sol_user_agent :: string

record solver_response =
  so_status :: string
  so_message :: string
  so_solution :: "solver_solution option"

text \<open>The body of the request has a fixed shape, which the codec turns into text.\<close>

definition solve_via_api ::
    "(unit, 'n) solver_net \<Rightarrow> (string \<Rightarrow> go_error + solver_response) \<Rightarrow> byparr_solver \<Rightarrow> string \<Rightarrow> 'n \<Rightarrow> (go_error + string) \<times> 'n"
where
  "solve_via_api net decode s url n =
     (case sn_marshal net [(''cmd'', JStr ''request.get''), (''url'', JStr url), (''maxTimeout'', JInt 60000)] of
        Inl e \<Rightarrow> (Inl (wrap_err ''marshal request: '' e), n)
      | Inr body \<Rightarrow>
          (case (case sn_build net (by_base_url s @ ''/v1'') of
                   Some e \<Rightarrow> (Inl e, n)
                 | None \<Rightarrow> sn_send net () (by_base_url s @ ''/v1'') body n) of
             (Inl e, n1) \<Rightarrow> (Inl (wrap_err ''solver request: '' e), n1)
           | (Inr (status, Inl e), n1) \<Rightarrow> (Inl (wrap_err ''read response: '' e), n1)
           | (Inr (status, Inr resp), n1) \<Rightarrow>
               (if status \<noteq> 200
                then Inl (ErrText (''solver returned HTTP '' @ int_str status @ '': '' @ resp))
                else case decode resp of
                       Inl e \<Rightarrow> Inl (wrap_err ''parse response: '' e)
                     | Inr result \<Rightarrow>
                         if so_status result \<noteq> ''ok'' then Inl (ErrText (''solver error: '' @ so_message result))
                         else (case so_solution result of
                                 None \<Rightarrow> Inl (ErrText ''solver returned no solution'')
                               | Some sol \<Rightarrow>
                                   (case find (\<lambda>c. fst c = ''cf_clearance'') (sol_cookies sol) of
                                      Some c \<Rightarrow> Inr (''cf_clearance='' @ snd c)
                                    | None \<Rightarrow> Inl (ErrText ''cf_clearance cookie not found in solver response''))), n1)))"

definition byparr_solve ::
    "(unit, 'n) solver_net \<Rightarrow> (string \<Rightarrow> go_error + solver_response) \<Rightarrow> string \<Rightarrow> cloudflare_error option \<Rightarrow> byparr_solver \<times> 'n \<Rightarrow>
     (go_error + string) \<times> byparr_solver \<times> 'n"
where
  "byparr_solve net decode domain challenge = (\<lambda>(s, n).
     if (case challenge of None \<Rightarrow> False | Some c \<Rightarrow> cf_type c = ChallengeBlock)
     then (Inl (ErrText ''block challenges are not solvable''), s, n)
     else case solve_via_api net decode s (''https://'' @ domain) n of
            (Inl e, n1) \<Rightarrow> (Inl e, s, n1)
          | (Inr cookie, n1) \<Rightarrow>
              let (now, n2) = sn_now net n1
              in (Inr cookie,
                  s\<lparr>by_cache := (by_cache s)(domain \<mapsto> \<lparr>cc_cookie = cookie, cc_expires_at = now + by_ttl s\<rparr>)\<rparr>, n2))"

record ('p, 't) ox_solver =
  os_client :: "('p, 't) ox_client"
  os_ttl :: duration
  os_cache :: cookie_cache

definition new_ox_browser_solver ::
    "(('p, 't) ox_transport \<Rightarrow> string \<Rightarrow> go_error + ('p, 't) ox_transport) \<Rightarrow> string \<Rightarrow> duration \<Rightarrow> 'p option \<Rightarrow> ('p, 't) ox_solver"
where
  "new_ox_browser_solver from_env base_url cache_ttl proxy_fn =
     \<lparr>os_client = (case proxy_fn of Some f \<Rightarrow> new_ox_browser_client_with_proxy base_url f
                                 | None \<Rightarrow> new_ox_browser_client from_env base_url),
      os_ttl = (if cache_ttl = 0 then 25 * minute else cache_ttl), os_cache = (\<lambda>d. None)\<rparr>"

definition ox_get_cookie :: "('p, 't) ox_solver \<Rightarrow> string \<Rightarrow> time \<Rightarrow> string" where
  "ox_get_cookie s domain now = cached_get (os_cache s) domain now"

definition ox_solver_solve ::
    "(('p, 't) ox_transport, 'n) solver_net \<Rightarrow> (string \<Rightarrow> go_error + solve_response) \<Rightarrow> string \<Rightarrow> cloudflare_error option \<Rightarrow>
     ('p, 't) ox_solver \<times> 'n \<Rightarrow> (go_error + string) \<times> ('p, 't) ox_solver \<times> 'n"
where
  "ox_solver_solve net decode domain challenge = (\<lambda>(s, n).
     if (case challenge of None \<Rightarrow> False | Some c \<Rightarrow> cf_type c = ChallengeBlock)
     then (Inl (ErrText ''block challenges are not solvable''), s, n)
     else let ctype = (case challenge of None \<Rightarrow> ''js_challenge'' | Some c \<Rightarrow> challenge_name (cf_type c))
          in case ox_solve net decode (os_client s) (''https://'' @ domain) ctype n of
               (Inl e, n1) \<Rightarrow> (Inl e, s, n1)
             | (Inr cookies, n1) \<Rightarrow>
                 (case cookies ''cf_clearance'' of
                    None \<Rightarrow> (Inl (ErrText ''cf_clearance not found in ox-browser response''), s, n1)
                  | Some clearance \<Rightarrow>
                      let cookie = ''cf_clearance='' @ clearance; (now, n2) = sn_now net n1
                      in (Inr cookie,
                          s\<lparr>os_cache := (os_cache s)(domain \<mapsto> \<lparr>cc_cookie = cookie, cc_expires_at = now + os_ttl s\<rparr>)\<rparr>,
                          n2)))"

definition byparr_ops ::
    "(unit, 'n) solver_net \<Rightarrow> (string \<Rightarrow> go_error + solver_response) \<Rightarrow> (byparr_solver \<times> 'n) cookie_ops"
where
  "byparr_ops net decode =
     \<lparr>cp_get = (\<lambda>d (s, n). let (now, n1) = sn_now net n in (byparr_get_cookie s d now, s, n1)),
      cp_solve = byparr_solve net decode\<rparr>"

definition ox_solver_ops ::
    "(('p, 't) ox_transport, 'n) solver_net \<Rightarrow> (string \<Rightarrow> go_error + solve_response) \<Rightarrow> (('p, 't) ox_solver \<times> 'n) cookie_ops"
where
  "ox_solver_ops net decode =
     \<lparr>cp_get = (\<lambda>d (s, n). let (now, n1) = sn_now net n in (ox_get_cookie s d now, s, n1)),
      cp_solve = ox_solver_solve net decode\<rparr>"

subsection \<open>The contract of a cookie provider\<close>

text \<open>\<open>cache\<close> is what the provider remembers in a world and \<open>clock\<close> the time it would read in
  it.\<close>

locale cookie_provider =
  fixes ops :: "'w cookie_ops"
    and cache :: "'w \<Rightarrow> cookie_cache"
    and clock :: "'w \<Rightarrow> time"
  assumes get_cached: "cp_get ops d w = (c, w') \<Longrightarrow> c = cached_get (cache w) d (clock w) \<and> cache w' = cache w"
    and solve_stores: "cp_solve ops d ch w = (Inr c, w') \<Longrightarrow>
       \<exists>t. cache w' = (cache w)(d \<mapsto> \<lparr>cc_cookie = c, cc_expires_at = t\<rparr>)"
    and solve_fails: "cp_solve ops d ch w = (Inl e, w') \<Longrightarrow> cache w' = cache w"
    and block_refused: "cf_type cf = ChallengeBlock \<Longrightarrow> \<exists>e. cp_solve ops d (Some cf) w = (Inl e, w)"
begin

text \<open>One pass of the middleware over a handler whose first answer is a challenge.\<close>

lemma challenge_retried_once:
  assumes "h (inject_cookie (fst (cp_get ops (extract_host parse (rq_url q)) w)) q)
             (snd (cp_get ops (extract_host parse (rq_url q)) w)) = Some ((Some r, None), q2, w2)"
    and "detect_cloudflare r = Some cf" "cp_solve ops (extract_host parse (rq_url q)) (Some cf) w2 = (Inr c, w3)" "c \<noteq> []"
  shows "cloudflare_cookie_middleware parse ops h q w = h (header_set ''cookie'' c q2) w3"
    and "\<exists>t. cache w3 = (cache w2)(extract_host parse (rq_url q) \<mapsto> \<lparr>cc_cookie = c, cc_expires_at = t\<rparr>)"
  using assms solve_stores by (simp_all add: cloudflare_cookie_middleware_def Let_def case_prod_beta)

lemma cached_cookie_injected:
  assumes "cache w d = Some e" "clock w \<le> cc_expires_at e"
  shows "fst (cp_get ops d w) = cc_cookie e"
  using assms get_cached [of d w "fst (cp_get ops d w)" "snd (cp_get ops d w)"] by (simp add: cached_get_def)

lemma block_is_final:
  assumes "h (inject_cookie (fst (cp_get ops (extract_host parse (rq_url q)) w)) q)
             (snd (cp_get ops (extract_host parse (rq_url q)) w)) = Some ((Some r, None), q2, w2)"
    and "detect_cloudflare r = Some cf" "cf_type cf = ChallengeBlock"
  shows "\<exists>e. cloudflare_cookie_middleware parse ops h q w =
     Some ((Some r, Some (ErrFmt [Wrapped (CloudflareErr cf), Lit '': solve failed: '', Wrapped e])), q2, w2)"
  using assms block_refused [of cf "extract_host parse (rq_url q)" w2]
  by (auto simp: cloudflare_cookie_middleware_def Let_def case_prod_beta)

end

interpretation byparr: cookie_provider "byparr_ops net decode" "\<lambda>(s, n). by_cache s" "\<lambda>(s, n). fst (sn_now net n)"
  by unfold_locales
    (auto simp: byparr_ops_def byparr_solve_def byparr_get_cookie_def Let_def split: prod.splits sum.splits if_splits option.splits)

interpretation ox_solver: cookie_provider "ox_solver_ops net decode" "\<lambda>(s, n). os_cache s" "\<lambda>(s, n). fst (sn_now net n)"
  by unfold_locales
    (auto simp: ox_solver_ops_def ox_solver_solve_def ox_get_cookie_def Let_def
      split: prod.splits sum.splits if_splits option.splits)

text \<open>C8: a challenge that reaches the cookie middleware is solved at most once: with a solver that
  gives a cookie the request is sent once more, with exactly that cookie, and its second answer is
  returned whatever it is; the cookie is remembered for the host and added to later requests until
  it expires. A block is never sent to the solver and comes back as an error that wraps it. Stated for
  the Byparr solver; the ox-browser solver has the same interface laws.\<close>

theorem challenge_solved_once:
  assumes "fst (cp_get (byparr_ops net decode) (extract_host parse (rq_url q)) w) = known"
    and "snd (cp_get (byparr_ops net decode) (extract_host parse (rq_url q)) w) = w1"
    and "h (inject_cookie known q) w1 = Some ((Some r, None), q2, w2)"
    and "detect_cloudflare r = Some cf"
  shows "(cf_type cf = ChallengeBlock \<longrightarrow>
      (\<exists>e. cloudflare_cookie_middleware parse (byparr_ops net decode) h q w =
        Some ((Some r, Some (ErrFmt [Wrapped (CloudflareErr cf), Lit '': solve failed: '', Wrapped e])), q2, w2))) \<and>
    (cp_solve (byparr_ops net decode) (extract_host parse (rq_url q)) (Some cf) w2 = (Inr (x # c), w3) \<longrightarrow>
      cloudflare_cookie_middleware parse (byparr_ops net decode) h q w = h (header_set ''cookie'' (x # c) q2) w3 \<and>
      (\<exists>e. by_cache (fst w3) (extract_host parse (rq_url q)) = Some e \<and> cc_cookie e = x # c \<and>
        (fst (sn_now net (snd w3)) \<le> cc_expires_at e \<longrightarrow>
           fst (cp_get (byparr_ops net decode) (extract_host parse (rq_url q)) w3) = x # c)))"
proof (intro conjI impI)
  let ?d = "extract_host parse (rq_url q)"
  note n = assms(3) [folded assms(1,2)]
  show "\<exists>e. cloudflare_cookie_middleware parse (byparr_ops net decode) h q w =
        Some ((Some r, Some (ErrFmt [Wrapped (CloudflareErr cf), Lit '': solve failed: '', Wrapped e])), q2, w2)"
    if block: "cf_type cf = ChallengeBlock"
    by (rule byparr.block_is_final [where h = h and q = q and w = w and net = net and decode = decode and parse = parse, OF n assms(4) block])
  assume s: "cp_solve (byparr_ops net decode) ?d (Some cf) w2 = (Inr (x # c), w3)"
  obtain t where t: "by_cache (fst w3) = (by_cache (fst w2))(?d \<mapsto> \<lparr>cc_cookie = x # c, cc_expires_at = t\<rparr>)"
    using byparr.challenge_retried_once(2) [where h = h and q = q and w = w and net = net and decode = decode and parse = parse, OF n assms(4) s] by (auto simp: case_prod_beta)
  show "cloudflare_cookie_middleware parse (byparr_ops net decode) h q w = h (header_set ''cookie'' (x # c) q2) w3"
    using byparr.challenge_retried_once(1) [where h = h and q = q and w = w and net = net and decode = decode and parse = parse, OF n assms(4) s] by simp
  show "\<exists>e. by_cache (fst w3) ?d = Some e \<and> cc_cookie e = x # c \<and>
        (fst (sn_now net (snd w3)) \<le> cc_expires_at e \<longrightarrow>
           fst (cp_get (byparr_ops net decode) ?d w3) = x # c)"
    using t byparr.cached_cookie_injected [of w3 ?d "\<lparr>cc_cookie = x # c, cc_expires_at = t\<rparr>" net decode]
    by (simp add: case_prod_beta)
qed

text \<open>A solver that always has a token, and a site that asks for it.\<close>

definition demo_net :: "(unit, int) solver_net" where
  "demo_net = \<lparr>sn_build = (\<lambda>u. None), sn_send = (\<lambda>t u b n. (Inr (200, Inr ''{}''), n + 5)),
     sn_now = (\<lambda>n. (n, n + 1)), sn_marshal = (\<lambda>args. Inr ''{}'')\<rparr>"

definition demo_decode :: "string \<Rightarrow> go_error + solver_response" where
  "demo_decode s = Inr \<lparr>so_status = ''ok'', so_message = [],
     so_solution = Some \<lparr>sol_cookies = [(''cf_clearance'', ''tok'')], sol_user_agent = []\<rparr>\<rparr>"

definition challenge_response :: http_response where
  "challenge_response = \<lparr>rs_body = [], rs_headers = [''server'' \<mapsto> ''cloudflare'', ''cf-mitigated'' \<mapsto> ''challenge''], rs_status = 403\<rparr>"

definition ok_response :: http_response where
  "ok_response = \<lparr>rs_body = ''hello'', rs_headers = (\<lambda>k. None), rs_status = 200\<rparr>"

definition demo_site :: "'w handler" where
  "demo_site q w =
     Some ((Some (if header_get q ''cookie'' = ''cf_clearance=tok'' then ok_response else challenge_response), None), q, w)"

definition demo_request :: http_request where
  "demo_request = \<lparr>rq_method = ''GET'', rq_url = ''h'', rq_headers = None, rq_body = None, rq_order = []\<rparr>"

lemma challenge_response_detected:
  "detect_cloudflare challenge_response = Some \<lparr>cf_type = ChallengeJS, cf_status = 403, cf_ray = []\<rparr>"
proof -
  have "str_contains (to_lower ''cloudflare'') ''cloudflare''" "str_contains (to_lower ''challenge'') ''challenge''" by code_simp+
  then show ?thesis
    by (simp add: detect_cloudflare_def challenge_response_def challenge_kind_def Let_def to_lower_def str_contains_code)
qed

theorem challenge_solved_once_witness:
  "cloudflare_cookie_middleware (\<lambda>u. None) (byparr_ops demo_net demo_decode) demo_site demo_request
     (new_byparr_solver \<lparr>bc_base_url = [], bc_timeout = 0, bc_cache_ttl = 0\<rparr>, 0) =
   demo_site (header_set ''cookie'' ''cf_clearance=tok'' demo_request)
     (new_byparr_solver \<lparr>bc_base_url = [], bc_timeout = 0, bc_cache_ttl = 0\<rparr>
        \<lparr>by_cache := [''h'' \<mapsto> \<lparr>cc_cookie = ''cf_clearance=tok'', cc_expires_at = 6 + 25 * minute\<rparr>]\<rparr>, 7)"
proof -
  let ?s = "new_byparr_solver \<lparr>bc_base_url = [], bc_timeout = 0, bc_cache_ttl = 0\<rparr>"
  let ?w3 = "(?s\<lparr>by_cache := [''h'' \<mapsto> \<lparr>cc_cookie = ''cf_clearance=tok'', cc_expires_at = 6 + 25 * minute\<rparr>]\<rparr>, 7 :: int)"
  let ?cf = "\<lparr>cf_type = ChallengeJS, cf_status = 403, cf_ray = []\<rparr> :: cloudflare_error"
  have d: "extract_host (\<lambda>u. None) (rq_url demo_request) = ''h''" by (simp add: extract_host_def demo_request_def)
  have g: "cp_get (byparr_ops demo_net demo_decode) ''h'' (?s, 0) = ([], ?s, 1)"
    by (simp add: byparr_ops_def demo_net_def byparr_get_cookie_def cached_get_def new_byparr_solver_def Let_def)
  have n: "demo_site (inject_cookie [] demo_request) (?s, 1 :: int) =
    Some ((Some challenge_response, None), demo_request, (?s, 1))"
    by (simp add: demo_site_def inject_cookie_def demo_request_def header_get_def)
  have s: "cp_solve (byparr_ops demo_net demo_decode) ''h'' (Some ?cf) (?s, 1) = (Inr ''cf_clearance=tok'', ?w3)"
    by (simp add: byparr_ops_def byparr_solve_def solve_via_api_def demo_net_def demo_decode_def new_byparr_solver_def
        byparr_defaults_def Let_def)
  show ?thesis
    using challenge_solved_once [where h = demo_site and q = demo_request and parse = "\<lambda>u. None" and w = "(?s, 0)" and
        net = demo_net and decode = demo_decode and known = "[]" and ?w1.0 = "(?s, 1)" and r = challenge_response and
        ?q2.0 = demo_request and ?w2.0 = "(?s, 1)" and cf = ?cf and x = "CHR ''c''" and c = "''f_clearance=tok''" and ?w3.0 = ?w3]
      d g n s challenge_response_detected by simp
qed

subsection \<open>The order of the middlewares\<close>

text \<open>In the order in which the client installs them, the cookie middleware outside the
  detection, the solver is never called: the detection has turned every challenge into an error
  before the cookie middleware sees the response. Any two solve functions give the same client.\<close>

lemma solver_order_irrelevant:
  "cloudflare_cookie_middleware parse (ops\<lparr>cp_solve := f\<rparr>) (cloudflare_detect_middleware h) q w =
   cloudflare_cookie_middleware parse (ops\<lparr>cp_solve := g\<rparr>) (cloudflare_detect_middleware h) q w"
  by (auto simp: cloudflare_cookie_middleware_def cloudflare_detect_middleware_def case_prod_beta Let_def
      split: option.split bind_splits)

end
