(* ===== verification/Client_Options.thy ===== *)
theory Client_Options
  imports Proxy_Allow Cloudflare
begin

text \<open>
  The configuration of a client and its options (\<^verbatim>\<open>src/client_options.go\<close>,
  \<^verbatim>\<open>client_options_webshare.go\<close>), the interface of a backend
  (\<^verbatim>\<open>backend.go\<close>) and the identity a configuration resolves to
  (\<^verbatim>\<open>client.go\<close>). Interface values are records of operations on a world \<open>'w\<close>; \<open>'j\<close>
  is the type of cookie jars and \<open>'p\<close> that of proxy functions. A guard of URLs reads the world,
  for the resolver. A dial guard that has been wrapped depends on the current proxy allowance.
  The seam for tests, \<^verbatim>\<open>newHTTPClient\<close>, is left out.
\<close>

record hop =
  hop_method :: string
  hop_url :: "go_url option"
  hop_header :: "(string \<times> string list) list"

type_synonym 'w url_guard = "go_url option \<Rightarrow> 'w \<Rightarrow> go_error option"
type_synonym 'w redirect_guard = "hop \<Rightarrow> hop list \<Rightarrow> 'w \<Rightarrow> go_error option"

record 'w proxy_provider =
  px_next :: "'w \<Rightarrow> string \<times> 'w"
  px_report :: "('w \<Rightarrow> 'w) option"

record ('w, 'j) backend_config =
  be_profile :: string
  be_proxy_url :: string
  be_timeout :: int
  be_follow_redirects :: bool
  be_http3 :: bool
  be_fetch_mode :: bool
  be_cookie_jar :: "'j option"
  be_insecure :: bool
  be_dial_control :: "(proxy_allowance \<Rightarrow> dial_guard) option"
  be_redirect_guard :: "'w redirect_guard option"

text \<open>\<open>hd_close\<close> and \<open>hd_idle\<close> are the optional methods; the operations that may dial get the
  dial guard as it is at that moment.\<close>

record 'w http_doer =
  hd_do :: "dial_guard option \<Rightarrow> 'w handler"
  hd_set_proxy :: "dial_guard option \<Rightarrow> string \<Rightarrow> 'w \<Rightarrow> go_error option \<times> 'w"
  hd_cookie_value :: "string \<Rightarrow> string \<Rightarrow> 'w \<Rightarrow> string"
  hd_close :: "('w \<Rightarrow> 'w) option"
  hd_idle :: "('w \<Rightarrow> 'w) option"

type_synonym ('w, 'j) backend_factory = "('w, 'j) backend_config \<Rightarrow> 'w \<Rightarrow> (go_error + 'w http_doer) \<times> 'w"

record ('w, 'j, 'p) client_config =
  cc_proxy_url :: string
  cc_proxy_pool :: "('w proxy_provider \<times> 'p option) option"
  cc_pool_closer :: "('w \<Rightarrow> go_error option \<times> 'w) option"
  cc_profile :: string
  cc_identity :: "browser_identity option"
  cc_timeout :: int
  cc_header_order :: "string list option"
  cc_follow_redirects :: bool
  cc_debug :: bool
  cc_backend :: "('w, 'j) backend_factory option"
  cc_caller_backend :: bool
  cc_http3 :: bool
  cc_fetch_mode :: bool
  cc_insecure :: bool
  cc_cookie_jar :: "'j option"
  cc_block_retries :: int
  cc_cookie_provider :: "'w cookie_ops option"
  cc_ox_browser_url :: string
  cc_build_errors :: "go_error list"
  cc_dial_control :: "dial_guard option"
  cc_redirect_guard :: "'w redirect_guard option"
  cc_url_guard :: "'w url_guard option"

text \<open>What the built-in guards take from outside: the resolver of a world and the text of an
  address.\<close>

record 'w guard_env =
  ge_resolver :: "'w \<Rightarrow> resolver"
  ge_ip_str :: "net_ip option \<Rightarrow> string"

definition builtin_dial :: "'w guard_env \<Rightarrow> dial_guard" where
  "builtin_dial ge = default_deny_dial (\<lambda>ip. ge_ip_str ge (Some ip))"

definition builtin_redirect :: "'w guard_env \<Rightarrow> 'w redirect_guard" where
  "builtin_redirect ge req via w = default_deny_redirect (ge_ip_str ge) (ge_resolver ge w) (hop_url req) (length via)"

definition builtin_url :: "'w guard_env \<Rightarrow> 'w url_guard" where
  "builtin_url ge u w = default_deny_url (ge_ip_str ge) (ge_resolver ge w) u"

definition default_config :: "'w guard_env \<Rightarrow> ('w, 'j, 'p) client_config" where
  "default_config ge =
     \<lparr>cc_proxy_url = [], cc_proxy_pool = None, cc_pool_closer = None, cc_profile = ''chrome_156'', cc_identity = None,
      cc_timeout = 20, cc_header_order = None, cc_follow_redirects = False, cc_debug = False, cc_backend = None,
      cc_caller_backend = False, cc_http3 = False, cc_fetch_mode = False, cc_insecure = False, cc_cookie_jar = None,
      cc_block_retries = 0, cc_cookie_provider = None, cc_ox_browser_url = [], cc_build_errors = [],
      cc_dial_control = Some (builtin_dial ge), cc_redirect_guard = Some (builtin_redirect ge),
      cc_url_guard = Some (builtin_url ge)\<rparr>"

subsection \<open>Options\<close>

text \<open>The error of a caller's guard is tagged with the sentinel, the guard's own error second.\<close>

definition tag_err :: "go_error option \<Rightarrow> go_error option" where
  "tag_err = map_option (\<lambda>e. ErrFmt [Wrapped ErrSSRFBlocked, Lit '': '', Wrapped e])"

definition tag_guard_err2 :: "dial_guard option \<Rightarrow> dial_guard option" where
  "tag_guard_err2 fn = map_option (\<lambda>g network address. tag_err (g network address)) fn"

definition tag_guard_err_req :: "'w redirect_guard option \<Rightarrow> 'w redirect_guard option" where
  "tag_guard_err_req fn = map_option (\<lambda>g req via w. tag_err (g req via w)) fn"

definition tag_guard_err_url :: "'w url_guard option \<Rightarrow> 'w url_guard option" where
  "tag_guard_err_url fn = map_option (\<lambda>g u w. tag_err (g u w)) fn"

datatype ('w, 'j, 'p) client_option =
    WithProxy string
  | WithProfile string
  | WithIdentity browser_identity
  | WithFetchMode
  | WithCookieJar "'j option"
  | WithTimeout int
  | WithHeaderOrder "string list option"
  | WithFollowRedirects
  | WithDebug
  | WithProxyPool "('w proxy_provider \<times> 'p option) option"
  | WithBackend "('w, 'j) backend_factory option"
  | WithStdHTTP
  | WithHTTP3
  | WithInsecureSkipVerify
  | WithRetryOnBlock int
  | WithCookieSolver "'w cookie_ops option"
  | WithOxBrowser string
  | WithDialControl "dial_guard option"
  | WithRedirectGuard "'w redirect_guard option"
  | WithRequestURLGuard "'w url_guard option"
  | WithoutSSRFGuard
  | WithWebshareCountry string "string list"
  | WithWebshareRotating string string "string list"

definition with_profile :: "string \<Rightarrow> ('w, 'j, 'p) client_config \<Rightarrow> ('w, 'j, 'p) client_config" where
  "with_profile p c = (if p = [] then c else c\<lparr>cc_profile := p\<rparr>)"

definition with_identity :: "browser_identity \<Rightarrow> ('w, 'j, 'p) client_config \<Rightarrow> ('w, 'j, 'p) client_config" where
  "with_identity i c =
     (let i' = (if id_client_hints i = None
                then i\<lparr>id_client_hints := client_hints_headers (bp_user_agent (id_profile i))\<rparr> else i);
          c1 = c\<lparr>cc_identity := Some i'\<rparr>;
          tls = bp_tls_profile (id_profile i')
      in if tls = [] then c1 else c1\<lparr>cc_profile := tls\<rparr>)"

definition with_backend :: "('w, 'j) backend_factory option \<Rightarrow> ('w, 'j, 'p) client_config \<Rightarrow> ('w, 'j, 'p) client_config" where
  "with_backend factory c = c\<lparr>cc_backend := factory, cc_caller_backend := (factory \<noteq> None)\<rparr>"

definition with_retry_on_block :: "int \<Rightarrow> ('w, 'j, 'p) client_config \<Rightarrow> ('w, 'j, 'p) client_config" where
  "with_retry_on_block n c = (if 0 < n then c\<lparr>cc_block_retries := n\<rparr> else c)"

text \<open>The pools an option makes itself: the constructors of the Webshare pools give an error, or
  a provider with its closer.\<close>

type_synonym ('w, 'p) owned_pool = "('w proxy_provider \<times> 'p option) \<times> ('w \<Rightarrow> go_error option \<times> 'w)"

record ('w, 'j, 'p) option_env =
  oe_std_backend :: "('w, 'j) backend_factory"
  oe_webshare :: "string \<Rightarrow> string list \<Rightarrow> go_error + ('w, 'p) owned_pool"
  oe_webshare_rotating :: "string \<Rightarrow> string \<Rightarrow> string list \<Rightarrow> go_error + ('w, 'p) owned_pool"

definition install_pool ::
    "go_error + ('w, 'p) owned_pool \<Rightarrow> ('w, 'j, 'p) client_config \<Rightarrow> ('w, 'j, 'p) client_config"
where
  "install_pool r c =
     (case r of
        Inl e \<Rightarrow> c\<lparr>cc_build_errors := cc_build_errors c @ [e]\<rparr>
      | Inr (pool, closer) \<Rightarrow> c\<lparr>cc_proxy_pool := Some pool, cc_pool_closer := Some closer\<rparr>)"

definition with_webshare_country ::
    "('w, 'j, 'p) option_env \<Rightarrow> string \<Rightarrow> string list \<Rightarrow> ('w, 'j, 'p) client_config \<Rightarrow> ('w, 'j, 'p) client_config"
where
  "with_webshare_country oe key countries c =
     install_pool (oe_webshare oe key (if countries = [] then [''US''] else countries)) c"

definition with_proxy :: "string \<Rightarrow> ('w, 'j, 'p) client_config \<Rightarrow> ('w, 'j, 'p) client_config" where
  "with_proxy url c = c\<lparr>cc_proxy_url := url\<rparr>"

definition with_fetch_mode :: "('w, 'j, 'p) client_config \<Rightarrow> ('w, 'j, 'p) client_config" where
  "with_fetch_mode c = c\<lparr>cc_fetch_mode := True\<rparr>"

definition with_cookie_jar :: "'j option \<Rightarrow> ('w, 'j, 'p) client_config \<Rightarrow> ('w, 'j, 'p) client_config" where
  "with_cookie_jar jar c = c\<lparr>cc_cookie_jar := jar\<rparr>"

definition with_timeout :: "int \<Rightarrow> ('w, 'j, 'p) client_config \<Rightarrow> ('w, 'j, 'p) client_config" where
  "with_timeout n c = c\<lparr>cc_timeout := n\<rparr>"

definition with_header_order :: "string list option \<Rightarrow> ('w, 'j, 'p) client_config \<Rightarrow> ('w, 'j, 'p) client_config" where
  "with_header_order order c = c\<lparr>cc_header_order := order\<rparr>"

definition with_follow_redirects :: "('w, 'j, 'p) client_config \<Rightarrow> ('w, 'j, 'p) client_config" where
  "with_follow_redirects c = c\<lparr>cc_follow_redirects := True\<rparr>"

definition with_debug :: "('w, 'j, 'p) client_config \<Rightarrow> ('w, 'j, 'p) client_config" where
  "with_debug c = c\<lparr>cc_debug := True\<rparr>"

definition with_proxy_pool :: "('w proxy_provider \<times> 'p option) option \<Rightarrow> ('w, 'j, 'p) client_config \<Rightarrow> ('w, 'j, 'p) client_config" where
  "with_proxy_pool pool c = c\<lparr>cc_proxy_pool := pool\<rparr>"

definition with_http3 :: "('w, 'j, 'p) client_config \<Rightarrow> ('w, 'j, 'p) client_config" where
  "with_http3 c = c\<lparr>cc_http3 := True\<rparr>"

definition with_insecure_skip_verify :: "('w, 'j, 'p) client_config \<Rightarrow> ('w, 'j, 'p) client_config" where
  "with_insecure_skip_verify c = c\<lparr>cc_insecure := True\<rparr>"

definition with_cookie_solver :: "'w cookie_ops option \<Rightarrow> ('w, 'j, 'p) client_config \<Rightarrow> ('w, 'j, 'p) client_config" where
  "with_cookie_solver p c = c\<lparr>cc_cookie_provider := p\<rparr>"

definition with_ox_browser :: "string \<Rightarrow> ('w, 'j, 'p) client_config \<Rightarrow> ('w, 'j, 'p) client_config" where
  "with_ox_browser url c = c\<lparr>cc_ox_browser_url := url\<rparr>"

definition with_dial_control :: "dial_guard option \<Rightarrow> ('w, 'j, 'p) client_config \<Rightarrow> ('w, 'j, 'p) client_config" where
  "with_dial_control fn c = c\<lparr>cc_dial_control := tag_guard_err2 fn\<rparr>"

definition with_redirect_guard :: "'w redirect_guard option \<Rightarrow> ('w, 'j, 'p) client_config \<Rightarrow> ('w, 'j, 'p) client_config" where
  "with_redirect_guard fn c = c\<lparr>cc_redirect_guard := tag_guard_err_req fn\<rparr>"

definition with_request_url_guard :: "'w url_guard option \<Rightarrow> ('w, 'j, 'p) client_config \<Rightarrow> ('w, 'j, 'p) client_config" where
  "with_request_url_guard fn c = c\<lparr>cc_url_guard := tag_guard_err_url fn\<rparr>"

definition without_ssrf_guard :: "('w, 'j, 'p) client_config \<Rightarrow> ('w, 'j, 'p) client_config" where
  "without_ssrf_guard c = c\<lparr>cc_dial_control := None, cc_redirect_guard := None, cc_url_guard := None\<rparr>"

definition with_std_http :: "('w, 'j, 'p) option_env \<Rightarrow> ('w, 'j, 'p) client_config \<Rightarrow> ('w, 'j, 'p) client_config" where
  "with_std_http oe c = c\<lparr>cc_backend := Some (oe_std_backend oe)\<rparr>"

definition with_webshare_rotating ::
    "('w, 'j, 'p) option_env \<Rightarrow> string \<Rightarrow> string \<Rightarrow> string list \<Rightarrow> ('w, 'j, 'p) client_config \<Rightarrow> ('w, 'j, 'p) client_config"
where
  "with_webshare_rotating oe user pass countries c = install_pool (oe_webshare_rotating oe user pass countries) c"

fun apply_option ::
    "('w, 'j, 'p) option_env \<Rightarrow> ('w, 'j, 'p) client_option \<Rightarrow> ('w, 'j, 'p) client_config \<Rightarrow> ('w, 'j, 'p) client_config"
where
  "apply_option oe (WithProxy url) c = with_proxy url c"
| "apply_option oe (WithProfile p) c = with_profile p c"
| "apply_option oe (WithIdentity i) c = with_identity i c"
| "apply_option oe WithFetchMode c = with_fetch_mode c"
| "apply_option oe (WithCookieJar jar) c = with_cookie_jar jar c"
| "apply_option oe (WithTimeout n) c = with_timeout n c"
| "apply_option oe (WithHeaderOrder order) c = with_header_order order c"
| "apply_option oe WithFollowRedirects c = with_follow_redirects c"
| "apply_option oe WithDebug c = with_debug c"
| "apply_option oe (WithProxyPool pool) c = with_proxy_pool pool c"
| "apply_option oe (WithBackend f) c = with_backend f c"
| "apply_option oe WithStdHTTP c = with_std_http oe c"
| "apply_option oe WithHTTP3 c = with_http3 c"
| "apply_option oe WithInsecureSkipVerify c = with_insecure_skip_verify c"
| "apply_option oe (WithRetryOnBlock n) c = with_retry_on_block n c"
| "apply_option oe (WithCookieSolver p) c = with_cookie_solver p c"
| "apply_option oe (WithOxBrowser url) c = with_ox_browser url c"
| "apply_option oe (WithDialControl fn) c = with_dial_control fn c"
| "apply_option oe (WithRedirectGuard fn) c = with_redirect_guard fn c"
| "apply_option oe (WithRequestURLGuard fn) c = with_request_url_guard fn c"
| "apply_option oe WithoutSSRFGuard c = without_ssrf_guard c"
| "apply_option oe (WithWebshareCountry key countries) c = with_webshare_country oe key countries c"
| "apply_option oe (WithWebshareRotating user pass countries) c = with_webshare_rotating oe user pass countries c"

definition configure ::
    "'w guard_env \<Rightarrow> ('w, 'j, 'p) option_env \<Rightarrow> ('w, 'j, 'p) client_option list \<Rightarrow> ('w, 'j, 'p) client_config"
where
  "configure ge oe opts = fold (apply_option oe) opts (default_config ge)"

subsection \<open>The identity\<close>

definition resolve_identity :: "('w, 'j, 'p) client_config \<Rightarrow> browser_identity" where
  "resolve_identity c =
     (case cc_identity c of
        Some i \<Rightarrow> i
      | None \<Rightarrow>
          let b = (case profile_for_tls (cc_profile c) of Some b \<Rightarrow> b | None \<Rightarrow> zero_profile);
              b' = (if bp_tls_profile b = [] then b\<lparr>bp_tls_profile := cc_profile c\<rparr> else b)
          in \<lparr>id_profile = b', id_client_hints = client_hints_headers (bp_user_agent b')\<rparr>)"

definition is_chromium_tls_profile :: "string \<Rightarrow> bool" where
  "is_chromium_tls_profile p \<longleftrightarrow> has_prefix p ''chrome_'' \<or> has_prefix p ''brave_''"

definition check_fetch_mode_identity :: "('w, 'j, 'p) client_config \<Rightarrow> go_error option" where
  "check_fetch_mode_identity c =
     (if \<not> is_chromium_tls_profile (cc_profile c)
      then Some (ErrFmt [Wrapped ErrFetchModeUnsupported, Lit ('': TLS profile '' @ quoted (cc_profile c))])
      else let b = id_profile (resolve_identity c)
           in if bp_browser b = ''chrome'' \<or> bp_browser b = ''edge'' \<or> bp_browser b = ''brave'' then None
              else if bp_browser b = [] \<and> (bp_user_agent b = [] \<or> str_contains (bp_user_agent b) ''Chrome/'') then None
              else Some (ErrFmt [Wrapped ErrFetchModeUnsupported,
                                 Lit ('': identity '' @ quoted (bp_browser b @ '' '' @ bp_user_agent b))]))"

subsection \<open>Facts\<close>

lemma configure_snoc: "configure ge oe (opts @ [opt]) = apply_option oe opt (configure ge oe opts)"
  by (simp add: configure_def)

lemma tag_err_is: "tag_err x = Some e \<Longrightarrow> errors_is e ErrSSRFBlocked"
  by (auto simp: tag_err_def conj_disj_distribR ex_disj_distrib)

fun is_guard_option :: "('w, 'j, 'p) client_option \<Rightarrow> bool" where
  "is_guard_option (WithDialControl f) = True"
| "is_guard_option (WithRedirectGuard f) = True"
| "is_guard_option (WithRequestURLGuard f) = True"
| "is_guard_option WithoutSSRFGuard = True"
| "is_guard_option _ = False"

lemmas option_defs = with_profile_def with_identity_def with_backend_def with_retry_on_block_def
  with_webshare_country_def install_pool_def with_proxy_def with_fetch_mode_def with_cookie_jar_def with_timeout_def with_header_order_def with_follow_redirects_def
  with_debug_def with_proxy_pool_def with_http3_def with_insecure_skip_verify_def with_cookie_solver_def with_ox_browser_def
  with_dial_control_def with_redirect_guard_def with_request_url_guard_def without_ssrf_guard_def with_std_http_def with_webshare_rotating_def

lemma apply_option_guards:
  "\<not> is_guard_option opt \<Longrightarrow>
     cc_dial_control (apply_option oe opt c) = cc_dial_control c \<and>
     cc_redirect_guard (apply_option oe opt c) = cc_redirect_guard c \<and>
     cc_url_guard (apply_option oe opt c) = cc_url_guard c"
  by (cases opt) (auto simp: option_defs Let_def split: sum.split prod.split)

lemma no_guard_option_keeps_guards:
  assumes "list_all (\<lambda>opt. \<not> is_guard_option opt) opts"
  shows "cc_dial_control (configure ge oe opts) = Some (builtin_dial ge) \<and>
     cc_redirect_guard (configure ge oe opts) = Some (builtin_redirect ge) \<and>
     cc_url_guard (configure ge oe opts) = Some (builtin_url ge)"
  using assms
  by (induction opts rule: rev_induct) (auto simp: configure_snoc apply_option_guards, simp_all add: configure_def default_config_def)

text \<open>The last option of a list that says something about a setting decides it.\<close>

definition last_of :: "('o \<Rightarrow> 'a option) \<Rightarrow> 'o list \<Rightarrow> 'a option" where
  "last_of f opts = (case List.map_filter f (rev opts) of [] \<Rightarrow> None | x # xs \<Rightarrow> Some x)"

lemma last_of_simps [simp]:
  "last_of f [] = None"
  "last_of f (opts @ [opt]) = (case f opt of None \<Rightarrow> last_of f opts | Some x \<Rightarrow> Some x)"
  by (simp_all add: last_of_def map_filter_simps split: option.split)

text \<open>What an option says about each guard: nothing, that there is none, or whose guard it is.\<close>

fun dial_setting :: "('w, 'j, 'p) client_option \<Rightarrow> dial_guard option option" where
  "dial_setting (WithDialControl fn) = Some fn"
| "dial_setting WithoutSSRFGuard = Some None"
| "dial_setting _ = None"

fun redirect_setting :: "('w, 'j, 'p) client_option \<Rightarrow> 'w redirect_guard option option" where
  "redirect_setting (WithRedirectGuard fn) = Some fn"
| "redirect_setting WithoutSSRFGuard = Some None"
| "redirect_setting _ = None"

fun url_setting :: "('w, 'j, 'p) client_option \<Rightarrow> 'w url_guard option option" where
  "url_setting (WithRequestURLGuard fn) = Some fn"
| "url_setting WithoutSSRFGuard = Some None"
| "url_setting _ = None"

text \<open>The answer of a guard installed for a caller's guard: it passes what the caller's passes, and what
  that rejects it rejects with an error that wraps the sentinel and the caller's error.\<close>

definition tagged_answer :: "go_error option \<Rightarrow> go_error option \<Rightarrow> bool" where
  "tagged_answer own answer \<longleftrightarrow>
     (case own of
        None \<Rightarrow> answer = None
      | Some e \<Rightarrow> (case answer of None \<Rightarrow> False | Some e' \<Rightarrow> errors_is e' ErrSSRFBlocked \<and> errors_is e' e))"

lemma tagged_answer_tag_err: "tagged_answer own (tag_err own)"
  by (auto simp: tagged_answer_def tag_err_def conj_disj_distribR ex_disj_distrib split: option.split)

lemma configured_guards:
  "cc_dial_control (configure ge oe opts) =
     (case last_of dial_setting opts of None \<Rightarrow> Some (builtin_dial ge) | Some fn \<Rightarrow> tag_guard_err2 fn)"
  "cc_redirect_guard (configure ge oe opts) =
     (case last_of redirect_setting opts of None \<Rightarrow> Some (builtin_redirect ge) | Some fn \<Rightarrow> tag_guard_err_req fn)"
  "cc_url_guard (configure ge oe opts) =
     (case last_of url_setting opts of None \<Rightarrow> Some (builtin_url ge) | Some fn \<Rightarrow> tag_guard_err_url fn)"
proof (induction opts rule: rev_induct)
  case (snoc opt opts)
  { case 1 show ?case using snoc(1) by (cases opt) (auto simp: configure_snoc option_defs tag_guard_err2_def Let_def split: sum.split prod.split) }
  { case 2 show ?case using snoc(2) by (cases opt) (auto simp: configure_snoc option_defs tag_guard_err_req_def Let_def split: sum.split prod.split) }
  { case 3 show ?case using snoc(3) by (cases opt) (auto simp: configure_snoc option_defs tag_guard_err_url_def Let_def split: sum.split prod.split) }
qed (simp_all add: configure_def default_config_def)

text \<open>C6: a client is closed to internal targets by construction. Whatever options are given in
  whatever order, each of its three guards is the built-in one unless an option names it; it is absent
  only when the last option about it is WithoutSSRFGuard or a setter given nil; and the guard that a setter
  installs for a caller's guard, whichever of the three it is, passes exactly what the caller's
  passes and rejects the rest with an error that wraps the sentinel and the caller's own error.\<close>

theorem fail_closed_by_construction:
  "(case last_of dial_setting opts of
      None \<Rightarrow> cc_dial_control (configure ge oe opts) = Some (builtin_dial ge)
    | Some None \<Rightarrow> cc_dial_control (configure ge oe opts) = None
    | Some (Some g) \<Rightarrow> (\<exists>g'. cc_dial_control (configure ge oe opts) = Some g' \<and>
        (\<forall>network address. tagged_answer (g network address) (g' network address)))) \<and>
   (case last_of redirect_setting opts of
      None \<Rightarrow> cc_redirect_guard (configure ge oe opts) = Some (builtin_redirect ge)
    | Some None \<Rightarrow> cc_redirect_guard (configure ge oe opts) = None
    | Some (Some g) \<Rightarrow> (\<exists>g'. cc_redirect_guard (configure ge oe opts) = Some g' \<and>
        (\<forall>req via w. tagged_answer (g req via w) (g' req via w)))) \<and>
   (case last_of url_setting opts of
      None \<Rightarrow> cc_url_guard (configure ge oe opts) = Some (builtin_url ge)
    | Some None \<Rightarrow> cc_url_guard (configure ge oe opts) = None
    | Some (Some g) \<Rightarrow> (\<exists>g'. cc_url_guard (configure ge oe opts) = Some g' \<and>
        (\<forall>u w. tagged_answer (g u w) (g' u w))))"
  by (auto simp: configured_guards tag_guard_err2_def tag_guard_err_req_def tag_guard_err_url_def tagged_answer_tag_err
      split: option.split)

text \<open>An environment for the witnesses: nothing resolves and no pool can be made.\<close>

definition demo_guards :: "unit guard_env" where
  "demo_guards = \<lparr>ge_resolver = (\<lambda>w h. Inl (NetDNSError h False)), ge_ip_str = (\<lambda>ip. [])\<rparr>"

definition demo_options :: "(unit, unit, unit) option_env" where
  "demo_options =
     \<lparr>oe_std_backend = (\<lambda>c w. (Inl ErrCanceled, w)), oe_webshare = (\<lambda>k cs. Inl ErrCanceled),
      oe_webshare_rotating = (\<lambda>u p cs. Inl ErrCanceled)\<rparr>"

subsection \<open>The identity and the backend\<close>

fun is_profile_option :: "('w, 'j, 'p) client_option \<Rightarrow> bool" where
  "is_profile_option (WithProfile p) = True"
| "is_profile_option _ = False"

text \<open>No WithProfile after a WithIdentity, and every identity names its TLS profile.\<close>

fun identity_settled :: "('w, 'j, 'p) client_option list \<Rightarrow> bool" where
  "identity_settled [] = True"
| "identity_settled (opt # opts) =
     ((case opt of
         WithIdentity i \<Rightarrow> bp_tls_profile (id_profile i) \<noteq> [] \<and> list_all (\<lambda>x. \<not> is_profile_option x) opts
       | _ \<Rightarrow> True) \<and> identity_settled opts)"

definition identity_agrees :: "('w, 'j, 'p) client_config \<Rightarrow> bool" where
  "identity_agrees c \<longleftrightarrow>
     (case cc_identity c of None \<Rightarrow> True | Some i \<Rightarrow> bp_tls_profile (id_profile i) = cc_profile c)"

lemma apply_option_identity:
  assumes "identity_agrees c" "cc_identity c = None \<or> \<not> is_profile_option opt"
    "case opt of WithIdentity i \<Rightarrow> bp_tls_profile (id_profile i) \<noteq> [] | _ \<Rightarrow> True"
  shows "identity_agrees (apply_option oe opt c)"
    and "cc_identity (apply_option oe opt c) = None \<longleftrightarrow>
      cc_identity c = None \<and> (case opt of WithIdentity i \<Rightarrow> False | _ \<Rightarrow> True)"
  using assms
  by (cases opt; auto simp: option_defs identity_agrees_def Let_def split: sum.split prod.split option.splits)+

lemma options_identity:
  assumes "identity_settled opts" "identity_agrees c" "cc_identity c = None \<or> list_all (\<lambda>x. \<not> is_profile_option x) opts"
  shows "identity_agrees (fold (apply_option oe) opts c)"
  using assms
proof (induction opts arbitrary: c)
  case (Cons opt opts)
  have "cc_identity c = None \<or> \<not> is_profile_option opt" using Cons.prems(3) by auto
  moreover have "case opt of WithIdentity i \<Rightarrow> bp_tls_profile (id_profile i) \<noteq> [] | _ \<Rightarrow> True"
    using Cons.prems(1) by (cases opt) auto
  ultimately have ok: "identity_agrees (apply_option oe opt c)"
    and n: "cc_identity (apply_option oe opt c) = None \<longleftrightarrow>
      cc_identity c = None \<and> (case opt of WithIdentity i \<Rightarrow> False | _ \<Rightarrow> True)"
    using apply_option_identity [of c opt oe] Cons.prems(2) by blast+
  have "cc_identity (apply_option oe opt c) = None \<or> list_all (\<lambda>x. \<not> is_profile_option x) opts"
    using n Cons.prems(1,3) by (cases opt) auto
  then show ?case using Cons.IH [OF _ ok] Cons.prems(1) by simp
qed simp

lemma find_profile_tls: "find_profile p ss = Some b \<Longrightarrow> bp_tls_profile b = p"
  by (induction p ss rule: find_profile.induct) (auto simp: find_Some_iff split: option.splits)

lemma profile_for_tls_name: "profile_for_tls p = Some b \<Longrightarrow> bp_tls_profile b = p"
  unfolding profile_for_tls_def by (rule find_profile_tls)

text \<open>What an option says about the TLS profile and about the identity.\<close>

fun profile_setting :: "('w, 'j, 'p) client_option \<Rightarrow> string option" where
  "profile_setting (WithProfile p) = (if p = [] then None else Some p)"
| "profile_setting (WithIdentity i) = (if bp_tls_profile (id_profile i) = [] then None else Some (bp_tls_profile (id_profile i)))"
| "profile_setting _ = None"

fun identity_setting :: "('w, 'j, 'p) client_option \<Rightarrow> browser_profile option" where
  "identity_setting (WithIdentity i) = Some (id_profile i)"
| "identity_setting _ = None"

lemma configured_identity:
  "cc_profile (configure ge oe opts) = (case last_of profile_setting opts of None \<Rightarrow> ''chrome_156'' | Some p \<Rightarrow> p)"
  "map_option id_profile (cc_identity (configure ge oe opts)) = last_of identity_setting opts"
proof (induction opts rule: rev_induct)
  case (snoc opt opts)
  { case 1 show ?case using snoc(1) by (cases opt) (auto simp: configure_snoc option_defs Let_def split: sum.split prod.split) }
  { case 2 show ?case using snoc(2) by (cases opt) (auto simp: configure_snoc option_defs Let_def split: sum.split prod.split) }
qed (simp_all add: configure_def default_config_def)

text \<open>C7: the TLS profile of a client and the browser it reports. Take any list of options in which each
  identity names its TLS profile and no WithProfile follows a WithIdentity. The backend is built with the
  last non-empty profile that an option names, a WithProfile or the profile of a WithIdentity, and with
  Chrome 156 when none does; the client reports the profile of the last WithIdentity, if there is one; and in
  either case what it reports carries the TLS profile of the backend.\<close>

theorem identity_matches_backend:
  assumes "identity_settled opts"
  shows "cc_profile (configure ge oe opts) = (case last_of profile_setting opts of None \<Rightarrow> ''chrome_156'' | Some p \<Rightarrow> p) \<and>
    (case last_of identity_setting opts of
       None \<Rightarrow> True
     | Some b \<Rightarrow> id_profile (resolve_identity (configure ge oe opts)) = b) \<and>
    bp_tls_profile (id_profile (resolve_identity (configure ge oe opts))) = cc_profile (configure ge oe opts)"
proof -
  let ?c = "configure ge oe opts"
  have "identity_agrees ?c" unfolding configure_def
    by (rule options_identity [OF assms]) (simp_all add: identity_agrees_def default_config_def)
  then have "bp_tls_profile (id_profile (resolve_identity ?c)) = cc_profile ?c"
    by (auto simp: resolve_identity_def identity_agrees_def Let_def zero_profile_def bp_def
        dest: profile_for_tls_name split: option.splits)
  moreover have "case last_of identity_setting opts of None \<Rightarrow> True | Some b \<Rightarrow> id_profile (resolve_identity ?c) = b"
    using configured_identity(2) [of ge oe opts] by (auto simp: resolve_identity_def split: option.splits)
  ultimately show ?thesis using configured_identity(1) by blast
qed

theorem identity_matches_backend_witness:
  "bp_tls_profile (id_profile (resolve_identity (configure demo_guards demo_options
     [WithProfile ''chrome_146'', WithIdentity \<lparr>id_profile = bp ''ua'' ''firefox_148'' ''firefox'' ''linux'' False, id_client_hints = None\<rparr>]))) =
   cc_profile (configure demo_guards demo_options
     [WithProfile ''chrome_146'', WithIdentity \<lparr>id_profile = bp ''ua'' ''firefox_148'' ''firefox'' ''linux'' False, id_client_hints = None\<rparr>])"
  using identity_matches_backend [of
      "[WithProfile ''chrome_146'', WithIdentity \<lparr>id_profile = bp ''ua'' ''firefox_148'' ''firefox'' ''linux'' False, id_client_hints = None\<rparr>]"
      demo_guards demo_options]
  by (simp add: bp_def)

text \<open>With the two options in the other order the client presents two browsers: the TLS profile of
  the later WithProfile under the User-Agent of the identity.\<close>

lemma profile_after_identity_drifts:
  "cc_profile (configure ge oe
     [WithIdentity \<lparr>id_profile = bp ''ua'' ''firefox_148'' ''firefox'' ''linux'' False, id_client_hints = None\<rparr>, WithProfile ''chrome_146'']) = ''chrome_146''"
  "bp_browser (id_profile (resolve_identity (configure ge oe
     [WithIdentity \<lparr>id_profile = bp ''ua'' ''firefox_148'' ''firefox'' ''linux'' False, id_client_hints = None\<rparr>, WithProfile ''chrome_146'']))) = ''firefox''"
  by (simp_all add: configure_def default_config_def option_defs resolve_identity_def bp_def Let_def)

text \<open>WithStdHTTP after WithBackend replaces the backend and leaves the mark that it is the
  caller's, so the client never closes the backend it has built.\<close>

lemma std_after_backend_not_owned:
  "cc_caller_backend (configure ge oe [WithBackend (Some f), WithStdHTTP])"
  "cc_backend (configure ge oe [WithBackend (Some f), WithStdHTTP]) = Some (oe_std_backend oe)"
  by (simp_all add: configure_def default_config_def option_defs)

text \<open>A second pool made by an option replaces the closer of the first, which is then never closed.\<close>

lemma second_pool_loses_first_closer:
  assumes "oe_webshare oe k1 [c1] = Inr (p1, cl1)" "oe_webshare oe k2 [c2] = Inr (p2, cl2)"
  shows "cc_pool_closer (configure ge oe [WithWebshareCountry k1 [c1], WithWebshareCountry k2 [c2]]) = Some cl2"
  using assms by (simp add: configure_def default_config_def option_defs)

end
