(* ===== verification/Client.thy ===== *)
theory Client
  imports Client_Options
begin

text \<open>
  The client itself (\<^verbatim>\<open>src/client.go\<close>): its construction, one request with proxy
  rotation and block retries, the proxy switch, the cancellable variants
  (\<^verbatim>\<open>client_ctx.go\<close>) and its closing. The parts of a client that never change after
  \<^verbatim>\<open>NewClient\<close> (and \<^verbatim>\<open>Use\<close>) are the record \<open>browser_client\<close>, the others \<open>client_state\<close>,
  which also holds the world. The handler the code caches until the next \<^verbatim>\<open>Use\<close> is a function
  of the middlewares, and is computed here each time.
\<close>

record 'w client_state =
  cs_world :: 'w
  cs_allow :: "proxy_allowance option"
  cs_closed :: bool
  cs_close_err :: "go_error option"

record 'w browser_client =
  cl_doer :: "'w http_doer"
  cl_header_order :: "string list"
  cl_proxy_pool :: "'w proxy_provider option"
  cl_pool_closer :: "('w \<Rightarrow> go_error option \<times> 'w) option"
  cl_middlewares :: "'w client_state middleware list"
  cl_debug :: bool
  cl_block_retries :: int
  cl_identity :: browser_identity
  cl_fetch_mode :: bool
  cl_doer_closer :: "('w \<Rightarrow> 'w) option"
  cl_doer_idler :: "('w \<Rightarrow> 'w) option"
  cl_url_guard :: "'w url_guard option"
  cl_dial_control :: "dial_guard option"
  cl_parse :: "string \<Rightarrow> go_error + go_url"
  cl_resolve :: "'w \<Rightarrow> string \<Rightarrow> proxy_endpoint option"
  cl_pause :: "'w \<Rightarrow> 'w"

text \<open>The dial guard of the backend at this moment.\<close>

definition current_guard :: "'w browser_client \<Rightarrow> proxy_allowance option \<Rightarrow> dial_guard option" where
  "current_guard bc a =
     (case a of None \<Rightarrow> None | Some al \<Rightarrow> map_option (allowance_wrap al) (cl_dial_control bc))"

definition client_set_proxy ::
    "'w browser_client \<Rightarrow> string \<Rightarrow> 'w client_state \<Rightarrow> (go_error option \<times> 'w client_state) option"
where
  "client_set_proxy bc url s =
     (case cs_allow s of
        Some a \<Rightarrow>
          map_option (\<lambda>(r, a', w'). (r, s\<lparr>cs_allow := Some a', cs_world := w'\<rparr>))
            (allowance_apply (cl_resolve bc (cs_world s))
               (\<lambda>a1 u w. hd_set_proxy (cl_doer bc) (current_guard bc (Some a1)) u w) url a (cs_world s))
      | None \<Rightarrow>
          (let (r, w') = hd_set_proxy (cl_doer bc) (current_guard bc None) url (cs_world s)
           in Some (r, s\<lparr>cs_world := w'\<rparr>)))"

definition client_get_cookie_value :: "'w browser_client \<Rightarrow> string \<Rightarrow> string \<Rightarrow> 'w client_state \<Rightarrow> string" where
  "client_get_cookie_value bc url name s = hd_cookie_value (cl_doer bc) url name (cs_world s)"

subsection \<open>One request\<close>

definition fetch_priority_header :: string where
  "fetch_priority_header = ''u=1, i''"

text \<open>The loop over the keys, as the question whether one of them is the header in some
  capitalisation; those are finitely many.\<close>

fun case_variants :: "string \<Rightarrow> string list" where
  "case_variants [] = [[]]"
| "case_variants (c # s) =
     (let cs = filter (\<lambda>d. lower_char d = lower_char c) (map char_of [0..<256 :: nat])
      in concat (map (\<lambda>d. map (\<lambda>t. d # t) (case_variants s)) cs))"

definition has_priority_header :: "header_map \<Rightarrow> bool" where
  "has_priority_header h \<longleftrightarrow> (\<exists>k\<in>dom h. equal_fold k ''priority'')"

definition with_fetch_priority_header :: "header_map option \<Rightarrow> header_map option" where
  "with_fetch_priority_header h =
     (let m = (case h of None \<Rightarrow> (\<lambda>k. None) | Some m \<Rightarrow> m)
      in if has_priority_header m then h else Some (m(''priority'' \<mapsto> fetch_priority_header)))"

definition base_handler :: "'w browser_client \<Rightarrow> string list \<Rightarrow> 'w client_state handler" where
  "base_handler bc order q s =
     (case (case cl_url_guard bc of
              None \<Rightarrow> None
            | Some g \<Rightarrow>
                (case cl_parse bc (rq_url q) of
                   Inl e \<Rightarrow> Some (ErrFmt [Wrapped ErrSSRFBlocked, Lit ('': parse '' @ quoted (rq_url q) @ '': ''), Wrapped e])
                 | Inr u \<Rightarrow> g (Some u) (cs_world s))) of
        Some e \<Rightarrow> Some ((None, Some e), q, s)
      | None \<Rightarrow>
          (let q1 = q\<lparr>rq_order := order\<rparr>;
               q2 = (if cl_fetch_mode bc then q1\<lparr>rq_headers := with_fetch_priority_header (rq_headers q1)\<rparr> else q1)
           in map_option (\<lambda>(r, q3, w'). (r, q3, s\<lparr>cs_world := w'\<rparr>))
                (hd_do (cl_doer bc) (current_guard bc (cs_allow s)) q2 (cs_world s))))"

definition build_handler :: "'w browser_client \<Rightarrow> string list \<Rightarrow> 'w client_state handler" where
  "build_handler bc order =
     (if cl_middlewares bc \<noteq> [] then chain (cl_middlewares bc) (base_handler bc order) else base_handler bc order)"

definition client_identity :: "'w browser_client \<Rightarrow> browser_identity" where
  "client_identity bc = cl_identity bc"

definition client_use :: "'w client_state middleware list \<Rightarrow> 'w browser_client \<Rightarrow> 'w browser_client" where
  "client_use mw bc = bc\<lparr>cl_middlewares := cl_middlewares bc @ mw\<rparr>"

definition is_block_status :: "int \<Rightarrow> bool" where
  "is_block_status code \<longleftrightarrow> code = 403 \<or> code = 429 \<or> code = 502 \<or> code = 503"

definition is_proxy_auth_error :: "go_error \<Rightarrow> bool" where
  "is_proxy_auth_error e \<longleftrightarrow>
     str_contains (err_msg e) ''Proxy Authentication Required'' \<or> str_contains (err_msg e) ''non 200 code: 407''"

record do_result =
  dr_body :: string
  dr_headers :: header_map
  dr_status :: int
  dr_err :: "go_error option"

definition fail_result :: "int \<Rightarrow> go_error option \<Rightarrow> do_result" where
  "fail_result status e = \<lparr>dr_body = [], dr_headers = (\<lambda>k. None), dr_status = status, dr_err = e\<rparr>"

definition ok_result :: "http_response \<Rightarrow> do_result" where
  "ok_result r = \<lparr>dr_body = rs_body r, dr_headers = rs_headers r, dr_status = rs_status r, dr_err = None\<rparr>"

definition max_attempts :: "'w browser_client \<Rightarrow> int" where
  "max_attempts bc =
     (if cl_proxy_pool bc \<noteq> None \<and> 0 < cl_block_retries bc then wrap64 (1 + cl_block_retries bc) else 1)"

text \<open>The proxy of an attempt: the next one of the pool, if there is a pool.\<close>

definition rotate_proxy :: "'w browser_client \<Rightarrow> 'w client_state \<Rightarrow> (go_error option \<times> 'w client_state) option" where
  "rotate_proxy bc s =
     (case cl_proxy_pool bc of
        None \<Rightarrow> Some (None, s)
      | Some p \<Rightarrow> let (url, w1) = px_next p (cs_world s) in client_set_proxy bc url (s\<lparr>cs_world := w1\<rparr>))"

definition report_auth :: "'w browser_client \<Rightarrow> 'w client_state \<Rightarrow> 'w client_state" where
  "report_auth bc s =
     (case cl_proxy_pool bc of
        None \<Rightarrow> s
      | Some p \<Rightarrow> (case px_report p of None \<Rightarrow> s | Some f \<Rightarrow> s\<lparr>cs_world := f (cs_world s)\<rparr>))"

fun do_loop ::
    "'w browser_client \<Rightarrow> 'w client_state handler \<Rightarrow> int \<Rightarrow> int \<Rightarrow> nat \<Rightarrow> http_request \<Rightarrow> 'w client_state \<Rightarrow>
     (do_result \<times> http_request \<times> 'w client_state) option"
where
  "do_loop bc h n attempt 0 q s = Some (fail_result 0 None, q, s)"
| "do_loop bc h n attempt (Suc k) q s =
     (case rotate_proxy bc s of
        None \<Rightarrow> None
      | Some (Some e, s1) \<Rightarrow>
          if attempt = n - 1
          then Some (fail_result 0 (Some (ErrFmt
                 [Lit (''proxy pool exhausted: all '' @ int_str n @ '' proxies failed SetProxy: ''), Wrapped e])), q, s1)
          else do_loop bc h n (attempt + 1) k q s1
      | Some (None, s1) \<Rightarrow>
          (case h q s1 of
             None \<Rightarrow> None
           | Some ((resp, Some e), q1, s2) \<Rightarrow>
               if errors_is e ErrSSRFBlocked then Some (fail_result 0 (Some e), q1, s2)
               else let s3 = (if cl_proxy_pool bc \<noteq> None \<and> is_proxy_auth_error e then report_auth bc s2 else s2)
                    in if attempt < n - 1 \<and> cl_proxy_pool bc \<noteq> None then do_loop bc h n (attempt + 1) k q1 s3
                       else Some (fail_result (case resp of None \<Rightarrow> 0 | Some r \<Rightarrow> rs_status r) (Some e), q1, s3)
           | Some ((None, None), q1, s2) \<Rightarrow> None
           | Some ((Some r, None), q1, s2) \<Rightarrow>
               let s3 = (if cl_proxy_pool bc \<noteq> None \<and> rs_status r = 407 then report_auth bc s2 else s2)
               in if attempt < n - 1 \<and> is_block_status (rs_status r)
                  then do_loop bc h n (attempt + 1) k q1 (s3\<lparr>cs_world := cl_pause bc (cs_world s3)\<rparr>)
                  else Some (ok_result r, q1, s3)))"

definition do_with_retry ::
    "'w browser_client \<Rightarrow> 'w client_state handler \<Rightarrow> http_request \<Rightarrow> 'w client_state \<Rightarrow>
     (do_result \<times> http_request \<times> 'w client_state) option"
where
  "do_with_retry bc h q s = do_loop bc h (max_attempts bc) 0 (nat (max_attempts bc)) q s"

definition make_request :: "string \<Rightarrow> string \<Rightarrow> header_map option \<Rightarrow> string option \<Rightarrow> http_request" where
  "make_request method url headers body =
     \<lparr>rq_method = method, rq_url = url, rq_headers = headers, rq_body = body, rq_order = []\<rparr>"

definition do_with_header_order ::
    "'w browser_client \<Rightarrow> string \<Rightarrow> string \<Rightarrow> header_map option \<Rightarrow> string option \<Rightarrow> string list \<Rightarrow> 'w client_state \<Rightarrow>
     (do_result \<times> http_request \<times> 'w client_state) option"
where
  "do_with_header_order bc method url headers body order s =
     do_with_retry bc (build_handler bc order) (make_request method url headers body) s"

definition client_do ::
    "'w browser_client \<Rightarrow> string \<Rightarrow> string \<Rightarrow> header_map option \<Rightarrow> string option \<Rightarrow> 'w client_state \<Rightarrow>
     (do_result \<times> http_request \<times> 'w client_state) option"
where
  "client_do bc method url headers body s =
     do_with_retry bc (build_handler bc (cl_header_order bc)) (make_request method url headers body) s"

text \<open>The cancellable variants run the request in a goroutine of their own. \<open>early\<close> is the error
  of the context at the start; \<open>first\<close> is what the \<^verbatim>\<open>select\<close> sees first: the error of the
  context, or the result. The state is the one after the request has ended, which it does
  either way.\<close>

definition do_ctx ::
    "go_error option \<Rightarrow> go_error option \<Rightarrow> ('s \<Rightarrow> (do_result \<times> http_request \<times> 's) option) \<Rightarrow> 's \<Rightarrow> (do_result \<times> 's) option"
where
  "do_ctx early first run s =
     (case early of
        Some e \<Rightarrow> Some (fail_result 0 (Some e), s)
      | None \<Rightarrow>
          (case run s of
             None \<Rightarrow> None
           | Some (r, q, s') \<Rightarrow> Some (case first of Some e \<Rightarrow> fail_result 0 (Some e) | None \<Rightarrow> r, s')))"

definition client_do_ctx ::
    "go_error option \<Rightarrow> go_error option \<Rightarrow> 'w browser_client \<Rightarrow> string \<Rightarrow> string \<Rightarrow> header_map option \<Rightarrow> string option \<Rightarrow>
     'w client_state \<Rightarrow> (do_result \<times> 'w client_state) option"
where
  "client_do_ctx early first bc method url headers body = do_ctx early first (client_do bc method url headers body)"

definition do_with_header_order_ctx ::
    "go_error option \<Rightarrow> go_error option \<Rightarrow> 'w browser_client \<Rightarrow> string \<Rightarrow> string \<Rightarrow> header_map option \<Rightarrow> string option \<Rightarrow>
     string list \<Rightarrow> 'w client_state \<Rightarrow> (do_result \<times> 'w client_state) option"
where
  "do_with_header_order_ctx early first bc method url headers body order =
     do_ctx early first (do_with_header_order bc method url headers body order)"

subsection \<open>Closing\<close>

definition client_close_idle :: "'w browser_client \<Rightarrow> 'w client_state \<Rightarrow> 'w client_state" where
  "client_close_idle bc s = (case cl_doer_idler bc of None \<Rightarrow> s | Some f \<Rightarrow> s\<lparr>cs_world := f (cs_world s)\<rparr>)"

definition client_close :: "'w browser_client \<Rightarrow> 'w client_state \<Rightarrow> go_error option \<times> 'w client_state" where
  "client_close bc s =
     (let s' = (if cs_closed s then s
                else let (err, w1) = (case cl_pool_closer bc of
                                        None \<Rightarrow> (cs_close_err s, cs_world s) | Some f \<Rightarrow> f (cs_world s));
                         w2 = (case cl_doer_closer bc of None \<Rightarrow> w1 | Some f \<Rightarrow> f w1)
                     in s\<lparr>cs_world := w2, cs_closed := True, cs_close_err := err\<rparr>)
      in (cs_close_err s', s'))"

subsection \<open>Construction\<close>

record ('w, 'j, 'p, 't) client_env =
  ce_guards :: "'w guard_env"
  ce_options :: "('w, 'j, 'p) option_env"
  ce_tls_backend :: "('w, 'j) backend_factory"
  ce_parse :: "string \<Rightarrow> go_error + go_url"
  ce_lookup_addr :: "'w \<Rightarrow> string \<Rightarrow> go_error + netip_addr list"
  ce_pause :: "'w \<Rightarrow> 'w"
  ce_from_env :: "('p, 't) ox_transport \<Rightarrow> string \<Rightarrow> go_error + ('p, 't) ox_transport"
  ce_ox_cookies :: "('p, 't) ox_solver \<Rightarrow> 'w cookie_ops"
  ce_fetch_smart :: "('p, 't) ox_client \<Rightarrow> string \<Rightarrow> 'w \<Rightarrow> (go_error + fetch_smart_response) \<times> 'w"

definition parse_ok :: "(string \<Rightarrow> go_error + go_url) \<Rightarrow> string \<Rightarrow> go_url option" where
  "parse_ok parse raw = (case parse raw of Inl e \<Rightarrow> None | Inr u \<Rightarrow> Some u)"

definition parse_host :: "(string \<Rightarrow> go_error + go_url) \<Rightarrow> url_parser" where
  "parse_host parse raw = map_option url_hostname (parse_ok parse raw)"

text \<open>Operations on the world, as operations on the state of the client.\<close>

definition lift_cookie_ops :: "'w cookie_ops \<Rightarrow> 'w client_state cookie_ops" where
  "lift_cookie_ops ops =
     \<lparr>cp_get = (\<lambda>d s. let (c, w) = cp_get ops d (cs_world s) in (c, s\<lparr>cs_world := w\<rparr>)),
      cp_solve = (\<lambda>d ch s. let (r, w) = cp_solve ops d ch (cs_world s) in (r, s\<lparr>cs_world := w\<rparr>))\<rparr>"

definition lift_fetch ::
    "(string \<Rightarrow> 'w \<Rightarrow> 'r \<times> 'w) \<Rightarrow> string \<Rightarrow> 'w client_state \<Rightarrow> 'r \<times> 'w client_state"
where
  "lift_fetch f u s = (let (r, w) = f u (cs_world s) in (r, s\<lparr>cs_world := w\<rparr>))"

definition ox_browser_proxy_fn :: "('w proxy_provider \<times> 'p option) option \<Rightarrow> 'p option" where
  "ox_browser_proxy_fn pool = (case pool of None \<Rightarrow> None | Some (p, tp) \<Rightarrow> tp)"

definition new_ox_browser_client_maybe_proxy ::
    "(('p, 't) ox_transport \<Rightarrow> string \<Rightarrow> go_error + ('p, 't) ox_transport) \<Rightarrow> string \<Rightarrow> 'p option \<Rightarrow> ('p, 't) ox_client"
where
  "new_ox_browser_client_maybe_proxy from_env url proxy_fn =
     (case proxy_fn of Some f \<Rightarrow> new_ox_browser_client_with_proxy url f | None \<Rightarrow> new_ox_browser_client from_env url)"

definition backend_config_of ::
    "('w, 'j, 'p) client_config \<Rightarrow> (proxy_allowance \<Rightarrow> dial_guard) option \<Rightarrow> ('w, 'j) backend_config"
where
  "backend_config_of cfg dial =
     \<lparr>be_profile = cc_profile cfg, be_proxy_url = cc_proxy_url cfg, be_timeout = cc_timeout cfg,
      be_follow_redirects = cc_follow_redirects cfg, be_http3 = cc_http3 cfg, be_fetch_mode = cc_fetch_mode cfg,
      be_cookie_jar = cc_cookie_jar cfg, be_insecure = cc_insecure cfg, be_dial_control = dial,
      be_redirect_guard = cc_redirect_guard cfg\<rparr>"

text \<open>The middlewares the options install, first added first.\<close>

definition initial_middlewares ::
    "('w, 'j, 'p, 't) client_env \<Rightarrow> ('w, 'j, 'p) client_config \<Rightarrow> 'w client_state middleware list"
where
  "initial_middlewares env cfg =
     (let host = parse_host (ce_parse env)
      in (if cc_debug cfg then [logging_middleware] else []) @
         (case cc_cookie_provider cfg of
            Some p \<Rightarrow> [cloudflare_cookie_middleware host (lift_cookie_ops p), cloudflare_detect_middleware]
          | None \<Rightarrow> []) @
         (if cc_ox_browser_url cfg \<noteq> [] then
            let proxy_fn = ox_browser_proxy_fn (cc_proxy_pool cfg);
                ox = new_ox_browser_client_maybe_proxy (ce_from_env env) (cc_ox_browser_url cfg) proxy_fn
            in (if cc_cookie_provider cfg = None
                then [cloudflare_cookie_middleware host (lift_cookie_ops (ce_ox_cookies env
                        (new_ox_browser_solver (ce_from_env env) (cc_ox_browser_url cfg) 0 proxy_fn))),
                      cloudflare_detect_middleware]
                else []) @ [smart_fetch_middleware (lift_fetch (ce_fetch_smart env ox))]
          else []))"

definition client_of ::
    "('w, 'j, 'p, 't) client_env \<Rightarrow> ('w, 'j, 'p) client_config \<Rightarrow> 'w http_doer \<Rightarrow> 'w browser_client"
where
  "client_of env cfg doer =
     \<lparr>cl_doer = doer,
      cl_header_order = (case cc_header_order cfg of
                           Some order \<Rightarrow> order
                         | None \<Rightarrow> default_header_order_for (resolve_identity cfg) (cc_fetch_mode cfg)),
      cl_proxy_pool = map_option fst (cc_proxy_pool cfg),
      cl_pool_closer = cc_pool_closer cfg,
      cl_middlewares = initial_middlewares env cfg,
      cl_debug = cc_debug cfg,
      cl_block_retries = cc_block_retries cfg,
      cl_identity = resolve_identity cfg,
      cl_fetch_mode = cc_fetch_mode cfg,
      cl_doer_closer = (if cc_caller_backend cfg then None else hd_close doer),
      cl_doer_idler = (if cc_caller_backend cfg then None else hd_idle doer),
      cl_url_guard = cc_url_guard cfg,
      cl_dial_control = cc_dial_control cfg,
      cl_parse = ce_parse env,
      cl_resolve = (\<lambda>w. resolve_proxy_endpoint (parse_ok (ce_parse env)) (ce_lookup_addr env w)),
      cl_pause = ce_pause env\<rparr>"

definition new_client ::
    "('w, 'j, 'p, 't) client_env \<Rightarrow> ('w, 'j, 'p) client_option list \<Rightarrow> 'w \<Rightarrow>
     ((go_error + 'w browser_client \<times> 'w client_state) \<times> 'w) option"
where
  "new_client env opts w =
     (let cfg = configure (ce_guards env) (ce_options env) opts
      in if cc_build_errors cfg \<noteq> [] then Some (Inl (hd (cc_build_errors cfg)), w)
         else case (if cc_fetch_mode cfg then check_fetch_mode_identity cfg else None) of
           Some e \<Rightarrow> Some (Inl e, w)
         | None \<Rightarrow>
             (case (case cc_dial_control cfg of
                      None \<Rightarrow> Some None
                    | Some g \<Rightarrow>
                        map_option Some (new_proxy_allowance
                          (resolve_proxy_endpoint (parse_ok (ce_parse env)) (ce_lookup_addr env w)) (cc_proxy_url cfg))) of
                None \<Rightarrow> None
              | Some al \<Rightarrow>
                  (let factory = (case cc_backend cfg of None \<Rightarrow> ce_tls_backend env | Some f \<Rightarrow> f);
                       dial = map_option (\<lambda>g a. allowance_wrap a g) (cc_dial_control cfg)
                   in case factory (backend_config_of cfg dial) w of
                        (Inl e, w1) \<Rightarrow> Some (Inl e, w1)
                      | (Inr doer, w1) \<Rightarrow>
                          Some (Inr (client_of env cfg doer,
                                     \<lparr>cs_world = w1, cs_allow = al, cs_closed = False, cs_close_err = None\<rparr>), w1))))"

subsection \<open>Facts\<close>

lemma char_in_table: "(c :: char) \<in> set (map char_of [0..<256 :: nat])"
proof -
  have "c \<in> char_of ` {0 :: nat..<256}" using UNIV_char_of_nat by blast
  then show ?thesis by (simp only: set_map set_upt)
qed

lemma case_variants_iff: "k \<in> set (case_variants s) \<longleftrightarrow> equal_fold k s"
proof (induction s arbitrary: k)
  case Nil
  show ?case by (simp add: equal_fold_def to_lower_def)
next
  case (Cons c s)
  have "k \<in> set (case_variants (c # s)) \<longleftrightarrow>
    (\<exists>d t. d \<in> set (map char_of [0..<256 :: nat]) \<and> lower_char d = lower_char c \<and> t \<in> set (case_variants s) \<and> k = d # t)"
    by (auto simp: Let_def)
  also have "\<dots> \<longleftrightarrow> (\<exists>d t. lower_char d = lower_char c \<and> equal_fold t s \<and> k = d # t)"
    using char_in_table Cons.IH by blast
  also have "\<dots> \<longleftrightarrow> equal_fold k (c # s)"
    by (cases k) (auto simp: equal_fold_def to_lower_def)
  finally show ?case .
qed

lemma some_variant_iff: "(\<exists>k\<in>dom h. equal_fold k s) \<longleftrightarrow> list_ex (\<lambda>k. h k \<noteq> None) (case_variants s)"
  by (auto simp: list_ex_iff case_variants_iff dom_def)

lemma has_priority_header_code [code]:
  "has_priority_header h = list_ex (\<lambda>k. h k \<noteq> None) (case_variants ''priority'')"
  unfolding has_priority_header_def by (rule some_variant_iff)

subsection \<open>The attempts of a request\<close>

datatype attempt =
    ProxyFailed go_error
  | Failed "http_response option" go_error
  | Answered http_response

definition one_attempt ::
    "'w browser_client \<Rightarrow> 'w client_state handler \<Rightarrow> http_request \<Rightarrow> 'w client_state \<Rightarrow>
     (attempt \<times> http_request \<times> 'w client_state) option"
where
  "one_attempt bc h q s =
     (case rotate_proxy bc s of
        None \<Rightarrow> None
      | Some (Some e, s1) \<Rightarrow> Some (ProxyFailed e, q, s1)
      | Some (None, s1) \<Rightarrow>
          (case h q s1 of
             None \<Rightarrow> None
           | Some ((resp, Some e), q1, s2) \<Rightarrow>
               Some (Failed resp e, q1,
                 if \<not> errors_is e ErrSSRFBlocked \<and> cl_proxy_pool bc \<noteq> None \<and> is_proxy_auth_error e then report_auth bc s2 else s2)
           | Some ((None, None), q1, s2) \<Rightarrow> None
           | Some ((Some r, None), q1, s2) \<Rightarrow>
               Some (Answered r, q1,
                 if cl_proxy_pool bc \<noteq> None \<and> rs_status r = 407 then report_auth bc s2 else s2)))"

definition pause_after :: "'w browser_client \<Rightarrow> attempt \<Rightarrow> 'w client_state \<Rightarrow> 'w client_state" where
  "pause_after bc a s = (case a of Answered r \<Rightarrow> s\<lparr>cs_world := cl_pause bc (cs_world s)\<rparr> | _ \<Rightarrow> s)"

inductive attempts ::
    "'w browser_client \<Rightarrow> 'w client_state handler \<Rightarrow> http_request \<Rightarrow> 'w client_state \<Rightarrow> attempt list \<Rightarrow>
     http_request \<Rightarrow> 'w client_state \<Rightarrow> bool"
  for bc :: "'w browser_client" and h :: "'w client_state handler" where
  attempt_last: "one_attempt bc h q s = Some (a, q', s') \<Longrightarrow> attempts bc h q s [a] q' s'"
| attempt_more: "one_attempt bc h q s = Some (a, q1, s1) \<Longrightarrow> attempts bc h q1 (pause_after bc a s1) as q' s' \<Longrightarrow>
     attempts bc h q s (a # as) q' s'"

definition retried :: "'w browser_client \<Rightarrow> attempt \<Rightarrow> bool" where
  "retried bc a =
     (case a of
        ProxyFailed e \<Rightarrow> True
      | Failed resp e \<Rightarrow> \<not> errors_is e ErrSSRFBlocked \<and> cl_proxy_pool bc \<noteq> None
      | Answered r \<Rightarrow> is_block_status (rs_status r))"

definition attempt_result :: "int \<Rightarrow> attempt \<Rightarrow> do_result" where
  "attempt_result n a =
     (case a of
        ProxyFailed e \<Rightarrow> fail_result 0 (Some (ErrFmt
          [Lit (''proxy pool exhausted: all '' @ int_str n @ '' proxies failed SetProxy: ''), Wrapped e]))
      | Failed resp e \<Rightarrow>
          fail_result (if errors_is e ErrSSRFBlocked then 0 else case resp of None \<Rightarrow> 0 | Some r \<Rightarrow> rs_status r) (Some e)
      | Answered r \<Rightarrow> ok_result r)"

lemma do_loop_step:
  assumes "attempt = n - 1 - int k"
  shows "do_loop bc h n attempt (Suc k) q s =
    (case one_attempt bc h q s of
       None \<Rightarrow> None
     | Some (a, q1, s1) \<Rightarrow>
         if retried bc a \<and> 0 < k then do_loop bc h n (attempt + 1) k q1 (pause_after bc a s1)
         else Some (attempt_result n a, q1, s1))"
proof -
  have at: "attempt = n - 1 \<longleftrightarrow> k = 0" "attempt < n - 1 \<longleftrightarrow> 0 < k" using assms by auto
  show ?thesis
  proof (cases "rotate_proxy bc s")
    case None
    then show ?thesis by (simp add: one_attempt_def)
  next
    case (Some rs)
    obtain re s1 where rs: "rs = (re, s1)" by (cases rs)
    show ?thesis
    proof (cases re)
      case (Some e)
      with \<open>rotate_proxy bc s = Some rs\<close> rs show ?thesis
        by (simp add: one_attempt_def retried_def attempt_result_def pause_after_def at)
    next
      case None
      note rot = \<open>rotate_proxy bc s = Some rs\<close> [unfolded rs None]
      show ?thesis
      proof (cases "h q s1")
        case None
        with rot show ?thesis by (simp add: one_attempt_def)
      next
        case (Some x)
        obtain resp err q1 s2 where x: "x = ((resp, err), q1, s2)" by (metis prod.collapse)
        note hq = Some [unfolded x]
        show ?thesis
        proof (cases err)
          case (Some e)
          with rot hq show ?thesis
            by (cases resp) (simp_all add: one_attempt_def retried_def attempt_result_def pause_after_def at Let_def)
        next
          case None
          with rot hq show ?thesis
            by (cases resp) (simp_all add: one_attempt_def retried_def attempt_result_def pause_after_def at Let_def)
        qed
      qed
    qed
  qed
qed

definition request_outcome ::
    "'w browser_client \<Rightarrow> 'w client_state handler \<Rightarrow> nat \<Rightarrow> int \<Rightarrow> http_request \<Rightarrow> 'w client_state \<Rightarrow>
     do_result \<Rightarrow> http_request \<Rightarrow> 'w client_state \<Rightarrow> bool"
where
  "request_outcome bc h k n q s r q' s' \<longleftrightarrow>
     (\<exists>as. attempts bc h q s as q' s' \<and> as \<noteq> [] \<and> length as \<le> k \<and>
        list_all (retried bc) (butlast as) \<and> r = attempt_result n (List.last as) \<and>
        (length as = k \<or> \<not> retried bc (List.last as)))"

lemma do_loop_outcome:
  "attempt = n - int k \<Longrightarrow> 0 < k \<Longrightarrow> do_loop bc h n attempt k q s = Some (r, q', s') \<Longrightarrow>
     request_outcome bc h k n q s r q' s'"
proof (induction k arbitrary: attempt q s)
  case (Suc k)
  obtain a q1 s1 where one: "one_attempt bc h q s = Some (a, q1, s1)"
    using Suc.prems do_loop_step [of attempt n k bc h q s] by (cases "one_attempt bc h q s") auto
  show ?case
  proof (cases "retried bc a \<and> 0 < k")
    case True
    with Suc.prems one have "do_loop bc h n (attempt + 1) k q1 (pause_after bc a s1) = Some (r, q', s')"
      using do_loop_step [of attempt n k bc h q s] by simp
    moreover have "attempt + 1 = n - int k" using Suc.prems by simp
    ultimately have "request_outcome bc h k n q1 (pause_after bc a s1) r q' s'" using Suc.IH True by blast
    then obtain as where "attempts bc h q1 (pause_after bc a s1) as q' s'" "as \<noteq> []" "length as \<le> k"
      "list_all (retried bc) (butlast as)" "r = attempt_result n (List.last as)" "length as = k \<or> \<not> retried bc (List.last as)"
      unfolding request_outcome_def by blast
    then show ?thesis unfolding request_outcome_def using attempt_more [OF one] True
      by (intro exI [of _ "a # as"]) auto
  next
    case False
    with Suc.prems one have "r = attempt_result n a" "q' = q1" "s' = s1"
      using do_loop_step [of attempt n k bc h q s] by (auto split: if_splits)
    then show ?thesis unfolding request_outcome_def using attempt_last [OF one] False
      by (intro exI [of _ "[a]"]) auto
  qed
qed simp

lemma do_with_retry_outcome:
  assumes "0 < max_attempts bc" "do_with_retry bc h q s = Some (r, q', s')"
  shows "request_outcome bc h (nat (max_attempts bc)) (max_attempts bc) q s r q' s'"
  using assms do_loop_outcome [of 0 "max_attempts bc" "nat (max_attempts bc)"] by (simp add: do_with_retry_def)

subsection \<open>A client for examples\<close>

text \<open>A world that is the list of the bodies sent, in front of the statuses still to come.\<close>

type_synonym script = "int list \<times> string option list"

definition script_doer :: "script http_doer" where
  "script_doer =
     \<lparr>hd_do = (\<lambda>g q (todo, sent). Some ((Some \<lparr>rs_body = ''b'', rs_headers = (\<lambda>k. None), rs_status = hd todo\<rparr>, None),
          q\<lparr>rq_body := map_option (\<lambda>b. []) (rq_body q)\<rparr>, (tl todo, sent @ [rq_body q]))),
      hd_set_proxy = (\<lambda>g u w. (None, w)), hd_cookie_value = (\<lambda>u n w. []), hd_close = None, hd_idle = None\<rparr>"

definition script_client :: "int \<Rightarrow> script browser_client" where
  "script_client n =
     \<lparr>cl_doer = script_doer, cl_header_order = [], cl_proxy_pool = Some \<lparr>px_next = (\<lambda>w. (''p'', w)), px_report = None\<rparr>,
      cl_pool_closer = None, cl_middlewares = [], cl_debug = False, cl_block_retries = n,
      cl_identity = \<lparr>id_profile = zero_profile, id_client_hints = None\<rparr>, cl_fetch_mode = False, cl_doer_closer = None,
      cl_doer_idler = None, cl_url_guard = None, cl_dial_control = None, cl_parse = (\<lambda>u. Inl ErrCanceled),
      cl_resolve = (\<lambda>w u. None), cl_pause = (\<lambda>w. w)\<rparr>"

definition script_state :: "int list \<Rightarrow> script client_state" where
  "script_state todo = \<lparr>cs_world = (todo, []), cs_allow = None, cs_closed = False, cs_close_err = None\<rparr>"

lemma script_rotate: "cs_allow s = None \<Longrightarrow> rotate_proxy (script_client n) s = Some (None, s)"
  by (simp add: rotate_proxy_def client_set_proxy_def script_client_def script_doer_def)

lemma script_handler:
  "build_handler (script_client n) order q s =
     Some ((Some \<lparr>rs_body = ''b'', rs_headers = (\<lambda>k. None), rs_status = hd (fst (cs_world s))\<rparr>, None),
       q\<lparr>rq_order := order, rq_body := map_option (\<lambda>b. []) (rq_body q)\<rparr>,
       s\<lparr>cs_world := (tl (fst (cs_world s)), snd (cs_world s) @ [rq_body q])\<rparr>)"
  by (simp add: build_handler_def base_handler_def script_client_def script_doer_def case_prod_beta)

lemma script_fields: "cl_pause (script_client n) = (\<lambda>w. w)" "cl_header_order (script_client n) = []"
  by (simp_all add: script_client_def)

lemma script_max: "max_attempts (script_client 1) = 2"
  by (simp add: max_attempts_def script_client_def wrap64_def)

text \<open>A request with a body that is retried after a block status is sent again without it: the
  reader was used up by the first attempt.\<close>

lemma retry_sends_empty_body:
  "case client_do (script_client 1) ''POST'' ''u'' None (Some ''data'') (script_state [503, 200]) of
     None \<Rightarrow> False
   | Some (r, q, s) \<Rightarrow> dr_status r = 200 \<and> cs_world s = ([], [Some ''data'', Some [] ])"
  by (simp add: client_do_def do_with_retry_def script_max numeral_2_eq_2 script_rotate script_handler script_fields
      script_state_def make_request_def is_block_status_def ok_result_def Let_def)

text \<open>With the largest possible number of retries the bound wraps around, no attempt is made, and
  the result is empty with no error.\<close>

lemma huge_retries_do_nothing:
  "client_do (script_client max_int64) m u hs b s = Some (fail_result 0 None, make_request m u hs b, s)"
proof -
  have "max_attempts (script_client max_int64) = - (2 ^ 63)"
    by (simp add: max_attempts_def script_client_def wrap64_def max_int64_def)
  then show ?thesis by (simp add: client_do_def do_with_retry_def)
qed

subsection \<open>Blocked targets\<close>

lemma do_loop_blocked_cong:
  assumes rotate: "\<And>s. rotate_proxy bc' s = rotate_proxy bc s"
    and h: "\<And>t. h q t = Some ((None, Some e), q, t)" "\<And>t. h' q t = Some ((None, Some e), q, t)" "errors_is e ErrSSRFBlocked"
  shows "do_loop bc' h' n attempt k q s = do_loop bc h n attempt k q s"
proof (induction k arbitrary: attempt s)
  case (Suc k)
  then show ?case by (simp add: rotate h split: option.split prod.split)
qed simp

definition exhausted_err :: "int \<Rightarrow> go_error \<Rightarrow> go_error" where
  "exhausted_err n e = ErrFmt [Lit (''proxy pool exhausted: all '' @ int_str n @ '' proxies failed SetProxy: ''), Wrapped e]"

lemma do_loop_blocked:
  assumes h: "\<And>t. h q t = Some ((None, Some e), q, t)" "errors_is e ErrSSRFBlocked"
  shows "attempt = n - int k \<Longrightarrow> 0 < k \<Longrightarrow>
    (case do_loop bc h n attempt k q s of None \<Rightarrow> True
     | Some (r, q', s') \<Rightarrow> r = fail_result 0 (Some e) \<or> (\<exists>e0. r = fail_result 0 (Some (exhausted_err n e0))))"
proof (induction k arbitrary: attempt s)
  case (Suc k)
  show ?case
  proof (cases "rotate_proxy bc s")
    case (Some x)
    obtain re s1 where x: "x = (re, s1)" by (cases x)
    show ?thesis
    proof (cases re)
      case None
      with Some x h show ?thesis by simp
    next
      case (Some e0)
      note rot = \<open>rotate_proxy bc s = Some x\<close> [unfolded x Some]
      show ?thesis
      proof (cases "k = 0")
        case True
        with rot Suc.prems show ?thesis by (auto simp: exhausted_err_def)
      next
        case False
        with rot Suc.prems have "do_loop bc h n attempt (Suc k) q s = do_loop bc h n (attempt + 1) k q s1" by simp
        with Suc.IH [of "attempt + 1" s1] Suc.prems False show ?thesis by simp
      qed
    qed
  qed simp
qed simp

text \<open>C1: a request for a blocked IPv4 address never reaches the backend. With the built-in guard of
  URLs and no middlewares, for every URL whose host is the text of an address in a blocked network,
  whatever the pool, the proxies, the retries and the method: the result is the same whatever the
  backend's Do would be, it is an error, and the error is the sentinel's, unless no proxy could be
  set.\<close>

theorem blocked_target_never_sent:
  assumes "cl_middlewares bc = []" "cl_url_guard bc = Some (builtin_url ge)" "cl_parse bc url = Inr u"
    and "to_lower (url_scheme u) = ''http'' \<or> to_lower (url_scheme u) = ''https''"
    and "url_hostname u = ip4_str a" "list_ex (in_net4 a) blocked_nets4" "0 < max_attempts bc"
  shows "client_do (bc\<lparr>cl_doer := (cl_doer bc)\<lparr>hd_do := f\<rparr>\<rparr>) m url hs b s = client_do bc m url hs b s \<and>
    (case client_do bc m url hs b s of None \<Rightarrow> True
      | Some (r, q', s') \<Rightarrow> dr_body r = [] \<and> dr_status r = 0 \<and>
          (\<exists>e. dr_err r = Some e \<and> (errors_is e ErrSSRFBlocked \<or> (\<exists>e0. e = exhausted_err (max_attempts bc) e0))))"
proof -
  let ?e = "ErrFmt [Wrapped ErrSSRFBlocked, Lit '': '', Lit (ge_ip_str ge (Some (IP6 (mapped a))))]"
  let ?bc = "bc\<lparr>cl_doer := (cl_doer bc)\<lparr>hd_do := f\<rparr>\<rparr>"
  have blocked: "is_blocked_ip (Some (IP6 (mapped a)))"
    using blocked_mapped assms(6) by simp
  then have guard: "builtin_url ge (Some u) w = Some ?e" for w
    using assms(4,5) by (auto simp: builtin_url_def default_deny_url_def ssrf_err_def)
  have h: "base_handler bc order q t = Some ((None, Some ?e), q, t)" if "rq_url q = url" for order q t
    using that assms(2,3) guard by (simp add: base_handler_def)
  have h': "base_handler ?bc order q t = Some ((None, Some ?e), q, t)" if "rq_url q = url" for order q t
    using that assms(2,3) guard by (simp add: base_handler_def)
  have rotate: "rotate_proxy ?bc t = rotate_proxy bc t" for t
    by (simp add: rotate_proxy_def client_set_proxy_def current_guard_def cong: option.case_cong)
  have url: "rq_url (make_request m url hs b) = url" by (simp add: make_request_def)
  have "client_do ?bc m url hs b s = client_do bc m url hs b s"
    using do_loop_blocked_cong [of ?bc bc "base_handler bc (cl_header_order bc)" "make_request m url hs b" ?e
        "base_handler ?bc (cl_header_order bc)"] rotate h [OF url] h' [OF url] assms(1)
    by (simp add: client_do_def do_with_retry_def build_handler_def max_attempts_def)
  moreover have "case client_do bc m url hs b s of None \<Rightarrow> True
      | Some (r, q', s') \<Rightarrow> dr_body r = [] \<and> dr_status r = 0 \<and>
          (\<exists>e. dr_err r = Some e \<and> (errors_is e ErrSSRFBlocked \<or> (\<exists>e0. e = exhausted_err (max_attempts bc) e0)))"
    using do_loop_blocked [of "base_handler bc (cl_header_order bc)" "make_request m url hs b" ?e 0 "max_attempts bc"
        "nat (max_attempts bc)" bc s] h [OF url] assms(1,7)
    by (auto simp: client_do_def do_with_retry_def build_handler_def fail_result_def split: option.splits)
  ultimately show ?thesis by blast
qed

definition metadata_url :: go_url where
  "metadata_url = \<lparr>url_scheme = ''http'', url_host = ''169.254.169.254''\<rparr>"

definition guarded_client :: "script browser_client" where
  "guarded_client = (script_client 1)
     \<lparr>cl_url_guard := Some (builtin_url \<lparr>ge_resolver = (\<lambda>w h. Inr []), ge_ip_str = (\<lambda>ip. [])\<rparr>),
      cl_parse := (\<lambda>u. Inr metadata_url)\<rparr>"

theorem blocked_target_never_sent_witness:
  "client_do (guarded_client\<lparr>cl_doer := (cl_doer guarded_client)\<lparr>hd_do := (\<lambda>g q w. None)\<rparr>\<rparr>) ''GET'' ''u'' None None (script_state [200]) =
   client_do guarded_client ''GET'' ''u'' None None (script_state [200])"
proof (rule blocked_target_never_sent [THEN conjunct1])
  show "cl_middlewares guarded_client = []" by (simp add: guarded_client_def script_client_def)
  show "cl_url_guard guarded_client = Some (builtin_url \<lparr>ge_resolver = (\<lambda>w h. Inr []), ge_ip_str = (\<lambda>ip. [])\<rparr>)"
    "cl_parse guarded_client ''u'' = Inr metadata_url" by (simp_all add: guarded_client_def)
  show "to_lower (url_scheme metadata_url) = ''http'' \<or> to_lower (url_scheme metadata_url) = ''https''"
    by code_simp
  show "url_hostname metadata_url = ip4_str 0xA9FEA9FE" by code_simp
  show "list_ex (in_net4 0xA9FEA9FE) blocked_nets4" by code_simp
  show "0 < max_attempts guarded_client"
    by (simp add: guarded_client_def max_attempts_def script_client_def wrap64_def)
qed

subsection \<open>Middlewares and ownership\<close>

lemma lift_cookie_ops_solve:
  "lift_cookie_ops (ops\<lparr>cp_solve := f\<rparr>) =
     (lift_cookie_ops ops)\<lparr>cp_solve := (\<lambda>d ch s. let (r, w) = f d ch (cs_world s) in (r, s\<lparr>cs_world := w\<rparr>))\<rparr>"
  by (simp add: lift_cookie_ops_def)

text \<open>A defect: the comment of WithCookieSolver promises challenge solving via the provider, and a
  client built with a cookie solver never calls it: with the middlewares that NewClient
  installs, whatever else is configured, two solvers that differ only in Solve give the same
  client. The detection inside the cookie middleware has turned every challenge into an error before
  the cookie middleware sees the response.\<close>

theorem client_never_solves:
  "chain (initial_middlewares env (cfg\<lparr>cc_cookie_provider := Some (ops\<lparr>cp_solve := f\<rparr>)\<rparr>)) h q s =
   chain (initial_middlewares env (cfg\<lparr>cc_cookie_provider := Some (ops\<lparr>cp_solve := g\<rparr>)\<rparr>)) h q s"
proof -
  let ?f = "\<lambda>d ch s. let (r, w) = f d ch (cs_world s) in (r, s\<lparr>cs_world := w\<rparr>)"
  let ?g = "\<lambda>d ch s. let (r, w) = g d ch (cs_world s) in (r, s\<lparr>cs_world := w\<rparr>)"
  let ?m = "\<lambda>x. cloudflare_cookie_middleware (parse_host (ce_parse env)) ((lift_cookie_ops ops)\<lparr>cp_solve := x\<rparr>)"
  have eq: "?m ?f (cloudflare_detect_middleware h') = ?m ?g (cloudflare_detect_middleware h')" for h'
    using solver_order_irrelevant [where parse = "parse_host (ce_parse env)" and ops = "lift_cookie_ops ops" and f = ?f and
        g = ?g and h = h'] by (auto simp: fun_eq_iff)
  show ?thesis
    by (simp add: initial_middlewares_def chain_append lift_cookie_ops_solve Let_def eq [unfolded Let_def])
qed

fun makes_pool :: "('w, 'j, 'p) client_option \<Rightarrow> bool" where
  "makes_pool (WithWebshareCountry k cs) = True"
| "makes_pool (WithWebshareRotating u p cs) = True"
| "makes_pool _ = False"

lemma no_own_pool:
  "list_all (\<lambda>x. \<not> makes_pool x) opts \<Longrightarrow> cc_pool_closer (configure ge oe opts) = None"
proof (induction opts rule: rev_induct)
  case Nil
  show ?case by (simp add: configure_def default_config_def)
next
  case (snoc opt opts)
  then show ?case by (cases opt) (auto simp: configure_snoc option_defs Let_def)
qed

text \<open>C40: Close is idempotent: a second call changes nothing and returns the first one's error. And
  what belongs to the caller is left alone: with a caller's backend and no pool made by an option,
  Close does nothing to the world, and neither does CloseIdleConnections.\<close>

theorem close_releases_only_owned:
  assumes "list_all (\<lambda>x. \<not> makes_pool x) opts" "cc_caller_backend (configure ge oe opts)"
  shows "client_close bc (snd (client_close bc s)) = client_close bc s \<and>
     cs_world (snd (client_close (client_of env (configure ge oe opts) doer) s)) = cs_world s \<and>
     client_close_idle (client_of env (configure ge oe opts) doer) s = s"
proof (intro conjI)
  show "client_close bc (snd (client_close bc s)) = client_close bc s"
    by (auto simp: client_close_def Let_def split: prod.split option.split)
  show "cs_world (snd (client_close (client_of env (configure ge oe opts) doer) s)) = cs_world s"
    using no_own_pool [OF assms(1), of ge oe] assms(2) by (simp add: client_close_def client_of_def Let_def)
  show "client_close_idle (client_of env (configure ge oe opts) doer) s = s"
    using assms(2) by (simp add: client_close_idle_def client_of_def)
qed

definition demo_env :: "(unit, unit, unit, unit) client_env" where
  "demo_env =
     \<lparr>ce_guards = demo_guards, ce_options = demo_options, ce_tls_backend = (\<lambda>c w. (Inl ErrCanceled, w)),
      ce_parse = (\<lambda>u. Inl ErrCanceled), ce_lookup_addr = (\<lambda>w h. Inl ErrCanceled), ce_pause = (\<lambda>w. w),
      ce_from_env = (\<lambda>t u. Inr t), ce_ox_cookies = (\<lambda>s. \<lparr>cp_get = (\<lambda>d w. ([], w)), cp_solve = (\<lambda>d c w. (Inr [], w))\<rparr>),
      ce_fetch_smart = (\<lambda>c u w. (Inl ErrCanceled, w))\<rparr>"

definition demo_doer :: "unit http_doer" where
  "demo_doer =
     \<lparr>hd_do = (\<lambda>g q w. None), hd_set_proxy = (\<lambda>g u w. (None, w)), hd_cookie_value = (\<lambda>u n w. []),
      hd_close = Some (\<lambda>w. w), hd_idle = Some (\<lambda>w. w)\<rparr>"

theorem close_releases_only_owned_witness:
  "client_close_idle (client_of demo_env (configure demo_guards demo_options [WithBackend (Some (\<lambda>c w. (Inr demo_doer, w)))]) demo_doer)
     \<lparr>cs_world = (), cs_allow = None, cs_closed = False, cs_close_err = None\<rparr> =
   \<lparr>cs_world = (), cs_allow = None, cs_closed = False, cs_close_err = None\<rparr>"
  by (rule close_releases_only_owned [THEN conjunct2, THEN conjunct2]) (simp_all add: configure_def option_defs)

end
