(* ===== verification/Decompress.thy ===== *)
theory Decompress
  imports Go_Errors
begin

text \<open>
  Decoding of response bodies (\<^verbatim>\<open>src/decompress.go\<close>). A body is a list of bytes, here
  characters. The codecs are libraries and so parameters: opening a gzip or zlib stream and reading
  it to its end may each fail, and the zstd decoder is made with the two limits of the source. The
  facts show that decoding never fails, that what a server encoded with a supported coding is
  decoded, and the cases in which a body stays encoded.
\<close>

record 'r codecs =
  cd_gzip_open :: "string \<Rightarrow> 'r option"
  cd_zlib_open :: "string \<Rightarrow> 'r option"
  cd_read_all :: "'r \<Rightarrow> go_error + string"
  cd_zstd_decoder :: "nat \<Rightarrow> nat \<Rightarrow> (string \<Rightarrow> string option) option"

definition zstd_max_window :: nat where
  "zstd_max_window = 8 * 2 ^ 20"

definition zstd_max_decoded :: nat where
  "zstd_max_decoded = 64 * 2 ^ 20"

definition zstd_magic :: string where
  "zstd_magic = [CHR 0x28, CHR 0xb5, CHR 0x2f, CHR 0xfd]"

text \<open>Whatever goes wrong, the body is returned as it came.\<close>

definition decompress_stream :: "(string \<Rightarrow> 'r option) \<Rightarrow> ('r \<Rightarrow> go_error + string) \<Rightarrow> string \<Rightarrow> go_error + string" where
  "decompress_stream opn read_all data =
     (case opn data of
        None \<Rightarrow> Inr data
      | Some r \<Rightarrow> (case read_all r of Inl e \<Rightarrow> Inr data | Inr out \<Rightarrow> Inr out))"

definition decompress_gzip :: "'r codecs \<Rightarrow> string \<Rightarrow> go_error + string" where
  "decompress_gzip cd data = decompress_stream (cd_gzip_open cd) (cd_read_all cd) data"

definition decompress_deflate :: "'r codecs \<Rightarrow> string \<Rightarrow> go_error + string" where
  "decompress_deflate cd data = decompress_stream (cd_zlib_open cd) (cd_read_all cd) data"

definition zstd_decoder :: "'r codecs \<Rightarrow> (string \<Rightarrow> string option) option" where
  "zstd_decoder cd = cd_zstd_decoder cd zstd_max_window zstd_max_decoded"

definition decompress_zstd :: "'r codecs \<Rightarrow> string \<Rightarrow> go_error + string" where
  "decompress_zstd cd data =
     (case zstd_decoder cd of
        None \<Rightarrow> Inr data
      | Some decode_all \<Rightarrow> (case decode_all data of None \<Rightarrow> Inr data | Some out \<Rightarrow> Inr out))"

definition gzip_magic :: "string \<Rightarrow> bool" where
  "gzip_magic data \<longleftrightarrow> 2 \<le> length data \<and> data ! 0 = CHR 0x1f \<and> data ! 1 = CHR 0x8b"

definition decompress_body :: "'r codecs \<Rightarrow> string \<Rightarrow> string \<Rightarrow> go_error + string" where
  "decompress_body cd data content_encoding =
     (let enc = to_lower (trim_space content_encoding)
      in if str_contains enc ''gzip'' then decompress_gzip cd data
         else if str_contains enc ''deflate'' then decompress_deflate cd data
         else if str_contains enc ''zstd'' then decompress_zstd cd data
         else if has_prefix data zstd_magic then decompress_zstd cd data
         else if gzip_magic data then decompress_gzip cd data
         else Inr data)"

subsection \<open>Facts\<close>

lemmas decompress_defs = decompress_gzip_def decompress_deflate_def decompress_zstd_def decompress_stream_def

lemma decompress_never_fails: "\<exists>out. decompress_body cd data enc = Inr out"
  by (auto simp: decompress_body_def decompress_defs Let_def split: option.split sum.split)

text \<open>A value that a server may write for one coding: any capitalisation, white space around it.\<close>

definition names_coding :: "string \<Rightarrow> string \<Rightarrow> bool" where
  "names_coding value coding \<longleftrightarrow> to_lower (trim_space value) = coding"

lemma coding_dispatch:
  "names_coding v ''gzip'' \<Longrightarrow> decompress_body cd data v = decompress_gzip cd data"
  "names_coding v ''x-gzip'' \<Longrightarrow> decompress_body cd data v = decompress_gzip cd data"
  "names_coding v ''deflate'' \<Longrightarrow> decompress_body cd data v = decompress_deflate cd data"
  "names_coding v ''zstd'' \<Longrightarrow> decompress_body cd data v = decompress_zstd cd data"
  by (simp_all add: names_coding_def decompress_body_def str_contains_code)

lemma unnamed_dispatch:
  assumes "trim_space v = []"
  shows "decompress_body cd data v =
    (if has_prefix data zstd_magic then decompress_zstd cd data
     else if gzip_magic data then decompress_gzip cd data else Inr data)"
  using assms by (simp add: decompress_body_def to_lower_def str_contains_code)

lemma decompress_stream_ok:
  "opn data = Some r \<Longrightarrow> read_all r = Inr out \<Longrightarrow> decompress_stream opn read_all data = Inr out"
  by (simp add: decompress_stream_def)

text \<open>C22: what a server encodes is decoded. For encoders whose output the codecs decode, a body
  encoded with gzip, deflate or zstd under the coding's name, in any capitalisation and with
  space around it, comes out as the original (for zstd, up to 64 MiB); so does a gzip or zstd
  body when a proxy has taken the header away. A deflate body without the header is not recognised and
  stays encoded, unless it begins like one of the other two. Decoding never fails, and a body that
  begins like neither comes out unchanged when no coding is named.\<close>

theorem decompress_roundtrip:
  assumes gz: "\<And>x. \<exists>r. cd_gzip_open cd (gz x) = Some r \<and> cd_read_all cd r = Inr x" "\<And>x. gzip_magic (gz x)"
    and zl: "\<And>x. \<exists>r. cd_zlib_open cd (zl x) = Some r \<and> cd_read_all cd r = Inr x"
    and zs: "zstd_decoder cd = Some dec" "\<And>x. length x \<le> zstd_max_decoded \<Longrightarrow> dec (zs x) = Some x"
      "\<And>x. has_prefix (zs x) zstd_magic"
  shows "(names_coding v ''gzip'' \<or> trim_space v = [] \<longrightarrow> decompress_body cd (gz body) v = Inr body) \<and>
    (names_coding v ''deflate'' \<longrightarrow> decompress_body cd (zl body) v = Inr body) \<and>
    (length body \<le> zstd_max_decoded \<and> (names_coding v ''zstd'' \<or> trim_space v = []) \<longrightarrow>
       decompress_body cd (zs body) v = Inr body) \<and>
    (\<not> has_prefix (zl body) zstd_magic \<and> \<not> gzip_magic (zl body) \<and> trim_space v = [] \<longrightarrow>
       decompress_body cd (zl body) v = Inr (zl body)) \<and>
    (\<not> has_prefix body zstd_magic \<and> \<not> gzip_magic body \<and> trim_space v = [] \<longrightarrow> decompress_body cd body v = Inr body) \<and>
    (\<exists>out. decompress_body cd body v = Inr out)"
proof -
  have "\<not> has_prefix (gz body) zstd_magic"
    using gz(2) [of body] by (auto simp: gzip_magic_def has_prefix_iff zstd_magic_def)
  moreover have "decompress_gzip cd (gz body) = Inr body"
    using gz(1) [of body] by (auto simp: decompress_gzip_def decompress_stream_def)
  moreover have "decompress_deflate cd (zl body) = Inr body"
    using zl [of body] by (auto simp: decompress_deflate_def decompress_stream_def)
  moreover have "decompress_zstd cd (zs body) = Inr body" if "length body \<le> zstd_max_decoded"
    using zs(1) zs(2) [OF that] by (simp add: decompress_zstd_def)
  ultimately show ?thesis
    using gz(2) [of body] zs(3) [of body] decompress_never_fails [of cd body v] by (auto simp: coding_dispatch unnamed_dispatch)
qed

text \<open>Codecs that only write and strip their magic bytes.\<close>

definition frame_codecs :: "string codecs" where
  "frame_codecs =
     \<lparr>cd_gzip_open = (\<lambda>s. if gzip_magic s then Some (drop 2 s) else None),
      cd_zlib_open = (\<lambda>s. case s of c # t \<Rightarrow> if c = CHR 0x78 then Some t else None | [] \<Rightarrow> None),
      cd_read_all = Inr,
      cd_zstd_decoder = (\<lambda>window cap. Some (\<lambda>s.
        if has_prefix s zstd_magic \<and> length s - 4 \<le> cap then Some (drop 4 s) else None))\<rparr>"

theorem decompress_roundtrip_witness:
  "decompress_body frame_codecs (zstd_magic @ ''hi'') '' ZSTD '' = Inr ''hi''"
proof -
  have coding: "names_coding '' ZSTD '' ''zstd''"
    by code_simp
  have dec: "zstd_decoder frame_codecs =
      Some (\<lambda>s. if has_prefix s zstd_magic \<and> length s - 4 \<le> zstd_max_decoded then Some (drop 4 s) else None)"
    by (simp add: zstd_decoder_def frame_codecs_def)
  have "length ''hi'' \<le> zstd_max_decoded" by (simp add: zstd_max_decoded_def)
  then show ?thesis
    using decompress_roundtrip [where cd = frame_codecs and gz = "\<lambda>x. [CHR 0x1f, CHR 0x8b] @ x" and zl = "\<lambda>x. CHR 0x78 # x" and
        zs = "\<lambda>x. zstd_magic @ x" and body = "''hi''" and v = "'' ZSTD ''", OF _ _ _ dec] coding
    by (simp add: frame_codecs_def gzip_magic_def zstd_magic_def)
qed

text \<open>The codings of a body encoded twice are not undone in order: the first name the code looks for
  decides, and with a stacked \<^verbatim>\<open>gzip, zstd\<close> that is not the outer one, so the body stays encoded.\<close>

lemma stacked_codings_stay_encoded:
  assumes "cd_gzip_open cd data = None"
  shows "decompress_body cd data ''gzip, zstd'' = Inr data"
  using assms
  by (simp add: decompress_body_def trim_space_def is_space_def to_lower_def lower_char_def str_contains_code decompress_defs)

text \<open>A brotli body, which the headers of every profile ask for, is not decoded here.\<close>

lemma brotli_stays_encoded:
  assumes "\<not> has_prefix data zstd_magic" "\<not> gzip_magic data"
  shows "decompress_body cd data ''br'' = Inr data"
  using assms
  by (simp add: decompress_body_def trim_space_def is_space_def to_lower_def lower_char_def str_contains_code)

end
