(* ===== verification/Backend_Http.thy ===== *)
theory Backend_Http
  imports Client_Options Decompress
begin

text \<open>
  What the two backends share (\<^verbatim>\<open>src/backend_tlsclient.go\<close>, \<^verbatim>\<open>backend_std.go\<close>): the
  request they send, the conversion of header maps in both directions, the reading and decoding of
  the response, cookies and the bridges between the standard library's types and those of fhttp,
  its fork. A request is sent by a library; what a library gives back is an argument. Go ranges over a
  map in no fixed order: an order of this run is given by \<open>bn_range\<close>, and the header of a response
  is a list in that order.
\<close>

subsection \<open>Headers\<close>

text \<open>\<^verbatim>\<open>textproto.CanonicalMIMEHeaderKey\<close>, with which \<^verbatim>\<open>Header.Set\<close> writes a key.\<close>

definition upper_char :: "char \<Rightarrow> char" where
  "upper_char c = (let n = (of_char c :: nat) in if 97 \<le> n \<and> n \<le> 122 then char_of (n - 32) else c)"

definition is_token_char :: "char \<Rightarrow> bool" where
  "is_token_char c \<longleftrightarrow>
     (let n = (of_char c :: nat)
      in 48 \<le> n \<and> n \<le> 57 \<or> 65 \<le> n \<and> n \<le> 90 \<or> 94 \<le> n \<and> n \<le> 122 \<or>
         n \<in> {33, 35, 36, 37, 38, 39, 42, 43, 45, 46, 124, 126})"

fun canonical_chars :: "bool \<Rightarrow> string \<Rightarrow> string" where
  "canonical_chars up [] = []"
| "canonical_chars up (c # s) =
     (let d = (if up then upper_char c else lower_char c) in d # canonical_chars (d = CHR ''-'') s)"

definition canonical_key :: "string \<Rightarrow> string" where
  "canonical_key k = (if list_all is_token_char k then canonical_chars True k else k)"

type_synonym wire_header = "string \<Rightarrow> string list option"

definition header_put :: "string \<Rightarrow> string \<Rightarrow> wire_header \<Rightarrow> wire_header" where
  "header_put k v h = h(canonical_key k \<mapsto> [v])"

definition set_headers :: "(string \<times> string) list \<Rightarrow> wire_header \<Rightarrow> wire_header" where
  "set_headers kvs h = fold (\<lambda>(k, v). header_put k v) kvs h"

text \<open>An order in which a loop may range over a map.\<close>

definition ranges_over :: "(string \<times> 'v) list \<Rightarrow> (string \<Rightarrow> 'v option) \<Rightarrow> bool" where
  "ranges_over kvs h \<longleftrightarrow> distinct (map fst kvs) \<and> map_of kvs = h"

definition newline :: string where
  "newline = [CHR 0x0a]"

definition convert_header :: "(string \<times> string list) list \<Rightarrow> header_map" where
  "convert_header kvs =
     fold (\<lambda>(k, v) m.
             if to_lower k = ''set-cookie'' then m(''set-cookie'' \<mapsto> join newline v)
             else if v \<noteq> [] then m(to_lower k \<mapsto> hd v) else m) kvs (\<lambda>k. None)"

subsection \<open>Requests and responses\<close>

record wire_request =
  wq_method :: string
  wq_url :: string
  wq_header :: wire_header
  wq_body :: "string option"
  wq_order :: "string list option"

record wire_response =
  wr_status :: int
  wr_header :: "(string \<times> string list) list"
  wr_body :: string
  wr_read_err :: "go_error option"

record 'r backend_env =
  bn_new_request :: "string \<Rightarrow> string \<Rightarrow> go_error option"
  bn_range :: "header_map \<Rightarrow> (string \<times> string) list"
  bn_codecs :: "'r codecs"
  bn_parse :: "string \<Rightarrow> go_error + go_url"

definition labelled :: "string \<Rightarrow> go_error \<Rightarrow> go_error" where
  "labelled s e = ErrFmt [Lit s, Wrapped e]"

text \<open>The start of both \<^verbatim>\<open>Do\<close>s: the request of the library, or the error of \<^verbatim>\<open>NewRequest\<close>.\<close>

definition build_request :: "'r backend_env \<Rightarrow> http_request \<Rightarrow> go_error + wire_request" where
  "build_request env q =
     (case bn_new_request env (rq_method q) (rq_url q) of
        Some e \<Rightarrow> Inl (labelled ''build request: '' e)
      | None \<Rightarrow>
          Inr \<lparr>wq_method = rq_method q, wq_url = rq_url q,
               wq_header = (case rq_headers q of None \<Rightarrow> (\<lambda>k. None) | Some h \<Rightarrow> set_headers (bn_range env h) (\<lambda>k. None)),
               wq_body = rq_body q, wq_order = None\<rparr>)"

definition status_only :: "int \<Rightarrow> http_response" where
  "status_only n = \<lparr>rs_body = [], rs_headers = (\<lambda>k. None), rs_status = n\<rparr>"

definition read_error :: "wire_response \<Rightarrow> go_error \<Rightarrow> http_result" where
  "read_error r e = (Some (status_only (wr_status r)), Some (labelled ''read body: '' e))"

text \<open>The end of both: the headers and the decoded body.\<close>

definition finish_response :: "'r backend_env \<Rightarrow> wire_response \<Rightarrow> http_result" where
  "finish_response env r =
     (let headers = convert_header (wr_header r)
      in case decompress_body (bn_codecs env) (wr_body r) (lookup_str headers ''content-encoding'') of
           Inl e \<Rightarrow> (Some (status_only (wr_status r)), Some (labelled ''decompress body: '' e))
         | Inr data \<Rightarrow> (Some \<lparr>rs_body = data, rs_headers = headers, rs_status = wr_status r\<rparr>, None))"

subsection \<open>Cookies\<close>

record http_cookie =
  hc_name :: string
  hc_value :: string
  hc_quoted :: bool
  hc_path :: string
  hc_domain :: string
  hc_expires :: time
  hc_raw_expires :: string
  hc_max_age :: int
  hc_secure :: bool
  hc_http_only :: bool
  hc_same_site :: int
  hc_raw :: string
  hc_unparsed :: "string list"

record f_cookie =
  fc_name :: string
  fc_value :: string
  fc_quoted :: bool
  fc_path :: string
  fc_domain :: string
  fc_expires :: time
  fc_raw_expires :: string
  fc_max_age :: int
  fc_secure :: bool
  fc_http_only :: bool
  fc_same_site :: int
  fc_raw :: string
  fc_unparsed :: "string list"

definition to_std_cookie :: "f_cookie \<Rightarrow> http_cookie" where
  "to_std_cookie c =
     \<lparr>hc_name = fc_name c, hc_value = fc_value c, hc_quoted = fc_quoted c, hc_path = fc_path c, hc_domain = fc_domain c,
      hc_expires = fc_expires c, hc_raw_expires = fc_raw_expires c, hc_max_age = fc_max_age c, hc_secure = fc_secure c,
      hc_http_only = fc_http_only c, hc_same_site = fc_same_site c, hc_raw = fc_raw c, hc_unparsed = fc_unparsed c\<rparr>"

definition from_std_cookie :: "http_cookie \<Rightarrow> f_cookie" where
  "from_std_cookie c =
     \<lparr>fc_name = hc_name c, fc_value = hc_value c, fc_quoted = hc_quoted c, fc_path = hc_path c, fc_domain = hc_domain c,
      fc_expires = hc_expires c, fc_raw_expires = hc_raw_expires c, fc_max_age = hc_max_age c, fc_secure = hc_secure c,
      fc_http_only = hc_http_only c, fc_same_site = hc_same_site c, fc_raw = hc_raw c, fc_unparsed = hc_unparsed c\<rparr>"

text \<open>A jar as its operations on a world, in the standard library's types and in fhttp's. Cookies are
  pointers, so an entry of a list may be nil.\<close>

record 'w cookie_jar =
  cj_set :: "go_url \<Rightarrow> http_cookie option list \<Rightarrow> 'w \<Rightarrow> 'w"
  cj_get :: "go_url \<Rightarrow> 'w \<Rightarrow> http_cookie list"

record 'w f_cookie_jar =
  fj_set :: "go_url \<Rightarrow> f_cookie option list \<Rightarrow> 'w \<Rightarrow> 'w"
  fj_get :: "go_url \<Rightarrow> 'w \<Rightarrow> f_cookie list"

fun adapter_set_loop :: "f_cookie option list \<Rightarrow> http_cookie option list" where
  "adapter_set_loop [] = []"
| "adapter_set_loop (None # cs) = adapter_set_loop cs"
| "adapter_set_loop (Some c # cs) = Some (to_std_cookie c) # adapter_set_loop cs"

definition adapt_cookie_jar :: "'w cookie_jar \<Rightarrow> 'w f_cookie_jar" where
  "adapt_cookie_jar jar =
     \<lparr>fj_set = (\<lambda>u cs w. cj_set jar u (adapter_set_loop cs) w),
      fj_get = (\<lambda>u w. map from_std_cookie (cj_get jar u w))\<rparr>"

text \<open>The value of the first cookie of a name; empty for a URL that does not parse.\<close>

definition cookie_value :: "(string \<times> string) list \<Rightarrow> string \<Rightarrow> string" where
  "cookie_value cs name = (case find (\<lambda>c. fst c = name) cs of None \<Rightarrow> [] | Some c \<Rightarrow> snd c)"

subsection \<open>Redirects\<close>

record f_request =
  fr_method :: string
  fr_url :: "go_url option"
  fr_header :: "(string \<times> string list) list"

definition adapt_http_request :: "f_request option \<Rightarrow> hop" where
  "adapt_http_request fr =
     (case fr of
        None \<Rightarrow> \<lparr>hop_method = [], hop_url = None, hop_header = []\<rparr>
      | Some r \<Rightarrow> \<lparr>hop_method = fr_method r, hop_url = fr_url r, hop_header = fr_header r\<rparr>)"

type_synonym 'w f_redirect_guard = "f_request option \<Rightarrow> f_request option list \<Rightarrow> 'w \<Rightarrow> go_error option"

definition adapt_redirect :: "'w redirect_guard \<Rightarrow> 'w f_redirect_guard" where
  "adapt_redirect g fr fvia w = g (adapt_http_request fr) (map adapt_http_request fvia) w"

subsection \<open>Facts\<close>

lemma cookie_copies [simp]:
  "to_std_cookie (from_std_cookie c) = c" "from_std_cookie (to_std_cookie d) = d"
  by (simp_all add: to_std_cookie_def from_std_cookie_def)

lemma adapter_set_loop_conv: "adapter_set_loop cs = map (Some \<circ> to_std_cookie) (List.map_filter id cs)"
  by (induction cs rule: adapter_set_loop.induct) (simp_all add: List.map_filter_simps)

lemma header_of_fold:
  "set_headers (kvs @ [(k, v)]) h = header_put k v (set_headers kvs h)"
  by (simp add: set_headers_def)

lemma set_headers_other:
  "\<forall>(k', v')\<in>set kvs. canonical_key k' \<noteq> k \<Longrightarrow> set_headers kvs h k = h k"
  by (induction kvs rule: rev_induct) (auto simp: header_of_fold header_put_def, simp add: set_headers_def)

text \<open>A header with no second capitalisation beside it is sent, whatever the order of the map.\<close>

lemma set_headers_sent:
  assumes "ranges_over kvs m" "m k = Some v" "\<And>k'. m k' \<noteq> None \<Longrightarrow> canonical_key k' = canonical_key k \<Longrightarrow> k' = k"
  shows "set_headers kvs h (canonical_key k) = Some [v]"
proof -
  have "(k, v) \<in> set kvs" using assms(1,2) by (auto simp: ranges_over_def dest: map_of_SomeD)
  then obtain xs ys where kvs: "kvs = xs @ (k, v) # ys" by (meson split_list)
  have "\<forall>(k', v')\<in>set ys. canonical_key k' \<noteq> canonical_key k"
  proof clarify
    fix k' v' assume k': "(k', v') \<in> set ys" "canonical_key k' = canonical_key k"
    have "map_of kvs k' \<noteq> None" unfolding map_of_eq_None_iff using k'(1) kvs by force
    then have "m k' \<noteq> None" using assms(1) by (simp add: ranges_over_def)
    then have "k' = k" using assms(3) k' by blast
    then have "k \<in> fst ` set ys" using k'(1) by force
    then show False using assms(1) kvs by (simp add: ranges_over_def)
  qed
  then have "set_headers ys (header_put k v (set_headers xs h)) (canonical_key k) = header_put k v (set_headers xs h) (canonical_key k)"
    by (rule set_headers_other)
  then show ?thesis by (simp add: kvs set_headers_def header_put_def)
qed

text \<open>With two capitalisations of one header in the map, the order in which the loop meets them
  decides which value is sent.\<close>

lemma colliding_headers_race:
  assumes "k \<noteq> k'" "canonical_key k = canonical_key k'" "v \<noteq> v'"
  shows "\<exists>kvs kvs'. ranges_over kvs [k \<mapsto> v, k' \<mapsto> v'] \<and> ranges_over kvs' [k \<mapsto> v, k' \<mapsto> v'] \<and>
    set_headers kvs (\<lambda>k. None) (canonical_key k) = Some [v] \<and>
    set_headers kvs' (\<lambda>k. None) (canonical_key k) = Some [v']"
proof (intro exI conjI)
  let ?kvs = "[(k', v'), (k, v)]" and ?kvs' = "[(k, v), (k', v')]"
  show "ranges_over ?kvs [k \<mapsto> v, k' \<mapsto> v']" "ranges_over ?kvs' [k \<mapsto> v, k' \<mapsto> v']"
    using assms(1) by (auto simp: ranges_over_def fun_eq_iff)
  show "set_headers ?kvs (\<lambda>k. None) (canonical_key k) = Some [v]" "set_headers ?kvs' (\<lambda>k. None) (canonical_key k) = Some [v']"
    using assms(2) by (simp_all add: set_headers_def header_put_def)
qed

text \<open>The headers of a response: lower-case names, the first value of each, Set-Cookie joined.\<close>

lemma convert_header_snoc:
  "convert_header (kvs @ [(k, v)]) =
     (if to_lower k = ''set-cookie'' then (convert_header kvs)(''set-cookie'' \<mapsto> join newline v)
      else if v \<noteq> [] then (convert_header kvs)(to_lower k \<mapsto> hd v) else convert_header kvs)"
  by (simp add: convert_header_def)

lemma find_snoc: "find P (ys @ [y]) = (case find P ys of None \<Rightarrow> if P y then Some y else None | Some z \<Rightarrow> Some z)"
  by (induction ys) auto

lemma find_name_None: "n \<notin> set (map (to_lower \<circ> fst) kvs) \<Longrightarrow> find (\<lambda>(k, v). to_lower k = n) kvs = None"
  by (induction kvs) auto

lemma convert_header_get:
  assumes "distinct (map (to_lower \<circ> fst) kvs)"
  shows "convert_header kvs n =
    (case find (\<lambda>(k, v). to_lower k = n) kvs of
       None \<Rightarrow> None
     | Some (k, v) \<Rightarrow> if n = ''set-cookie'' then Some (join newline v) else if v = [] then None else Some (hd v))"
  using assms
proof (induction kvs rule: rev_induct)
  case Nil
  show ?case by (simp add: convert_header_def)
next
  case (snoc x kvs)
  obtain k v where x: "x = (k, v)" by (cases x)
  have IH: "convert_header kvs n = (case find (\<lambda>(k, v). to_lower k = n) kvs of None \<Rightarrow> None
      | Some (k, v) \<Rightarrow> if n = ''set-cookie'' then Some (join newline v) else if v = [] then None else Some (hd v))"
    using snoc.IH snoc.prems by simp
  show ?case
  proof (cases "to_lower k = n")
    case True
    then have "find (\<lambda>(k, v). to_lower k = n) kvs = None" using snoc.prems x by (intro find_name_None) simp
    then show ?thesis using True IH x by (simp add: convert_header_snoc find_snoc)
  next
    case False
    have "convert_header (kvs @ [x]) n = convert_header kvs n"
      using False x by (auto simp: convert_header_snoc)
    moreover have "find (\<lambda>(k, v). to_lower k = n) (kvs @ [x]) = find (\<lambda>(k, v). to_lower k = n) kvs"
      using False x by (simp add: find_snoc split: option.split)
    ultimately show ?thesis using IH by simp
  qed
qed

lemma finish_never_fails: "\<exists>r'. finish_response env r = (Some r', None) \<and> rs_status r' = wr_status r"
  using decompress_never_fails [of "bn_codecs env" "wr_body r" "lookup_str (convert_header (wr_header r)) ''content-encoding''"]
  by (auto simp: finish_response_def Let_def)

lemma finish_is_answer:
  "finish_response env r \<noteq> (None, None)" "read_error r e \<noteq> (None, None)"
  using finish_never_fails [of env r] by (auto simp: read_error_def)

end
