(* ===== verification/Client_Total.thy ===== *)
theory Client_Total
  imports Client
begin

text \<open>
  When a client answers. A handler answers when, from every state of an invariant, it comes back with a
  response or an error and leaves the invariant intact; one that comes back with neither makes its caller
  follow a nil pointer. The middlewares of the repository keep a handler answering, the loop over the proxies
  answers when its handler does, and the locale \<open>answering_doer\<close> is what a client needs of its backend
  (the interface \<^verbatim>\<open>HTTPDoer\<close> of \<^verbatim>\<open>src/backend.go\<close>, whose comments do not say it). The
  backends interpret it in their own theories.
\<close>

definition is_answer :: "('w \<Rightarrow> bool) \<Rightarrow> (http_result \<times> http_request \<times> 'w) option \<Rightarrow> bool" where
  "is_answer I x \<longleftrightarrow>
     (case x of None \<Rightarrow> False | Some ((resp, err), q, w) \<Rightarrow> (resp \<noteq> None \<or> err \<noteq> None) \<and> I w)"

definition answers :: "('w \<Rightarrow> bool) \<Rightarrow> 'w handler \<Rightarrow> bool" where
  "answers I h \<longleftrightarrow> (\<forall>q w. I w \<longrightarrow> is_answer I (h q w))"

definition keeps_answering :: "('w \<Rightarrow> bool) \<Rightarrow> 'w middleware \<Rightarrow> bool" where
  "keeps_answering I m \<longleftrightarrow> (\<forall>h. answers I h \<longrightarrow> answers I (m h))"

lemma is_answer_simps [simp]:
  "\<not> is_answer I None"
  "is_answer I (Some ((resp, err), q, w)) \<longleftrightarrow> (resp \<noteq> None \<or> err \<noteq> None) \<and> I w"
  by (simp_all add: is_answer_def)

lemma answer_of_result: "is_answer I (Some (x, q, w)) \<longleftrightarrow> x \<noteq> (None, None) \<and> I w"
  by (cases x) auto

lemma is_answer_cases [consumes 1, case_names failed answered]:
  assumes "is_answer I x"
    and "\<And>resp e q w. x = Some ((resp, Some e), q, w) \<Longrightarrow> I w \<Longrightarrow> P"
    and "\<And>r q w. x = Some ((Some r, None), q, w) \<Longrightarrow> I w \<Longrightarrow> P"
  shows P
proof -
  obtain resp err q w where x: "x = Some ((resp, err), q, w)" "resp \<noteq> None \<or> err \<noteq> None" "I w"
    using assms(1) by (auto simp: is_answer_def split: option.splits)
  then show P using assms(2,3) by (cases err) auto
qed

lemma answersD: "answers I h \<Longrightarrow> I w \<Longrightarrow> is_answer I (h q w)"
  by (simp add: answers_def)

lemma keeps_answeringI:
  "(\<And>h q w. answers I h \<Longrightarrow> I w \<Longrightarrow> is_answer I (m h q w)) \<Longrightarrow> keeps_answering I m"
  by (simp add: keeps_answering_def answers_def)

lemma chain_answers: "list_all (keeps_answering I) ms \<Longrightarrow> answers I h \<Longrightarrow> answers I (chain ms h)"
  by (induction ms) (auto simp: keeps_answering_def)

subsection \<open>The middlewares\<close>

lemma logging_answers: "keeps_answering I logging_middleware"
proof (rule keeps_answeringI)
  fix h q w assume "answers I h" "I w"
  from answersD [OF this, of q] show "is_answer I (logging_middleware h q w)"
    by (cases rule: is_answer_cases) (simp_all add: logging_middleware_def)
qed

lemma detect_answers: "keeps_answering I cloudflare_detect_middleware"
proof (rule keeps_answeringI)
  fix h q w assume "answers I h" "I w"
  from answersD [OF this, of q] show "is_answer I (cloudflare_detect_middleware h q w)"
    by (cases rule: is_answer_cases) (simp_all add: cloudflare_detect_middleware_def)
qed

lemma client_hints_answers: "keeps_answering I client_hints_middleware"
  by (rule keeps_answeringI) (simp add: client_hints_middleware_def Let_def answers_def split: option.split)

lemma cookie_answers:
  assumes get: "\<And>d w. I w \<Longrightarrow> I (snd (cp_get ops d w))" and solve: "\<And>d c w. I w \<Longrightarrow> I (snd (cp_solve ops d c w))"
  shows "keeps_answering I (cloudflare_cookie_middleware parse ops)"
proof (rule keeps_answeringI)
  fix h :: "'a handler" and q :: http_request and w assume h: "answers I h" and w: "I w"
  let ?d = "extract_host parse (rq_url q)"
  obtain c w1 where get': "cp_get ops ?d w = (c, w1)" by fastforce
  then have "I w1" using get [OF w, of ?d] by simp
  from answersD [OF h this, of "inject_cookie c q"] show "is_answer I (cloudflare_cookie_middleware parse ops h q w)"
  proof (cases rule: is_answer_cases)
    case (answered r q2 w2)
    have again: "I w3 \<Longrightarrow> is_answer I (h q3 w3)" for q3 w3 by (rule answersD [OF h])
    show ?thesis
      using answered get' solve [OF answered(2), of ?d] again
      by (auto simp: cloudflare_cookie_middleware_def split: option.split sum.split prod.split) (metis snd_conv)+
  qed (use get' in \<open>simp add: cloudflare_cookie_middleware_def\<close>)
qed

lemma smart_fetch_answers:
  assumes "\<And>u w. I w \<Longrightarrow> I (snd (fetch u w))"
  shows "keeps_answering I (smart_fetch_middleware fetch)"
proof (rule keeps_answeringI)
  fix h q w assume "answers I h" "I w"
  from answersD [OF this, of q] show "is_answer I (smart_fetch_middleware fetch h q w)"
  proof (cases rule: is_answer_cases)
    case (answered r q1 w1)
    show ?thesis
      using answered assms [OF answered(2), of "rq_url q1"]
      by (auto simp: smart_fetch_middleware_def split: option.split sum.split prod.split)
  qed (simp add: smart_fetch_middleware_def)
qed


text \<open>A retry loop whose world keeps an invariant, and whose function gives only results with a property, ends in the
  invariant with an error or such a result.\<close>

definition env_keeps :: "('w \<Rightarrow> bool) \<Rightarrow> 'w retry_world \<Rightarrow> bool" where
  "env_keeps I env \<longleftrightarrow>
     (\<forall>w. I w \<longrightarrow> I (snd (rw_ctx_err env w)) \<and> (\<forall>d. I (snd (rw_sleep env d w))) \<and> I (snd (rw_rand env w)) \<and>
        (\<forall>hook i n e. rw_hook env = Some hook \<longrightarrow> I (hook i n e w)))"

lemma env_keepsD:
  assumes "env_keeps I env" "I w"
  shows "I (snd (rw_ctx_err env w))" "I (snd (rw_sleep env d w))" "I (call_hook env i n e w)" "I (snd (retry_wait env rc k w))"
  using assms by (auto simp: env_keeps_def call_hook_def retry_wait_def Let_def split: option.split prod.split)

lemma retry_loop_keeps:
  assumes env: "ctx_ok env" "env_keeps I env" and fn: "\<And>w. I w \<Longrightarrow> I (snd (fn w)) \<and> (\<forall>a. fst (fn w) = Inr a \<longrightarrow> P a)"
  shows "I w \<Longrightarrow> 0 < k \<or> le \<noteq> None \<Longrightarrow> retry_loop env rc zero None fn n k le w = (r, w') \<Longrightarrow>
    I w' \<and> (\<forall>a. r = Inr a \<longrightarrow> P a)"
proof (induction k arbitrary: n le w)
  case 0
  then show ?case by auto
next
  case (Suc k)
  obtain c w1 where c: "rw_ctx_err env w = (c, w1)" by fastforce
  obtain x w2 where x: "fn w1 = (x, w2)" by fastforce
  have w1: "I w1" using env_keepsD(1) [OF env(2) Suc.prems(1)] c by simp
  have w2: "I w2" "\<forall>a. x = Inr a \<longrightarrow> P a" using fn [OF w1] x by simp_all
  show ?case
  proof (cases "c = None \<and> (\<exists>e. x = Inl e \<and> is_retryable e)")
    case False
    then show ?thesis
      using Suc.prems(3) c x w1 w2 by (cases c; cases x) (auto simp: call_reset_def)
  next
    case True
    then obtain e where e: "c = None" "x = Inl e" "is_retryable e" by blast
    show ?thesis
    proof (cases "int n < rc_max_retries rc")
      case False
      then show ?thesis using Suc.prems(3) Suc.IH [of w2 "Some e" "Suc n"] c x e w2 by (simp add: call_reset_def)
    next
      case True
      let ?w3 = "call_hook env (int n + 1) (rc_max_retries rc) e w2"
      obtain d w4 where d: "retry_wait env rc n ?w3 = (d, w4)" by fastforce
      obtain b w5 where b: "rw_sleep env d w4 = (b, w5)" by fastforce
      have "I ?w3" by (rule env_keepsD(3) [OF env(2) w2(1)])
      then have "I w4" using env_keepsD(4) [OF env(2), of ?w3 rc n] d by simp
      then have w5: "I w5" using env_keepsD(2) [OF env(2), of w4 d] b by simp
      show ?thesis
      proof (cases b)
        case True
        then show ?thesis
          using Suc.prems(3) Suc.IH [OF w5, of "Some e" "Suc n"] c x e b d \<open>int n < rc_max_retries rc\<close>
          by (simp add: call_reset_def Let_def)
      next
        case False
        obtain ce w6 where ce: "rw_ctx_err env w5 = (Some ce, w6)"
          using env(1) b False unfolding ctx_ok_def by (metis option.exhaust prod.collapse)
        then have "I w6" using env_keepsD(1) [OF env(2) w5] by simp
        then show ?thesis
          using Suc.prems(3) c x e b d ce False True by (auto simp: call_reset_def Let_def)
      qed
    qed
  qed
qed

lemma lift_world_keeps:
  assumes "ctx_ok env" "env_keeps I env"
  shows "ctx_ok (lift_world env)" and "env_keeps (\<lambda>((q :: http_request, w), p). I w \<and> \<not> p) (lift_world env)"
proof -
  show "ctx_ok (lift_world env)"
    unfolding ctx_ok_def
  proof (intro allI impI)
    fix d and v v' :: "'a retry_state" assume "rw_sleep (lift_world env) d v = (False, v')"
    then obtain q w p w' where "v' = ((q, w'), p)" "rw_sleep env d w = (False, w')"
      by (cases v) (auto simp: lift_world_def split: prod.splits)
    with assms(1) show "fst (rw_ctx_err (lift_world env) v') \<noteq> None"
      by (auto simp: ctx_ok_def lift_world_def split: prod.split) (metis fst_conv)
  qed
  show "env_keeps (\<lambda>((q :: http_request, w), p). I w \<and> \<not> p) (lift_world env)"
    using assms(2) unfolding env_keeps_def lift_world_def by (auto simp: case_prod_beta Let_def)
qed

lemma retry_answers:
  assumes env: "ctx_ok env" "env_keeps I env" and n: "0 \<le> rc_max_retries cfg"
  shows "keeps_answering I (retry_middleware_with_context env cfg)"
proof (rule keeps_answeringI)
  fix h :: "'a handler" and q :: http_request and w assume h: "answers I h" and w: "I w"
  let ?I = "\<lambda>((q :: http_request, w), p). I w \<and> \<not> p"
  have lift: "ctx_ok (lift_world env)" "env_keeps ?I (lift_world env)" by (rule lift_world_keeps [OF env])+
  have fn: "?I (snd (retry_attempt h s)) \<and> (\<forall>a. fst (retry_attempt h s) = Inr a \<longrightarrow> a \<noteq> None)" if s: "?I s" for s
  proof -
    obtain q1 w1 where s1: "s = ((q1, w1), False)" "I w1" using s by (cases s) auto
    from answersD [OF h s1(2), of q1] show ?thesis
      by (cases rule: is_answer_cases) (simp_all add: retry_attempt_def s1(1) Let_def)
  qed
  obtain r s where r: "retry_do (lift_world env) cfg None (retry_attempt h) ((q, w), False) = (r, s)"
    by (metis surj_pair)
  then have loop: "retry_loop (lift_world env) cfg None None (retry_attempt h) 0 (nat (rc_max_retries cfg + 1)) None ((q, w), False) = (r, s)"
    by (simp add: retry_do_def retry_do_reset_def)
  have start: "?I ((q, w), False)" "0 < nat (rc_max_retries cfg + 1) \<or> None \<noteq> None" using w n by simp_all
  have "?I s \<and> (\<forall>a. r = Inr a \<longrightarrow> a \<noteq> None)"
    by (rule retry_loop_keeps [OF lift fn start loop])
  then show "is_answer I (retry_middleware_with_context env cfg h q w)"
    using r by (cases s; cases r) (auto simp: retry_middleware_with_context_def)
qed

text \<open>On the background context the bound is all that matters: a negative one panics
  (\<open>negative_retries_panic\<close>).\<close>

lemma retry_background_answers:
  assumes "env_keeps I env" "0 \<le> rc_max_retries cfg"
  shows "keeps_answering I (retry_middleware env cfg)"
  unfolding retry_middleware_def
  by (rule retry_answers [OF _ _ assms(2)])
     (use assms(1) in \<open>auto simp: ctx_ok_def env_keeps_def background_def\<close>)


subsection \<open>The client\<close>

definition client_ok :: "'w client_state \<Rightarrow> bool" where
  "client_ok s \<longleftrightarrow> (case cs_allow s of None \<Rightarrow> True | Some a \<Rightarrow> allowance_ok a)"

lemma client_ok_world [simp]: "client_ok (s\<lparr>cs_world := w\<rparr>) = client_ok s"
  by (simp add: client_ok_def)

lemma lift_cookie_ops_ok:
  "client_ok (snd (cp_get (lift_cookie_ops ops) d s)) = client_ok s"
  "client_ok (snd (cp_solve (lift_cookie_ops ops) d c s)) = client_ok s"
  "client_ok (snd (lift_fetch f u s)) = client_ok s"
  by (simp_all add: lift_cookie_ops_def lift_fetch_def case_prod_beta)

lemma initial_middlewares_answer: "list_all (keeps_answering client_ok) (initial_middlewares env cfg)"
  by (auto simp: initial_middlewares_def Let_def lift_cookie_ops_ok
      intro!: logging_answers detect_answers cookie_answers smart_fetch_answers split: option.split)

lemma set_proxy_returns:
  assumes "client_ok s"
  shows "\<exists>r s'. client_set_proxy bc url s = Some (r, s') \<and> client_ok s'"
proof (cases "cs_allow s")
  case None
  then show ?thesis by (auto simp: client_set_proxy_def client_ok_def split: prod.split)
next
  case (Some a)
  then have "allowance_ok a" using assms by (simp add: client_ok_def)
  from commit_refines [OF this] Some show ?thesis
    by (fastforce simp: client_set_proxy_def client_ok_def allowance_apply_def)
qed

lemma rotate_returns: "client_ok s \<Longrightarrow> \<exists>r s'. rotate_proxy bc s = Some (r, s') \<and> client_ok s'"
  using set_proxy_returns [of "s\<lparr>cs_world := w\<rparr>" for w]
  by (auto simp: rotate_proxy_def split: option.split prod.split)

lemma report_auth_ok [simp]: "client_ok (report_auth bc s) = client_ok s"
  by (simp add: report_auth_def split: option.split)

lemma do_loop_returns:
  assumes h: "answers client_ok h"
  shows "client_ok s \<Longrightarrow> \<exists>r q' s'. do_loop bc h n attempt k q s = Some (r, q', s') \<and> client_ok s'"
proof (induction k arbitrary: attempt q s)
  case (Suc k)
  obtain e s1 where e: "rotate_proxy bc s = Some (e, s1)" and s1: "client_ok s1"
    using rotate_returns [OF Suc.prems] by blast
  show ?case
  proof (cases e)
    case (Some x)
    then show ?thesis using e s1 Suc.IH [OF s1] by auto
  next
    case None
    from answersD [OF h s1, of q] show ?thesis
    proof (cases rule: is_answer_cases)
      case (failed resp x q1 s2)
      then show ?thesis using None e Suc.IH by (cases resp) (auto simp: Let_def)
    next
      case (answered x q1 s2)
      then show ?thesis using None e Suc.IH by (auto simp: Let_def)
    qed
  qed
qed simp

text \<open>What the client needs of a backend: its Do comes back with a response or an error.\<close>

locale answering_doer =
  fixes doer :: "'w http_doer"
  assumes do_answers: "is_answer (\<lambda>w. True) (hd_do doer guard q w)"
begin

lemma base_handler_answers:
  assumes "cl_doer bc = doer"
  shows "answers client_ok (base_handler bc order)"
  unfolding answers_def
proof (intro allI impI)
  fix q and s :: "'w client_state" assume s: "client_ok s"
  have do: "is_answer client_ok (map_option (\<lambda>(r, q3, w'). (r, q3, s\<lparr>cs_world := w'\<rparr>)) (hd_do (cl_doer bc) g q2 w))" for g q2 w
    using do_answers [of g q2 w] s assms by (cases rule: is_answer_cases) simp_all
  show "is_answer client_ok (base_handler bc order q s)"
    using s do by (auto simp: base_handler_def Let_def split: option.split)
qed

text \<open>Whatever well-behaved middlewares a client has been given, a request comes back, and leaves the client as good as it was.\<close>

lemma request_returns:
  assumes "cl_doer bc = doer" "list_all (keeps_answering client_ok) (cl_middlewares bc)" "client_ok s"
  shows "\<exists>r q' s'. do_with_retry bc (build_handler bc order) q s = Some (r, q', s') \<and> client_ok s'"
  unfolding do_with_retry_def
  by (rule do_loop_returns [OF _ assms(3)])
     (simp add: build_handler_def base_handler_answers [OF assms(1)] chain_answers [OF assms(2)])

end

subsection \<open>The life of a client\<close>

datatype client_op =
    Request string string "header_map option" "string option"
  | OrderedRequest string string "header_map option" "string option" "string list"
  | SwitchProxy string
  | CloseIdle
  | Close

fun client_step :: "'w browser_client \<Rightarrow> client_op \<Rightarrow> 'w client_state \<Rightarrow> 'w client_state option" where
  "client_step bc (Request m u hs b) s = map_option (\<lambda>(r, q, s'). s') (client_do bc m u hs b s)"
| "client_step bc (OrderedRequest m u hs b order) s =
     map_option (\<lambda>(r, q, s'). s') (do_with_header_order bc m u hs b order s)"
| "client_step bc (SwitchProxy u) s = map_option snd (client_set_proxy bc u s)"
| "client_step bc CloseIdle s = Some (client_close_idle bc s)"
| "client_step bc Close s = Some (snd (client_close bc s))"

fun client_life :: "'w browser_client \<Rightarrow> client_op list \<Rightarrow> 'w client_state \<Rightarrow> 'w client_state option" where
  "client_life bc [] s = Some s"
| "client_life bc (op # ops) s = (case client_step bc op s of None \<Rightarrow> None | Some s' \<Rightarrow> client_life bc ops s')"

lemma closing_ok: "client_ok (client_close_idle bc s) = client_ok s" "client_ok (snd (client_close bc s)) = client_ok s"
  by (auto simp: client_close_idle_def client_close_def client_ok_def Let_def split: option.split prod.split)

context answering_doer
begin

lemma client_step_returns:
  assumes "cl_doer bc = doer" "list_all (keeps_answering client_ok) (cl_middlewares bc)" "client_ok s"
  shows "\<exists>s'. client_step bc op s = Some s' \<and> client_ok s'"
proof (cases op)
  case (Request m u hs b)
  then show ?thesis using request_returns [OF assms] by (fastforce simp: client_do_def)
next
  case (OrderedRequest m u hs b order)
  then show ?thesis using request_returns [OF assms] by (fastforce simp: do_with_header_order_def)
next
  case (SwitchProxy u)
  then show ?thesis using set_proxy_returns [OF assms(3)] by fastforce
qed (simp_all add: closing_ok assms(3))

lemma client_lives:
  assumes "cl_doer bc = doer" "list_all (keeps_answering client_ok) (cl_middlewares bc)"
  shows "client_ok s \<Longrightarrow> \<exists>s'. client_life bc ops s = Some s' \<and> client_ok s'"
proof (induction ops arbitrary: s)
  case (Cons op ops)
  then show ?case using client_step_returns [OF assms Cons.prems, of op] by fastforce
qed simp

end

text \<open>A new client starts well, and making one never panics.\<close>

lemma new_client_ok:
  "\<exists>r w'. new_client env opts w = Some (r, w') \<and> (\<forall>bc s. r = Inr (bc, s) \<longrightarrow> client_ok s)"
proof -
  define cfg where "cfg = configure (ce_guards env) (ce_options env) opts"
  obtain a where a: "new_proxy_allowance (resolve_proxy_endpoint (parse_ok (ce_parse env)) (ce_lookup_addr env w)) (cc_proxy_url cfg) = Some a"
      "allowance_ok a"
    using new_allowance_ok by blast
  have made: "\<exists>r w'. (case x of (Inl e, w1) \<Rightarrow> Some (Inl e, w1)
      | (Inr doer, w1) \<Rightarrow> Some (Inr (client_of env cfg doer,
          \<lparr>cs_world = w1, cs_allow = al, cs_closed = False, cs_close_err = None\<rparr>), w1)) = Some (r, w') \<and>
      (\<forall>bc s. r = Inr (bc, s) \<longrightarrow> client_ok s)"
    if "case al of None \<Rightarrow> True | Some a \<Rightarrow> allowance_ok a" for x al
    using that by (cases x; cases "fst x") (auto simp: client_ok_def)
  show ?thesis
    unfolding new_client_def Let_def cfg_def [symmetric]
    using a by (auto simp only: option.case option.map simp_thms if_True if_False sum.inject prod.inject
        intro!: made split: if_split option.split)
qed

subsection \<open>What a request does\<close>

text \<open>C2: what one request does. From a good state and with a handler that answers, it comes back, and it was a
  sequence of at least one and at most n attempts, n being
  one, or one more than the block retries when there is a pool: every attempt but the last was to be
  retried (the proxy could not be set, the handler failed with something other than a blocked
  target, or the answer had a block status), the request stops at the first attempt that is not, or
  at the n-th, and the result is that of the last attempt. So a blocked target ends the request at
  once, and a 407 is reported to the pool and returned.\<close>

theorem request_is_bounded_retries:
  assumes "0 < max_attempts bc" "answers client_ok h" "client_ok s"
  shows "\<exists>r q' s'. do_with_retry bc h q s = Some (r, q', s') \<and>
    request_outcome bc h (nat (max_attempts bc)) (max_attempts bc) q s r q' s'"
proof -
  obtain r q' s' where r: "do_with_retry bc h q s = Some (r, q', s')"
    using do_loop_returns [OF assms(2,3)] unfolding do_with_retry_def by blast
  then show ?thesis using do_with_retry_outcome [OF assms(1) r] by blast
qed

theorem request_is_bounded_retries_witness:
  "\<exists>r q' s'. do_with_retry (script_client 1) (build_handler (script_client 1) []) (make_request ''GET'' ''u'' None None)
       (script_state [503, 200]) = Some (r, q', s') \<and>
     request_outcome (script_client 1) (build_handler (script_client 1) []) 2 2 (make_request ''GET'' ''u'' None None)
       (script_state [503, 200]) r q' s'"
proof -
  have "answers client_ok (build_handler (script_client 1) [])"
    by (simp add: answers_def script_handler)
  moreover have "client_ok (script_state [503, 200])" by (simp add: client_ok_def script_state_def)
  ultimately show ?thesis
    using request_is_bounded_retries [of "script_client 1" "build_handler (script_client 1) []" "script_state [503, 200]"
        "make_request ''GET'' ''u'' None None"] by (simp add: script_max)
qed

end
