(* ===== verification/Backend_Std.thy ===== *)
theory Backend_Std
  imports Backend_Http Client_Total
begin

text \<open>
  The backend on net/http (\<^verbatim>\<open>src/backend_std.go\<close>). The transport, its connections and the jar
  it makes are the standard library's and parameters; modelled is what the backend configures them
  with and what it does with a request and a response. The proxy of the transport can be set later
  and is the field \<open>sw_proxy\<close> of the world.
\<close>

text \<open>What follows a redirect: the default of the library, its ErrUseLastResponse, or a guard.\<close>

datatype 'w redirect_policy = DefaultRedirects | UseLastResponse | GuardRedirects "'w redirect_guard"

record std_dialer =
  sd_control :: "proxy_allowance \<Rightarrow> (string \<Rightarrow> string \<Rightarrow> unit \<Rightarrow> go_error option) option"
  sd_timeout :: duration
  sd_keep_alive :: duration

record 'w std_client =
  sc_jar :: "'w cookie_jar"
  sc_insecure :: bool
  sc_dial :: "std_dialer option"
  sc_timeout :: duration
  sc_redirect :: "'w redirect_policy"

record 'l std_world =
  sw_proxy :: "go_url option"
  sw_lib :: 'l

record 'w std_lib =
  sl_new_jar :: "'w cookie_jar"
  sl_do :: "'w std_client \<Rightarrow> dial_guard option \<Rightarrow> wire_request \<Rightarrow> 'w \<Rightarrow> (go_error + wire_response) \<times> string option \<times> 'w"
  sl_close_idle :: "'w std_client \<Rightarrow> 'w \<Rightarrow> 'w"

definition std_redirect_policy :: "('w, 'j) backend_config \<Rightarrow> 'w redirect_policy" where
  "std_redirect_policy cfg =
     (if \<not> be_follow_redirects cfg then UseLastResponse
      else case be_redirect_guard cfg of Some g \<Rightarrow> GuardRedirects g | None \<Rightarrow> DefaultRedirects)"

definition std_client_of :: "'w std_lib \<Rightarrow> ('w, 'w cookie_jar) backend_config \<Rightarrow> 'w std_client" where
  "std_client_of lib cfg =
     \<lparr>sc_jar = (case be_cookie_jar cfg of Some j \<Rightarrow> j | None \<Rightarrow> sl_new_jar lib),
      sc_insecure = be_insecure cfg,
      sc_dial = map_option (\<lambda>g. \<lparr>sd_control = (\<lambda>a. adapt_control (Some (g a))), sd_timeout = 30 * second,
                                 sd_keep_alive = 30 * second\<rparr>) (be_dial_control cfg),
      sc_timeout = wrap64 (be_timeout cfg * second),
      sc_redirect = std_redirect_policy cfg\<rparr>"

definition std_do :: "'r backend_env \<Rightarrow> 'w std_lib \<Rightarrow> 'w std_client \<Rightarrow> dial_guard option \<Rightarrow> 'w handler" where
  "std_do env lib c guard q w =
     (case build_request env q of
        Inl e \<Rightarrow> Some ((None, Some e), q, w)
      | Inr wq \<Rightarrow>
          (let (r, rest, w1) = sl_do lib c guard wq w; q1 = q\<lparr>rq_body := rest\<rparr>
           in case r of
                Inl e \<Rightarrow> Some ((None, Some (labelled ''http request: '' e)), q1, w1)
              | Inr resp \<Rightarrow>
                  Some ((case wr_read_err resp of Some e \<Rightarrow> read_error resp e | None \<Rightarrow> finish_response env resp), q1, w1)))"

definition std_close :: "'w std_lib \<Rightarrow> 'w std_client \<Rightarrow> 'w \<Rightarrow> 'w" where
  "std_close lib c w = sl_close_idle lib c w"

definition std_close_idle_connections :: "'w std_lib \<Rightarrow> 'w std_client \<Rightarrow> 'w \<Rightarrow> 'w" where
  "std_close_idle_connections lib c w = sl_close_idle lib c w"

definition std_set_proxy ::
    "'r backend_env \<Rightarrow> dial_guard option \<Rightarrow> string \<Rightarrow> 'l std_world \<Rightarrow> go_error option \<times> 'l std_world"
where
  "std_set_proxy env guard url w =
     (case bn_parse env url of
        Inl e \<Rightarrow> (Some (labelled ''invalid proxy URL: '' e), w)
      | Inr u \<Rightarrow> (None, w\<lparr>sw_proxy := Some u\<rparr>))"

definition std_get_cookie_value :: "'r backend_env \<Rightarrow> 'w std_client \<Rightarrow> string \<Rightarrow> string \<Rightarrow> 'w \<Rightarrow> string" where
  "std_get_cookie_value env c raw_url name w =
     (case bn_parse env raw_url of
        Inl e \<Rightarrow> []
      | Inr u \<Rightarrow> cookie_value (map (\<lambda>k. (hc_name k, hc_value k)) (cj_get (sc_jar c) u w)) name)"

definition std_doer :: "'r backend_env \<Rightarrow> 'l std_world std_lib \<Rightarrow> 'l std_world std_client \<Rightarrow> 'l std_world http_doer" where
  "std_doer env lib c =
     \<lparr>hd_do = std_do env lib c, hd_set_proxy = std_set_proxy env, hd_cookie_value = std_get_cookie_value env c,
      hd_close = Some (std_close lib c), hd_idle = Some (std_close_idle_connections lib c)\<rparr>"

definition new_std_backend ::
    "'r backend_env \<Rightarrow> 'l std_world std_lib \<Rightarrow> ('l std_world, 'l std_world cookie_jar) backend_factory"
where
  "new_std_backend env lib cfg w =
     (if be_proxy_url cfg = [] then (Inr (std_doer env lib (std_client_of lib cfg)), w\<lparr>sw_proxy := None\<rparr>)
      else case bn_parse env (be_proxy_url cfg) of
             Inl e \<Rightarrow> (Inl (labelled ''invalid proxy URL: '' e), w)
           | Inr u \<Rightarrow> (Inr (std_doer env lib (std_client_of lib cfg)), w\<lparr>sw_proxy := Some u\<rparr>))"

subsection \<open>Facts\<close>

text \<open>The empty proxy, which is a direct connection for the constructor and for the tls-client backend, sets
  a proxy without a host here: \<^verbatim>\<open>url.Parse\<close> accepts the empty string.\<close>

lemma std_empty_proxy_is_not_direct:
  assumes "bn_parse env [] = Inr \<lparr>url_scheme = [], url_host = []\<rparr>"
  shows "std_set_proxy env g [] w = (None, w\<lparr>sw_proxy := Some \<lparr>url_scheme = [], url_host = []\<rparr>\<rparr>)"
  using assms by (simp add: std_set_proxy_def)

text \<open>A body whose reading stops half-way is an error without a body here.\<close>

lemma std_partial_body_is_lost:
  assumes "build_request env q = Inr wq" "sl_do lib c g wq w = (Inr resp, rest, w1)" "wr_read_err resp = Some e"
  shows "std_do env lib c g q w = Some (read_error resp e, q\<lparr>rq_body := rest\<rparr>, w1)"
  using assms by (simp add: std_do_def)

subsection \<open>The contract of the client\<close>

interpretation std: answering_doer "std_doer env lib c"
  by unfold_locales
    (use finish_is_answer in \<open>auto simp: answer_of_result std_doer_def std_do_def Let_def split: sum.split prod.split option.split\<close>)

end
