(* ===== verification/Extension_Order.thy ===== *)
theory Extension_Order
  imports Go_Errors "HOL-Library.Multiset"
begin

text \<open>
  The shuffle of the TLS extensions of a ClientHello (\<^verbatim>\<open>src/extension_order.go\<close>): the
  extensions that move, the Fisher-Yates loop over their positions, and the profile that carries
  it. The extension types, the ClientHello and the profile belong to libraries; modelled are the
  type switch on the first and the getters and the constructor of the last, whose other settings
  are the type parameter \<open>'s\<close>. The draws \<^verbatim>\<open>rand.IntN\<close> of a run are an argument: \<open>d i\<close> is
  the result of \<^verbatim>\<open>rand.IntN(i + 1)\<close> in the turn of the loop whose variable is \<open>i\<close>. The last
  part shows what the comment in the source claims: equally likely draws give equally likely orders.
\<close>

datatype 'x tls_extension =
    UtlsGREASEExtension 'x
  | UtlsPaddingExtension 'x
  | PreSharedKeyExtension 'x
  | OtherExtension 'x

fun is_movable :: "'x tls_extension \<Rightarrow> bool" where
  "is_movable (UtlsGREASEExtension x) = False"
| "is_movable (UtlsPaddingExtension x) = False"
| "is_movable (PreSharedKeyExtension x) = False"
| "is_movable (OtherExtension x) = True"

definition movable_positions :: "'x tls_extension list \<Rightarrow> nat list" where
  "movable_positions exts = filter (\<lambda>i. is_movable (exts ! i)) [0..<length exts]"

definition swap_at :: "'a list \<Rightarrow> nat \<Rightarrow> nat \<Rightarrow> 'a list" where
  "swap_at xs i j = xs[i := xs ! j, j := xs ! i]"

primrec shuffle_loop :: "(nat \<Rightarrow> nat) \<Rightarrow> nat list \<Rightarrow> nat \<Rightarrow> 'a list \<Rightarrow> 'a list" where
  "shuffle_loop d pos 0 xs = xs"
| "shuffle_loop d pos (Suc i) xs = shuffle_loop d pos i (swap_at xs (pos ! Suc i) (pos ! d (Suc i)))"

definition shuffle_movable_extensions :: "(nat \<Rightarrow> nat) \<Rightarrow> 'x tls_extension list \<Rightarrow> 'x tls_extension list" where
  "shuffle_movable_extensions d exts =
     (let pos = movable_positions exts in shuffle_loop d pos (length pos - 1) exts)"

record ('x, 'm) client_hello_spec =
  chs_extensions :: "'x tls_extension list"
  chs_rest :: 'm

text \<open>A ClientHello is made afresh for every connection; the factory acts on a world, which the
  draws come from.\<close>

record ('x, 'm, 'w) client_hello_id =
  chi_name :: string
  chi_factory :: "'w \<Rightarrow> (go_error + ('x, 'm) client_hello_spec) \<times> 'w"

record http2_priority =
  pp_stream_dep :: int
  pp_exclusive :: bool
  pp_weight :: int

record ('x, 'm, 'w, 's) wire_profile =
  wp_hello :: "('x, 'm, 'w) client_hello_id"
  wp_header_priority :: "http2_priority option"
  wp_settings :: 's

definition clone_profile ::
    "('x, 'm, 'w, 's) wire_profile \<Rightarrow> ('x, 'm, 'w) client_hello_id \<Rightarrow> http2_priority option \<Rightarrow>
     ('x, 'm, 'w, 's) wire_profile"
where
  "clone_profile p hid prio = \<lparr>wp_hello = hid, wp_header_priority = prio, wp_settings = wp_settings p\<rparr>"

definition with_uniform_extension_order ::
    "('w \<Rightarrow> (nat \<Rightarrow> nat) \<times> 'w) \<Rightarrow> ('x, 'm, 'w, 's) wire_profile \<Rightarrow> ('x, 'm, 'w, 's) wire_profile"
where
  "with_uniform_extension_order draws p =
     (let hid = wp_hello p;
          factory = (\<lambda>w. case chi_factory hid w of
                           (Inl e, w1) \<Rightarrow> (Inl e, w1)
                         | (Inr spec, w1) \<Rightarrow>
                             (let (d, w2) = draws w1
                              in (Inr (spec\<lparr>chs_extensions := shuffle_movable_extensions d (chs_extensions spec)\<rparr>), w2)))
      in clone_profile p (hid\<lparr>chi_factory := factory\<rparr>) (wp_header_priority p))"

subsection \<open>Positions and swaps\<close>

lemma length_swap_at [simp]: "length (swap_at xs i j) = length xs"
  by (simp add: swap_at_def)

lemma nth_swap_at:
  "i < length xs \<Longrightarrow> j < length xs \<Longrightarrow> k < length xs \<Longrightarrow>
     swap_at xs i j ! k = (if k = j then xs ! i else if k = i then xs ! j else xs ! k)"
  by (auto simp: swap_at_def nth_list_update)

lemma swap_at_cong: "xs ! j = xs ! k \<Longrightarrow> i < length xs \<Longrightarrow> j = k \<Longrightarrow> swap_at xs i j = swap_at xs i k"
  by simp

lemma mset_swap_at [simp]: "i < length xs \<Longrightarrow> j < length xs \<Longrightarrow> mset (swap_at xs i j) = mset xs"
  by (simp add: swap_at_def mset_swap)

lemma distinct_positions [simp]: "distinct (movable_positions exts)"
  by (simp add: movable_positions_def)

lemma in_positions_iff: "k \<in> set (movable_positions exts) \<longleftrightarrow> k < length exts \<and> is_movable (exts ! k)"
  by (auto simp: movable_positions_def)

lemma length_shuffle_loop [simp]: "length (shuffle_loop d pos n xs) = length xs"
  by (induction n arbitrary: xs) simp_all

lemma nth_in_take: "i \<le> n \<Longrightarrow> n < length pos \<Longrightarrow> pos ! i \<in> set (take (Suc n) pos)"
  by (metis le_imp_less_Suc length_take min.absorb2 Suc_leI nth_mem nth_take)

lemma nth_in_range: "set pos \<subseteq> {..<length xs} \<Longrightarrow> i < length pos \<Longrightarrow> pos ! i < length xs"
  by (meson lessThan_iff nth_mem subsetD)

lemma shuffle_step_in_range:
  assumes "d n \<le> n" "set pos \<subseteq> {..<length xs}" "n < length pos"
  shows "pos ! n < length xs" "pos ! d n < length xs"
    "pos ! n \<in> set (take (Suc n) pos)" "pos ! d n \<in> set (take (Suc n) pos)"
  using assms by (simp_all add: nth_in_range nth_in_take)

lemma take_prefix_subset: "set (take n pos) \<subseteq> set (take (Suc n) pos)"
  by (simp add: set_take_subset_set_take)

lemma shuffle_loop_facts:
  assumes "\<And>i. d i \<le> i" "set pos \<subseteq> {..<length xs}" "n < length pos"
  shows "mset (shuffle_loop d pos n xs) = mset xs \<and>
    (\<forall>k<length xs. k \<notin> set (take (Suc n) pos) \<longrightarrow> shuffle_loop d pos n xs ! k = xs ! k)"
  using assms(2,3)
proof (induction n arbitrary: xs)
  case (Suc n)
  note step = shuffle_step_in_range [where d = d and n = "Suc n", OF assms(1) Suc.prems]
  have out: "k \<notin> set (take (Suc n) pos) \<and> k \<noteq> pos ! Suc n \<and> k \<noteq> pos ! d (Suc n)"
    if "k \<notin> set (take (Suc (Suc n)) pos)" for k
    using that step(3,4) subsetD [OF take_prefix_subset, of k "Suc n" pos] by metis
  have IH: "mset (shuffle_loop d pos n ys) = mset ys \<and>
      (\<forall>k<length xs. k \<notin> set (take (Suc n) pos) \<longrightarrow> shuffle_loop d pos n ys ! k = ys ! k)"
    if "ys = swap_at xs (pos ! Suc n) (pos ! d (Suc n))" for ys
    using Suc.IH [of ys] Suc.prems that by simp
  show ?case
  proof (intro conjI allI impI)
    show "mset (shuffle_loop d pos (Suc n) xs) = mset xs" using IH step(1,2) by simp
    fix k assume "k < length xs" "k \<notin> set (take (Suc (Suc n)) pos)"
    then show "shuffle_loop d pos (Suc n) xs ! k = xs ! k" using IH out [of k] step(1,2) by (simp add: nth_swap_at)
  qed
qed simp

subsection \<open>Every order of the movable extensions comes from exactly one sequence of draws\<close>

text \<open>The sequences of draws of a loop of \<open>n\<close> turns; there are \<open>(n + 1)!\<close> of them, equally likely
  when each draw is uniform.\<close>

definition draws_of :: "nat \<Rightarrow> (nat \<Rightarrow> nat) set" where
  "draws_of n = {d. (\<forall>i. d i \<le> i) \<and> (\<forall>i>n. d i = 0)}"

lemma shuffle_loop_cong:
  "(\<And>i. i \<le> n \<Longrightarrow> 0 < i \<Longrightarrow> d i = d' i) \<Longrightarrow> shuffle_loop d pos n xs = shuffle_loop d' pos n xs"
  by (induction n arbitrary: xs) auto

lemma draws_of_upd: "d \<in> draws_of n \<Longrightarrow> j \<le> Suc n \<Longrightarrow> d(Suc n := j) \<in> draws_of (Suc n)"
  by (auto simp: draws_of_def)

lemma draws_of_drop: "d \<in> draws_of (Suc n) \<Longrightarrow> d(Suc n := 0) \<in> draws_of n"
  by (auto simp: draws_of_def)

lemma draws_of_0: "draws_of 0 = {\<lambda>i. 0}"
  by (auto simp: draws_of_def fun_eq_iff) (metis gr0I le_zero_eq)

text \<open>An order that differs only in positions among the first \<open>n\<close> has the element of position
  \<open>pos ! n\<close> come from one of them.\<close>

lemma source_position:
  assumes "distinct xs" "mset zs = mset xs" "set pos \<subseteq> {..<length xs}" "n < length pos"
    "\<forall>k<length xs. k \<notin> set (take (Suc n) pos) \<longrightarrow> zs ! k = xs ! k"
  shows "\<exists>j\<le>n. zs ! (pos ! n) = xs ! (pos ! j)"
proof -
  have len: "length zs = length xs" and "distinct zs" and sets: "set zs = set xs"
    using assms(1,2) by (metis size_mset, metis mset_eq_imp_distinct_iff, metis mset_eq_setD)
  have n: "pos ! n < length xs" using assms(3,4) by (auto simp: subset_iff)
  then have "zs ! (pos ! n) \<in> set xs" using len sets nth_mem by metis
  then obtain k where k: "k < length xs" "zs ! (pos ! n) = xs ! k" by (metis in_set_conv_nth)
  have "k \<in> set (take (Suc n) pos)"
  proof (rule ccontr)
    assume k': "k \<notin> set (take (Suc n) pos)"
    then have "zs ! k = zs ! (pos ! n)" using assms(5) k by simp
    then have "k = pos ! n" using \<open>distinct zs\<close> k(1) n len nth_eq_iff_index_eq by metis
    then show False using k' nth_in_take [OF le_refl assms(4)] by simp
  qed
  then obtain j where "j \<le> n" "pos ! j = k" by (auto simp: in_set_conv_nth less_Suc_eq_le)
  then show ?thesis using k(2) by blast
qed

lemma unique_draws:
  assumes "distinct xs" "distinct pos" "mset zs = mset xs" "set pos \<subseteq> {..<length xs}" "n < length pos"
    "\<forall>k<length xs. k \<notin> set (take (Suc n) pos) \<longrightarrow> zs ! k = xs ! k"
  shows "\<exists>!d. d \<in> draws_of n \<and> shuffle_loop d pos n xs = zs"
  using assms(1,3-)
proof (induction n arbitrary: xs)
  case 0
  have len: "length zs = length xs" using 0(2) by (metis size_mset)
  obtain p where p: "pos = p # tl pos" using 0(4) by (cases pos) auto
  have "zs ! p = xs ! p" using source_position [OF 0] p by (metis le_zero_eq nth_Cons_0)
  then have "zs ! k = xs ! k" if "k < length xs" for k
    using 0(5) that p by (cases "k = p") (auto, metis empty_iff empty_set insert_iff list.simps(15) take0 take_Suc_Cons)
  then have "zs = xs" using len by (auto intro: nth_equalityI)
  then show ?case by (simp add: draws_of_0)
next
  case (Suc n)
  obtain j where j: "j \<le> Suc n" "zs ! (pos ! Suc n) = xs ! (pos ! j)"
    using source_position [OF Suc.prems] by blast
  let ?ys = "\<lambda>i. swap_at xs (pos ! Suc n) (pos ! i)"
  have in_range: "pos ! i < length xs" if "i < length pos" for i
    using that Suc.prems(3) by (auto simp: subset_iff)
  have last_turn: "shuffle_loop d pos n (?ys i) ! (pos ! Suc n) = xs ! (pos ! i)"
    if "\<And>m. d m \<le> m" "i \<le> Suc n" for d i
  proof -
    have "pos ! Suc n \<notin> set (take (Suc n) pos)"
      using assms(2) Suc.prems(4) by (auto simp: in_set_conv_nth nth_eq_iff_index_eq)
    then show ?thesis
      using shuffle_loop_facts [of d pos "?ys i" n] that in_range [of i] in_range [of "Suc n"] Suc.prems(3,4)
      by (simp add: nth_swap_at)
  qed
  have rest: "\<forall>k<length (?ys j). k \<notin> set (take (Suc n) pos) \<longrightarrow> zs ! k = ?ys j ! k"
  proof (intro allI impI)
    fix k assume k: "k < length (?ys j)" "k \<notin> set (take (Suc n) pos)"
    show "zs ! k = ?ys j ! k"
    proof (cases "k = pos ! Suc n")
      case True
      then show ?thesis using j in_range [of j] in_range [of "Suc n"] Suc.prems(4) by (simp add: nth_swap_at)
    next
      case False
      then have out: "k \<notin> set (take (Suc (Suc n)) pos)" using k(2) Suc.prems(4) by (simp add: take_Suc_conv_app_nth)
      moreover have "k \<noteq> pos ! j" using out nth_in_take [OF j(1) Suc.prems(4)] by blast
      ultimately show ?thesis
        using False k Suc.prems(4,5) j(1) in_range [of j] in_range [of "Suc n"] by (simp add: nth_swap_at)
    qed
  qed
  have ys: "distinct (?ys j)" "mset zs = mset (?ys j)" "set pos \<subseteq> {..<length (?ys j)}" "n < length pos"
    using Suc.prems j(1) in_range [of j] in_range [of "Suc n"]
    by (simp_all add: mset_eq_imp_distinct_iff [of "?ys j" xs])
  obtain d where d: "d \<in> draws_of n" "shuffle_loop d pos n (?ys j) = zs"
    and unique: "\<And>d'. d' \<in> draws_of n \<Longrightarrow> shuffle_loop d' pos n (?ys j) = zs \<Longrightarrow> d' = d"
    using Suc.IH [OF ys rest] by blast
  have run: "shuffle_loop (d'(Suc n := i)) pos (Suc n) xs = shuffle_loop d' pos n (?ys i)" for d' i
    by (simp cong: shuffle_loop_cong)
  show ?case
  proof (rule ex1I [of _ "d(Suc n := j)"])
    show "d(Suc n := j) \<in> draws_of (Suc n) \<and> shuffle_loop (d(Suc n := j)) pos (Suc n) xs = zs"
      using draws_of_upd [OF d(1) j(1)] d(2) run by simp
  next
    fix e assume e: "e \<in> draws_of (Suc n) \<and> shuffle_loop e pos (Suc n) xs = zs"
    have le: "e i \<le> i" for i using e by (simp add: draws_of_def)
    have "xs ! (pos ! e (Suc n)) = zs ! (pos ! Suc n)"
      using last_turn [of e "e (Suc n)", OF le le] e by simp
    then have "pos ! e (Suc n) = pos ! j"
      using j in_range [of j] in_range [of "e (Suc n)"] le [of "Suc n"] Suc.prems(1,4)
      by (simp add: nth_eq_iff_index_eq)
    then have ej: "e (Suc n) = j"
      using j(1) le [of "Suc n"] Suc.prems(4) assms(2) by (simp add: nth_eq_iff_index_eq)
    have "e(Suc n := 0) = d"
      using unique [OF draws_of_drop] e ej run [of "e(Suc n := 0)" j] by (simp add: fun_upd_idem)
    then show "e = d(Suc n := j)" using ej by (metis fun_upd_triv fun_upd_upd)
  qed
qed

text \<open>The orders BoringSSL may use: the same extensions, the fixed ones where they were.\<close>

definition permitted_order :: "'x tls_extension list \<Rightarrow> 'x tls_extension list \<Rightarrow> bool" where
  "permitted_order exts zs \<longleftrightarrow>
     mset zs = mset exts \<and> list_all (\<lambda>k. is_movable (exts ! k) \<or> zs ! k = exts ! k) [0..<length exts]"

lemma permitted_order_iff:
  "permitted_order exts zs \<longleftrightarrow>
     mset zs = mset exts \<and> (\<forall>k<length exts. k \<notin> set (movable_positions exts) \<longrightarrow> zs ! k = exts ! k)"
  by (auto simp: permitted_order_def list_all_iff in_positions_iff)

lemma positions_in_range: "set (movable_positions exts) \<subseteq> {..<length exts}"
  by (auto simp: in_positions_iff)

lemma shuffle_permitted:
  assumes "\<And>i. d i \<le> i"
  shows "permitted_order exts (shuffle_movable_extensions d exts)"
proof (cases "movable_positions exts = []")
  case False
  with shuffle_loop_facts [OF assms positions_in_range [of exts], of "length (movable_positions exts) - 1"]
  show ?thesis by (simp add: permitted_order_iff shuffle_movable_extensions_def Let_def)
qed (simp add: permitted_order_iff shuffle_movable_extensions_def)

lemma permitted_unique_draws:
  assumes "distinct exts" "permitted_order exts zs"
  shows "\<exists>!d. d \<in> draws_of (length (movable_positions exts) - 1) \<and> shuffle_movable_extensions d exts = zs"
proof (cases "movable_positions exts = []")
  case True
  have "length zs = length exts" using assms(2) by (metis permitted_order_iff size_mset)
  then have "zs = exts" using True assms(2) by (auto simp: permitted_order_iff intro: nth_equalityI)
  with True show ?thesis by (simp add: draws_of_0 shuffle_movable_extensions_def)
next
  case False
  then show ?thesis
    using unique_draws [OF assms(1) distinct_positions _ positions_in_range, of zs "length (movable_positions exts) - 1"]
      assms(2) by (simp add: permitted_order_iff shuffle_movable_extensions_def Let_def)
qed

text \<open>C21: the shuffle is uniform, as its comment claims. With the extensions of a ClientHello distinct
  objects and \<open>m\<close> of them movable, the possible draws of its \<open>m - 1\<close> turns correspond one to one to
  the orders in which GREASE, padding and pre_shared_key keep their places: every such order is
  produced, none twice, and nothing else. The profile that carries the shuffle keeps the settings,
  the priority and the name of the one it is made from.\<close>

theorem shuffle_is_uniform:
  assumes "distinct exts"
  shows "bij_betw (\<lambda>d. shuffle_movable_extensions d exts)
       (draws_of (length (movable_positions exts) - 1)) {zs. permitted_order exts zs} \<and>
     wp_settings (with_uniform_extension_order draws p) = wp_settings p \<and>
     wp_header_priority (with_uniform_extension_order draws p) = wp_header_priority p \<and>
     chi_name (wp_hello (with_uniform_extension_order draws p)) = chi_name (wp_hello p)"
proof -
  let ?D = "draws_of (length (movable_positions exts) - 1)" and ?f = "\<lambda>d. shuffle_movable_extensions d exts"
  have permitted: "permitted_order exts (?f d)" if "d \<in> ?D" for d
    using that by (simp add: draws_of_def shuffle_permitted)
  have "inj_on ?f ?D"
    using permitted_unique_draws [OF assms permitted] by (intro inj_onI) metis
  moreover have "?f ` ?D = {zs. permitted_order exts zs}"
    using permitted permitted_unique_draws [OF assms] by blast
  ultimately show ?thesis
    by (simp add: bij_betw_def with_uniform_extension_order_def clone_profile_def Let_def)
qed

definition demo_hello :: "nat tls_extension list" where
  "demo_hello = [UtlsGREASEExtension 0, OtherExtension 1, OtherExtension 2, OtherExtension 3, PreSharedKeyExtension 4]"

theorem shuffle_is_uniform_witness:
  "\<exists>d\<in>draws_of 2. shuffle_movable_extensions d demo_hello =
     [UtlsGREASEExtension 0, OtherExtension 3, OtherExtension 1, OtherExtension 2, PreSharedKeyExtension 4]"
proof -
  have n: "length (movable_positions demo_hello) - 1 = 2" by code_simp
  have "permitted_order demo_hello
      [UtlsGREASEExtension 0, OtherExtension 3, OtherExtension 1, OtherExtension 2, PreSharedKeyExtension 4]"
    by (simp add: permitted_order_def demo_hello_def numeral_eq_Suc)
  moreover have "distinct demo_hello" by (simp add: demo_hello_def)
  moreover have "(\<lambda>d. shuffle_movable_extensions d demo_hello) ` draws_of 2 = {zs. permitted_order demo_hello zs}"
    using shuffle_is_uniform [OF \<open>distinct demo_hello\<close>, THEN conjunct1, THEN bij_betw_imp_surj_on] n by metis
  ultimately show ?thesis by (metis (mono_tags, lifting) imageE mem_Collect_eq)
qed

end
