(* ===== verification/Backend_Tls.thy ===== *)
theory Backend_Tls
  imports Backend_Http Extension_Order Profile_Coherence Client_Total
begin

text \<open>
  The backend on tls-client (\<^verbatim>\<open>src/backend_tlsclient.go\<close>): the choice of the wire
  profile, the options a client is made with, and the doer. tls-client itself, its profiles
  and its client are parameters. The doer's own state is the proxy it applied last; it is the field
  \<open>tw_proxy\<close> of the world, whose other part belongs to the libraries and the network.
\<close>

subsection \<open>Wire profiles\<close>

datatype lib_profile =
    Chrome_131 | Chrome_133 | Chrome_144 | Chrome_146 | Chrome_150 | Chrome_152
  | Firefox_133 | Firefox_148 | Brave_146 | Safari_16_0
  | Safari_IOS_18_0 | Safari_IOS_17_0 | Safari_IOS_26_0

definition profile_map :: "(string \<times> lib_profile) list" where
  "profile_map =
     [(''chrome_131'', Chrome_131), (''chrome_133'', Chrome_133), (''chrome_144'', Chrome_144),
      (''chrome_146'', Chrome_146), (''chrome_150'', Chrome_150), (''chrome_152'', Chrome_152),
      (''chrome_156'', Chrome_152), (''firefox_133'', Firefox_133), (''firefox_148'', Firefox_148),
      (''brave_146'', Brave_146), (''safari_16_0'', Safari_16_0), (''safari_ios_18_0'', Safari_IOS_18_0),
      (''safari_ios_17_0'', Safari_IOS_17_0), (''safari_ios_26_0'', Safari_IOS_26_0)]"

definition map_tls_profile ::
    "(lib_profile \<Rightarrow> ('x, 'm, 'w, 's) wire_profile) \<Rightarrow> string \<Rightarrow> go_error + ('x, 'm, 'w, 's) wire_profile"
where
  "map_tls_profile lib p =
     (case map_of profile_map p of
        Some l \<Rightarrow> Inr (lib l)
      | None \<Rightarrow> Inl (ErrFmt [Wrapped ErrUnknownTLSProfile, Lit ('': '' @ quoted p)]))"

definition fetch_priority_wire :: int where
  "fetch_priority_wire = 219"

definition with_fetch_priority :: "('x, 'm, 'w, 's) wire_profile \<Rightarrow> ('x, 'm, 'w, 's) wire_profile" where
  "with_fetch_priority p =
     clone_profile p (wp_hello p)
       (Some \<lparr>pp_stream_dep = 0, pp_exclusive = True, pp_weight = fetch_priority_wire\<rparr>)"

definition randomizes_extension_order :: "string \<Rightarrow> bool" where
  "randomizes_extension_order p \<longleftrightarrow> p \<in> set extension_order_randomised"

subsection \<open>The options of a client\<close>

text \<open>The \<^verbatim>\<open>Control\<close> function of a dialer, whose third argument is the raw connection.\<close>

type_synonym dial_control = "string \<Rightarrow> string \<Rightarrow> unit \<Rightarrow> go_error option"

datatype ('p, 'w) tls_option =
    OptTimeoutSeconds int
  | OptClientProfile 'p
  | OptCookieJar "'w f_cookie_jar"
  | OptInsecureSkipVerify
  | OptDialer "proxy_allowance \<Rightarrow> dial_control option"
  | OptNotFollowRedirects
  | OptCustomRedirectFunc "'w f_redirect_guard"
  | OptProxyUrl string
  | OptDisableHttp3

text \<open>\<open>tl_new_jar\<close> is tls-client's own jar, \<open>tl_draws\<close> the source of \<^verbatim>\<open>rand.IntN\<close>.\<close>

record ('x, 'm, 'w, 's) tls_lib =
  tl_profile :: "lib_profile \<Rightarrow> ('x, 'm, 'w, 's) wire_profile"
  tl_draws :: "'w \<Rightarrow> (nat \<Rightarrow> nat) \<times> 'w"
  tl_new_jar :: "'w f_cookie_jar"

definition wire_profile_for ::
    "('x, 'm, 'w, 's) tls_lib \<Rightarrow> ('w, 'w cookie_jar) backend_config \<Rightarrow> go_error + ('x, 'm, 'w, 's) wire_profile"
where
  "wire_profile_for lib cfg =
     map_sum id (\<lambda>p. let p1 = (if be_fetch_mode cfg then with_fetch_priority p else p)
                     in if randomizes_extension_order (be_profile cfg)
                        then with_uniform_extension_order (tl_draws lib) p1 else p1)
       (map_tls_profile (tl_profile lib) (be_profile cfg))"

definition tls_options ::
    "('x, 'm, 'w, 's) tls_lib \<Rightarrow> ('w, 'w cookie_jar) backend_config \<Rightarrow> ('x, 'm, 'w, 's) wire_profile \<Rightarrow>
     (('x, 'm, 'w, 's) wire_profile, 'w) tls_option list"
where
  "tls_options lib cfg profile =
     [OptTimeoutSeconds (be_timeout cfg), OptClientProfile profile] @
     [OptCookieJar (case be_cookie_jar cfg of Some j \<Rightarrow> adapt_cookie_jar j | None \<Rightarrow> tl_new_jar lib)] @
     (if be_insecure cfg then [OptInsecureSkipVerify] else []) @
     (case be_dial_control cfg of
        Some g \<Rightarrow> [OptDialer (\<lambda>a. adapt_control (Some (g a)))]
      | None \<Rightarrow> []) @
     (if \<not> be_follow_redirects cfg then [OptNotFollowRedirects]
      else case be_redirect_guard cfg of Some g \<Rightarrow> [OptCustomRedirectFunc (adapt_redirect g)] | None \<Rightarrow> []) @
     (if be_proxy_url cfg \<noteq> [] then [OptProxyUrl (be_proxy_url cfg)] else []) @
     (if be_profile cfg = ''chrome_133'' \<and> \<not> be_http3 cfg then [OptDisableHttp3] else [])"

subsection \<open>The doer\<close>

record 'l tls_world =
  tw_proxy :: string
  tw_lib :: 'l

text \<open>A client of the library. \<open>tc_do\<close> also gives what is left of the body's reader; the operations that
  may dial get the dial guard as it is at that moment.\<close>

record 'w tls_http_client =
  tc_do :: "dial_guard option \<Rightarrow> wire_request \<Rightarrow> 'w \<Rightarrow> (go_error + wire_response) \<times> string option \<times> 'w"
  tc_set_proxy :: "dial_guard option \<Rightarrow> string \<Rightarrow> 'w \<Rightarrow> go_error option \<times> 'w"
  tc_cookies :: "go_url \<Rightarrow> 'w \<Rightarrow> f_cookie list"
  tc_close :: "'w \<Rightarrow> 'w"
  tc_close_idle :: "'w \<Rightarrow> 'w"

definition tls_do :: "'r backend_env \<Rightarrow> 'w tls_http_client \<Rightarrow> dial_guard option \<Rightarrow> 'w handler" where
  "tls_do env c guard q w =
     (case build_request env q of
        Inl e \<Rightarrow> Some ((None, Some e), q, w)
      | Inr wq \<Rightarrow>
          (let wq' = (if rq_order q \<noteq> [] then wq\<lparr>wq_order := Some (rq_order q)\<rparr> else wq);
               (r, rest, w1) = tc_do c guard wq' w; q1 = q\<lparr>rq_body := rest\<rparr>
           in case r of
                Inl e \<Rightarrow> Some ((None, Some (labelled ''tls request: '' e)), q1, w1)
              | Inr resp \<Rightarrow>
                  Some ((case wr_read_err resp of
                           Some e \<Rightarrow> if wr_body resp = [] then read_error resp e else finish_response env resp
                         | None \<Rightarrow> finish_response env resp), q1, w1)))"

definition tls_close :: "'w tls_http_client \<Rightarrow> 'w \<Rightarrow> 'w" where
  "tls_close c w = tc_close c w"

definition tls_close_idle_connections :: "'w tls_http_client \<Rightarrow> 'w \<Rightarrow> 'w" where
  "tls_close_idle_connections c w = tc_close_idle c w"

definition tls_set_proxy ::
    "'l tls_world tls_http_client \<Rightarrow> dial_guard option \<Rightarrow> string \<Rightarrow> 'l tls_world \<Rightarrow> go_error option \<times> 'l tls_world"
where
  "tls_set_proxy c guard url w =
     (if url = tw_proxy w then (None, w)
      else case tc_set_proxy c guard url (tc_close_idle c w) of
             (Some e, w1) \<Rightarrow> (Some e, w1)
           | (None, w1) \<Rightarrow> (None, w1\<lparr>tw_proxy := url\<rparr>))"

definition tls_get_cookie_value :: "'r backend_env \<Rightarrow> 'w tls_http_client \<Rightarrow> string \<Rightarrow> string \<Rightarrow> 'w \<Rightarrow> string" where
  "tls_get_cookie_value env c raw_url name w =
     (case bn_parse env raw_url of
        Inl e \<Rightarrow> []
      | Inr u \<Rightarrow> cookie_value (map (\<lambda>k. (fc_name k, fc_value k)) (tc_cookies c u w)) name)"

definition tls_client_doer :: "'r backend_env \<Rightarrow> 'l tls_world tls_http_client \<Rightarrow> 'l tls_world http_doer" where
  "tls_client_doer env c =
     \<lparr>hd_do = tls_do env c, hd_set_proxy = tls_set_proxy c, hd_cookie_value = tls_get_cookie_value env c,
      hd_close = Some (tls_close c), hd_idle = Some (tls_close_idle_connections c)\<rparr>"

type_synonym ('x, 'm, 'w, 's) tls_client_factory =
  "(('x, 'm, 'w, 's) wire_profile, 'w) tls_option list \<Rightarrow> 'w \<Rightarrow> (go_error + 'w tls_http_client) \<times> 'w"

definition new_tls_client_backend ::
    "('x, 'm, 'l tls_world, 's) tls_lib \<Rightarrow> 'r backend_env \<Rightarrow> ('x, 'm, 'l tls_world, 's) tls_client_factory \<Rightarrow>
     ('l tls_world, 'l tls_world cookie_jar) backend_factory"
where
  "new_tls_client_backend lib env mk cfg w =
     (case wire_profile_for lib cfg of
        Inl e \<Rightarrow> (Inl e, w)
      | Inr profile \<Rightarrow>
          (case mk (tls_options lib cfg profile) w of
             (Inl e, w1) \<Rightarrow> (Inl (labelled ''tls-client init: '' e), w1)
           | (Inr c, w1) \<Rightarrow> (Inr (tls_client_doer env c), w1\<lparr>tw_proxy := be_proxy_url cfg\<rparr>)))"

subsection \<open>Facts\<close>

lemma mapped_names: "map fst profile_map = tls_profile_names"
  by (simp add: profile_map_def tls_profile_names_def)

lemma table_profiles_mapped:
  "list_all (\<lambda>b. map_of profile_map (bp_tls_profile b) \<noteq> None) (builtin_profiles @ legacy_profiles)"
  by code_simp

lemma randomised_are_chromium: "list_all is_chromium_tls_profile extension_order_randomised"
  by code_simp

text \<open>The library's own name of a profile, its Go identifier in lower case, and the name of the library
  profile that a name of the package stands for: the same, but for Chrome 156, which the library
  does not ship.\<close>

fun lib_name :: "lib_profile \<Rightarrow> string" where
  "lib_name Chrome_131 = ''chrome_131''"
| "lib_name Chrome_133 = ''chrome_133''"
| "lib_name Chrome_144 = ''chrome_144''"
| "lib_name Chrome_146 = ''chrome_146''"
| "lib_name Chrome_150 = ''chrome_150''"
| "lib_name Chrome_152 = ''chrome_152''"
| "lib_name Firefox_133 = ''firefox_133''"
| "lib_name Firefox_148 = ''firefox_148''"
| "lib_name Brave_146 = ''brave_146''"
| "lib_name Safari_16_0 = ''safari_16_0''"
| "lib_name Safari_IOS_18_0 = ''safari_ios_18_0''"
| "lib_name Safari_IOS_17_0 = ''safari_ios_17_0''"
| "lib_name Safari_IOS_26_0 = ''safari_ios_26_0''"

definition stands_for :: "string \<Rightarrow> string" where
  "stands_for n = (if n = ''chrome_156'' then ''chrome_152'' else n)"

lemma mapped_by_name: "list_all (\<lambda>(n, l). lib_name l = stands_for n) profile_map"
  by (simp add: profile_map_def stands_for_def)

text \<open>A wire profile is that of the library but for the priority of its HEADERS frames and, for a
  profile whose browser shuffles them, the order of its extensions.\<close>

definition presents ::
    "('x, 'm, 'w, 's) tls_lib \<Rightarrow> ('w, 'w cookie_jar) backend_config \<Rightarrow> string \<Rightarrow> ('x, 'm, 'w, 's) wire_profile \<Rightarrow>
     ('x, 'm, 'w, 's) wire_profile \<Rightarrow> bool"
where
  "presents lib cfg n own p \<longleftrightarrow>
     wp_settings p = wp_settings own \<and> chi_name (wp_hello p) = chi_name (wp_hello own) \<and>
     wp_header_priority p =
       (if be_fetch_mode cfg then Some \<lparr>pp_stream_dep = 0, pp_exclusive = True, pp_weight = 219\<rparr> else wp_header_priority own) \<and>
     wp_hello p =
       (if n \<in> set extension_order_randomised then wp_hello (with_uniform_extension_order (tl_draws lib) own) else wp_hello own)"

lemma wire_profile_presents:
  assumes "wire_profile_for lib (cfg\<lparr>be_profile := n\<rparr>) = Inr p"
  shows "\<exists>l. lib_name l = stands_for n \<and> presents lib cfg n (tl_profile lib l) p"
proof -
  obtain l where l: "map_of profile_map n = Some l"
    using assms by (auto simp: wire_profile_for_def map_tls_profile_def split: option.splits)
  have "lib_name l = stands_for n"
    using mapped_by_name map_of_SomeD [OF l] by (auto simp: list_all_iff)
  moreover have "presents lib cfg n (tl_profile lib l) p"
    using assms l by (auto simp: wire_profile_for_def map_tls_profile_def presents_def with_fetch_priority_def clone_profile_def
        with_uniform_extension_order_def randomizes_extension_order_def fetch_priority_wire_def Let_def)
  ultimately show ?thesis by blast
qed

text \<open>C16: a TLS profile never becomes another browser by accident. A name has a wire profile exactly when
  it is one of the package's constants; for any other the backend's construction fails with
  ErrUnknownTLSProfile whatever else is configured. The wire profile of a constant is the library's
  profile of the same name, Chrome 152 for Chrome 156, with the library's settings and ClientHello
  name; fetch mode changes only the priority of its HEADERS frames, and the shuffle only the ClientHello's
  factory, which for the other profiles stays the library's. Every browser profile of the tables, modern
  or legacy, names a wire profile; and only profiles of the Chrome family shuffle their extensions.\<close>

theorem no_profile_becomes_another:
  "(case wire_profile_for lib (cfg\<lparr>be_profile := n\<rparr>) of
      Inl e \<Rightarrow> n \<notin> set tls_profile_names \<and> errors_is e ErrUnknownTLSProfile \<and>
        new_tls_client_backend lib env mk (cfg\<lparr>be_profile := n\<rparr>) w = (Inl e, w)
    | Inr p \<Rightarrow> n \<in> set tls_profile_names \<and>
        (\<exists>l. lib_name l = stands_for n \<and> presents lib cfg n (tl_profile lib l) p)) \<and>
   list_all (\<lambda>b. \<exists>p. wire_profile_for lib (cfg\<lparr>be_profile := bp_tls_profile b\<rparr>) = Inr p) (builtin_profiles @ legacy_profiles) \<and>
   list_all is_chromium_tls_profile extension_order_randomised"
proof -
  have exact: "(\<exists>p. wire_profile_for lib (cfg\<lparr>be_profile := m\<rparr>) = Inr p) \<longleftrightarrow> map_of profile_map m \<noteq> None" for m
    by (auto simp: wire_profile_for_def map_tls_profile_def split: option.split)
  then have mapped: "map_of profile_map m \<noteq> None \<Longrightarrow> \<exists>p. wire_profile_for lib (cfg\<lparr>be_profile := m\<rparr>) = Inr p" for m
    by blast
  have named: "map_of profile_map n \<noteq> None \<longleftrightarrow> n \<in> set tls_profile_names"
    by (simp add: map_of_eq_None_iff flip: mapped_names)
  have "case wire_profile_for lib (cfg\<lparr>be_profile := n\<rparr>) of
      Inl e \<Rightarrow> n \<notin> set tls_profile_names \<and> errors_is e ErrUnknownTLSProfile \<and>
        new_tls_client_backend lib env mk (cfg\<lparr>be_profile := n\<rparr>) w = (Inl e, w)
    | Inr p \<Rightarrow> n \<in> set tls_profile_names \<and> (\<exists>l. lib_name l = stands_for n \<and> presents lib cfg n (tl_profile lib l) p)"
  proof (cases "wire_profile_for lib (cfg\<lparr>be_profile := n\<rparr>)")
    case (Inl e)
    then have "map_of profile_map n = None" "errors_is e ErrUnknownTLSProfile"
      by (auto simp: wire_profile_for_def map_tls_profile_def split: option.splits)
    then show ?thesis using Inl named by (simp add: new_tls_client_backend_def)
  next
    case (Inr p)
    then show ?thesis using exact [of n] named wire_profile_presents [OF Inr] by simp
  qed
  moreover have "list_all (\<lambda>b. \<exists>p. wire_profile_for lib (cfg\<lparr>be_profile := bp_tls_profile b\<rparr>) = Inr p)
      (builtin_profiles @ legacy_profiles)"
    by (rule list.pred_mono_strong [OF table_profiles_mapped]) (rule mapped)
  ultimately show ?thesis using randomised_are_chromium by blast
qed

subsection \<open>Switching the proxy\<close>

fun set_proxy_run ::
    "'l tls_world tls_http_client \<Rightarrow> (dial_guard option \<times> string) list \<Rightarrow> 'l tls_world \<Rightarrow> go_error option list \<times> 'l tls_world"
where
  "set_proxy_run c [] w = ([], w)"
| "set_proxy_run c ((g, u) # calls) w =
     (let (r, w1) = tls_set_proxy c g u w; (rs, w2) = set_proxy_run c calls w1 in (r # rs, w2))"

text \<open>The specification: the proxy is the last one that was accepted.\<close>

definition last_accepted :: "string \<Rightarrow> string list \<Rightarrow> go_error option list \<Rightarrow> string" where
  "last_accepted p urls rs = foldl (\<lambda>q (u, r). if r = None then u else q) p (zip urls rs)"

lemma set_proxy_same: "tls_set_proxy c g (tw_proxy w) w = (None, w)"
  by (simp add: tls_set_proxy_def)

lemma set_proxy_run_same: "list_all (\<lambda>(g, u). u = tw_proxy w) calls \<Longrightarrow> snd (set_proxy_run c calls w) = w"
  by (induction calls) (auto simp: set_proxy_same split: prod.split)

text \<open>C17: the doer's note of its proxy never disagrees with tls-client's. Take a library that uses the
  proxy it accepted last, keeps it when it refuses one, and does not touch the doer's field. From a
  state in which the two agree they agree after every sequence of SetProxy calls, refused ones
  included, and the proxy in use is the last one accepted; and a sequence of calls that never asks
  for another proxy leaves the library, with its connections, alone.\<close>

theorem proxy_note_is_library_proxy:
  assumes set_ok: "\<And>g u v v'. tc_set_proxy c g u v = (None, v') \<Longrightarrow> in_use v' = u \<and> tw_proxy v' = tw_proxy v"
    and set_err: "\<And>g u v v' e. tc_set_proxy c g u v = (Some e, v') \<Longrightarrow> in_use v' = in_use v \<and> tw_proxy v' = tw_proxy v"
    and idle: "\<And>v. in_use (tc_close_idle c v) = in_use v \<and> tw_proxy (tc_close_idle c v) = tw_proxy v"
    and field: "\<And>v u. in_use (v\<lparr>tw_proxy := u\<rparr>) = in_use v"
    and start: "in_use w = tw_proxy w"
  shows "case set_proxy_run c calls w of (rs, w') \<Rightarrow>
     in_use w' = tw_proxy w' \<and> tw_proxy w' = last_accepted (tw_proxy w) (map snd calls) rs \<and>
     (list_all (\<lambda>(g, u). u = tw_proxy w) calls \<longrightarrow> w' = w)"
proof -
  have step: "case tls_set_proxy c g u v of (r, v') \<Rightarrow>
      in_use v' = tw_proxy v' \<and> tw_proxy v' = (if r = None then u else tw_proxy v)"
    if "in_use v = tw_proxy v" for g u v
  proof (cases "u = tw_proxy v")
    case False
    obtain r v1 where lib: "tc_set_proxy c g u (tc_close_idle c v) = (r, v1)" by fastforce
    show ?thesis
    proof (cases r)
      case None
      with lib have "in_use v1 = u" using set_ok by blast
      with False lib None show ?thesis by (simp add: tls_set_proxy_def field)
    next
      case (Some e)
      with lib have "in_use v1 = in_use v" "tw_proxy v1 = tw_proxy v"
        using set_err [OF lib [unfolded Some]] idle [of v] by simp_all
      with False lib Some that show ?thesis by (simp add: tls_set_proxy_def)
    qed
  qed (simp add: that tls_set_proxy_def)
  have run: "case set_proxy_run c calls v of (rs, v') \<Rightarrow>
      in_use v' = tw_proxy v' \<and> tw_proxy v' = last_accepted (tw_proxy v) (map snd calls) rs"
    if "in_use v = tw_proxy v" for v
    using that
  proof (induction calls arbitrary: v)
    case (Cons x calls)
    obtain g u where x: "x = (g, u)" by (cases x)
    obtain r v1 where r: "tls_set_proxy c g u v = (r, v1)" by (cases "tls_set_proxy c g u v")
    have v1: "in_use v1 = tw_proxy v1" "tw_proxy v1 = (if r = None then u else tw_proxy v)"
      using step [OF Cons.prems, where g = g and u = u] r by simp_all
    obtain rs v2 where rest: "set_proxy_run c calls v1 = (rs, v2)" by fastforce
    show ?case using Cons.IH [OF v1(1)] v1(2) r x rest by (simp add: last_accepted_def)
  qed (simp add: last_accepted_def)
  show ?thesis using run [OF start] set_proxy_run_same [of w calls c] by (auto split: prod.splits)
qed

text \<open>A library for the witness: its world is the proxy it uses, and it refuses the empty one.\<close>

definition demo_tls_client :: "string tls_world tls_http_client" where
  "demo_tls_client =
     \<lparr>tc_do = (\<lambda>g q w. (Inl ErrCanceled, None, w)),
      tc_set_proxy = (\<lambda>g u w. if u = [] then (Some ErrCanceled, w) else (None, w\<lparr>tw_lib := u\<rparr>)),
      tc_cookies = (\<lambda>u w. []), tc_close = (\<lambda>w. w), tc_close_idle = (\<lambda>w. w)\<rparr>"

theorem proxy_note_is_library_proxy_witness:
  "case set_proxy_run demo_tls_client [(None, ''a''), (None, ''b''), (None, [])] \<lparr>tw_proxy = ''p'', tw_lib = ''p''\<rparr> of
     (rs, w') \<Rightarrow> tw_lib w' = tw_proxy w' \<and> tw_proxy w' = ''b''"
proof -
  let ?w = "\<lparr>tw_proxy = ''p'', tw_lib = ''p''\<rparr>" and ?calls = "[(None :: dial_guard option, ''a''), (None, ''b''), (None, [])]"
  have run: "fst (set_proxy_run demo_tls_client ?calls ?w) = [None, None, Some ErrCanceled]"
    by (simp add: demo_tls_client_def tls_set_proxy_def)
  have "case set_proxy_run demo_tls_client ?calls ?w of (rs, w') \<Rightarrow>
      tw_lib w' = tw_proxy w' \<and> tw_proxy w' = last_accepted (tw_proxy ?w) (map snd ?calls) rs \<and>
      (list_all (\<lambda>(g, u). u = tw_proxy ?w) ?calls \<longrightarrow> w' = ?w)"
    by (rule proxy_note_is_library_proxy [where c = demo_tls_client and in_use = tw_lib and w = ?w and calls = ?calls])
      (auto simp: demo_tls_client_def split: if_splits)
  moreover obtain rs v where rs: "set_proxy_run demo_tls_client ?calls ?w = (rs, v)" by fastforce
  ultimately show ?thesis using run by (simp add: last_accepted_def rs del: set_proxy_run.simps)
qed

subsection \<open>The contract of the client\<close>

interpretation tls: answering_doer "tls_client_doer env c"
  by unfold_locales
    (use finish_is_answer in \<open>auto simp: answer_of_result tls_client_doer_def tls_do_def Let_def split: sum.split prod.split option.split\<close>)

end
