(* ===== verification/Go_Path.thy ===== *)
theory Go_Path
  imports Go_Net
begin

text \<open>
  The part of Go's \<^verbatim>\<open>path/filepath\<close>, \<^verbatim>\<open>encoding/hex\<close> and \<^verbatim>\<open>encoding/json\<close> the
  tools and the session store use: cleaning and joining of Unix paths, hexadecimal text, and the
  values a JSON document decodes to (\<^verbatim>\<open>any\<close>). The facts: cleaning is idempotent, and a cleaned
  path below a directory stays below it.
\<close>

subsection \<open>Paths\<close>

text \<open>The stack of components, last first: dots and empty components vanish, and a double dot takes
  away the component before it.\<close>

definition clean_step :: "bool \<Rightarrow> string \<Rightarrow> string list \<Rightarrow> string list" where
  "clean_step rooted c stack =
     (if c = [] \<or> c = ''.'' then stack
      else if c = ''..'' then
        (case stack of
           [] \<Rightarrow> if rooted then [] else [''..'']
         | t # rest \<Rightarrow> if t = ''..'' then ''..'' # stack else rest)
      else c # stack)"

definition is_rooted :: "string \<Rightarrow> bool" where
  "is_rooted s \<longleftrightarrow> s \<noteq> [] \<and> hd s = CHR ''/''"

definition clean_components :: "string \<Rightarrow> string list" where
  "clean_components s = rev (fold (clean_step (is_rooted s)) (split_on ''/'' s) [])"

definition path_of :: "bool \<Rightarrow> string list \<Rightarrow> string" where
  "path_of rooted cs =
     (if rooted then CHR ''/'' # join ''/'' cs else if cs = [] then ''.'' else join ''/'' cs)"

definition path_clean :: "string \<Rightarrow> string" where
  "path_clean s = path_of (is_rooted s) (clean_components s)"

definition path_join :: "string list \<Rightarrow> string" where
  "path_join elems =
     (case dropWhile (\<lambda>e. e = []) elems of [] \<Rightarrow> [] | es \<Rightarrow> path_clean (join ''/'' es))"

definition path_dir :: "string \<Rightarrow> string" where
  "path_dir s = path_clean (rev (dropWhile (\<lambda>c. c \<noteq> CHR ''/'') (rev s)))"

definition path_ext :: "string \<Rightarrow> string" where
  "path_ext s =
     (let tail = takeWhile (\<lambda>c. c \<noteq> CHR ''/'' \<and> c \<noteq> CHR ''.'') (rev s); rest = drop (length tail) (rev s)
      in case rest of c # cs \<Rightarrow> if c = CHR ''.'' then CHR ''.'' # rev tail else [] | [] \<Rightarrow> [])"

subsection \<open>Hexadecimal text\<close>

definition hex_digit :: "nat \<Rightarrow> char" where
  "hex_digit d = (if d < 10 then char_of (48 + d) else char_of (87 + d))"

definition hex_encode :: "string \<Rightarrow> string" where
  "hex_encode s = concat (map (\<lambda>c. let n = (of_char c :: nat) in [hex_digit (n div 16), hex_digit (n mod 16)]) s)"

subsection \<open>JSON values\<close>

datatype json =
    JNull
  | JBool bool
  | JNumber string
  | JString string
  | JArray "json list"
  | JObject "(string \<times> json) list"

text \<open>The type assertions with the value and \<^verbatim>\<open>ok\<close>, where the zero value stands for a failure. The
  zero of a map is nil, in which every lookup gives nil.\<close>

definition json_str :: "json option \<Rightarrow> string" where
  "json_str v = (case v of Some (JString s) \<Rightarrow> s | _ \<Rightarrow> [])"

definition json_obj :: "json option \<Rightarrow> (string \<times> json) list" where
  "json_obj v = (case v of Some (JObject m) \<Rightarrow> m | _ \<Rightarrow> [])"

definition json_arr :: "json option \<Rightarrow> json list" where
  "json_arr v = (case v of Some (JArray xs) \<Rightarrow> xs | _ \<Rightarrow> [])"

subsection \<open>Splitting and joining\<close>

lemma split_field: "d \<notin> set x \<Longrightarrow> split_acc (d # e) acc (x @ (d # e) @ y) = (rev acc @ x) # split_acc (d # e) [] y"
proof (induction x arbitrary: acc)
  case Nil
  show ?case by (subst split_acc.simps) simp
next
  case (Cons c x)
  then show ?case by (subst split_acc.simps) auto
qed

lemma split_last: "d \<notin> set x \<Longrightarrow> split_acc (d # e) acc x = [rev acc @ x]"
proof (induction x arbitrary: acc)
  case Nil
  show ?case by (subst split_acc.simps) simp
next
  case (Cons c x)
  then show ?case by (subst split_acc.simps) auto
qed

lemma split_on_field_sep: "d \<notin> set x \<Longrightarrow> split_on (d # e) (x @ (d # e) @ y) = x # split_on (d # e) y"
  by (simp add: split_on_def split_field [simplified])

lemma split_on_single: "d \<notin> set x \<Longrightarrow> split_on (d # e) x = [x]"
  by (simp add: split_on_def split_last)

lemma split_on_field: "d \<notin> set x \<Longrightarrow> split_on [d] (x @ d # y) = x # split_on [d] y"
  using split_on_field_sep [of d x "[]" y] by simp

lemma split_on_nonempty [simp]: "split_on sep s \<noteq> []"
proof -
  have "split_acc sep acc s \<noteq> []" for acc
    by (induction sep acc s rule: split_acc.induct) (subst split_acc.simps, simp)
  then show ?thesis by (simp add: split_on_def)
qed

lemma split_fields_avoid: "c \<in> set (split_on [d] s) \<Longrightarrow> d \<notin> set c"
proof (induction s rule: measure_induct_rule [where f = length])
  case (less s)
  show ?case
  proof (cases "d \<in> set s")
    case False
    then show ?thesis using less.prems by (simp add: split_on_single)
  next
    case True
    then obtain x y where s: "s = x @ d # y" "d \<notin> set x" by (meson split_list_first)
    then show ?thesis using less.prems less.IH [of y] by (auto simp: split_on_field)
  qed
qed

lemma join_Cons: "cs \<noteq> [] \<Longrightarrow> join sep (c # cs) = c @ sep @ join sep cs"
  by (cases cs) simp_all

lemma join_snoc: "cs \<noteq> [] \<Longrightarrow> join sep (cs @ [c]) = join sep cs @ sep @ c"
  by (induction cs rule: list_nonempty_induct) (simp_all add: join_Cons)

lemma split_join_append:
  "cs \<noteq> [] \<Longrightarrow> \<forall>c\<in>set cs. d \<notin> set c \<Longrightarrow> split_on [d] (join [d] cs @ d # t) = cs @ split_on [d] t"
  by (induction cs rule: list_nonempty_induct) (simp_all add: split_on_field join_Cons)

lemma split_join_sep:
  "cs \<noteq> [] \<Longrightarrow> \<forall>c\<in>set cs. d \<notin> set c \<Longrightarrow> split_on (d # e) (join (d # e) cs) = cs"
  by (induction cs rule: list_nonempty_induct) (simp_all add: split_on_field_sep [simplified] split_on_single join_Cons)

lemmas split_join = split_join_sep [where e = "[]"]

subsection \<open>Cleaning\<close>

definition normal_components :: "bool \<Rightarrow> string list \<Rightarrow> bool" where
  "normal_components rooted cs \<longleftrightarrow>
     list_all (\<lambda>c. c \<noteq> [] \<and> c \<noteq> ''.'' \<and> CHR ''/'' \<notin> set c) cs \<and>
     ''..'' \<notin> set (if rooted then cs else dropWhile (\<lambda>c. c = ''..'') cs)"

lemma normal_plain: "normal_components r cs \<Longrightarrow> c \<in> set cs \<Longrightarrow> c \<noteq> [] \<and> c \<noteq> ''.'' \<and> CHR ''/'' \<notin> set c"
  by (simp add: normal_components_def list_all_iff)

lemma normal_snoc:
  "normal_components r (cs @ [c]) \<longleftrightarrow>
     normal_components r cs \<and> c \<noteq> [] \<and> c \<noteq> ''.'' \<and> CHR ''/'' \<notin> set c \<and>
     (c = ''..'' \<longrightarrow> \<not> r \<and> list_all (\<lambda>x. x = ''..'') cs)"
proof (cases "list_all (\<lambda>x. x = ''..'') cs")
  case True
  then have all: "\<forall>x\<in>set cs. x = ''..''" by (simp add: list_all_iff)
  then have none: "dropWhile (\<lambda>c. c = ''..'') cs = []"
    unfolding dropWhile_eq_Nil_conv by blast
  have "''..'' \<notin> set (dropWhile (\<lambda>c. c = ''..'') cs)" unfolding none by simp
  moreover have "dropWhile (\<lambda>c. c = ''..'') (cs @ [c]) = dropWhile (\<lambda>c. c = ''..'') [c]"
    by (rule dropWhile_append2) (use all in blast)
  then have "''..'' \<notin> set (dropWhile (\<lambda>c. c = ''..'') (cs @ [c]))" by simp
  ultimately show ?thesis using True by (cases r) (auto simp: normal_components_def)
next
  case False
  then obtain x where "x \<in> set cs" "x \<noteq> ''..''" by (auto simp: list_all_iff)
  then have "dropWhile (\<lambda>c. c = ''..'') (cs @ [c]) = dropWhile (\<lambda>c. c = ''..'') cs @ [c]"
    by (rule dropWhile_append1)
  with False show ?thesis by (cases r) (auto simp: normal_components_def)
qed

lemma normal_butlast: "normal_components r (cs @ ds) \<Longrightarrow> normal_components r cs"
proof (induction ds rule: rev_induct)
  case (snoc d ds)
  then show ?case using normal_snoc [of r "cs @ ds" d] by simp
qed simp

lemma clean_step_normal:
  assumes "normal_components r (rev stack)" "CHR ''/'' \<notin> set c"
  shows "normal_components r (rev (clean_step r c stack))"
proof (cases "c = [] \<or> c = ''.''")
  case True
  with assms(1) show ?thesis by (simp add: clean_step_def)
next
  case False
  note push = normal_snoc [of r "rev stack" c] and top = normal_snoc [of r "rev (tl stack)" "hd stack"]
  show ?thesis
  proof (cases "c = ''..''")
    case True
    show ?thesis
    proof (cases stack)
      case Nil
      with True show ?thesis by (simp add: clean_step_def normal_components_def)
    next
      case (Cons x rest)
      then show ?thesis using True assms push top by (cases "x = ''..''") (simp_all add: clean_step_def)
    qed
  qed (use False assms push in \<open>simp add: clean_step_def\<close>)
qed

lemma fold_clean_normal:
  "normal_components r (rev stack) \<Longrightarrow> \<forall>c\<in>set cs. CHR ''/'' \<notin> set c \<Longrightarrow>
     normal_components r (rev (fold (clean_step r) cs stack))"
  by (induction cs arbitrary: stack) (simp_all add: clean_step_normal)

lemma clean_components_normal: "normal_components (is_rooted s) (clean_components s)"
  unfolding clean_components_def
  by (rule fold_clean_normal) (auto simp: normal_components_def dest: split_fields_avoid)

lemma fold_clean_id:
  "normal_components r (rev stack @ cs) \<Longrightarrow> fold (clean_step r) cs stack = rev cs @ stack"
proof (induction cs arbitrary: stack)
  case (Cons c cs)
  have n: "normal_components r (rev stack @ [c])" using normal_butlast [of r "rev stack @ [c]" cs] Cons.prems by simp
  have "clean_step r c stack = c # stack"
    using n unfolding normal_snoc by (cases stack) (auto simp: clean_step_def)
  with Cons.IH [of "c # stack"] Cons.prems show ?case by simp
qed simp

lemma join_hd: "c \<noteq> [] \<Longrightarrow> join sep (c # cs) \<noteq> [] \<and> hd (join sep (c # cs)) = hd c"
  by (cases cs) auto

lemma path_of_starts:
  assumes "normal_components r cs"
  shows "path_of r cs \<noteq> [] \<and> is_rooted (path_of r cs) = r"
proof (cases cs)
  case Nil
  then show ?thesis by (simp add: path_of_def is_rooted_def)
next
  case (Cons c ds)
  then have "c \<noteq> []" "CHR ''/'' \<notin> set c" using normal_plain [OF assms] by auto
  then have "hd c \<noteq> CHR ''/''" by (metis hd_in_set)
  with Cons \<open>c \<noteq> []\<close> show ?thesis using join_hd [of c "''/''" ds] by (simp add: path_of_def is_rooted_def)
qed

lemmas rooted_path_of = path_of_starts [THEN conjunct2]

lemma components_path_of:
  assumes "normal_components r cs"
  shows "clean_components (path_of r cs) = cs"
proof -
  have plain: "\<forall>c\<in>set cs. CHR ''/'' \<notin> set c" using normal_plain [OF assms] by blast
  have id: "fold (clean_step r) cs [] = rev cs" using fold_clean_id [of r "[]" cs] assms by simp
  have root: "split_on ''/'' (CHR ''/'' # t) = [] # split_on ''/'' t" for t
    using split_on_field [of "CHR ''/''" "[]" t] by simp
  have dot: "clean_step q ''.'' stack = stack" "clean_step q [] stack = stack" for q stack
    by (simp_all add: clean_step_def)
  show ?thesis
  proof (cases "cs = []")
    case True
    then show ?thesis using rooted_path_of [OF assms] root [of "[]"] split_on_single [of "CHR ''/''"]
      by (cases r) (simp_all add: clean_components_def path_of_def dot)
  next
    case False
    then show ?thesis using rooted_path_of [OF assms] root split_join [OF False plain] id
      by (cases r) (simp_all add: clean_components_def path_of_def dot)
  qed
qed

lemma path_clean_idem [simp]: "path_clean (path_clean s) = path_clean s"
  unfolding path_clean_def [of s]
  by (simp add: path_clean_def rooted_path_of components_path_of clean_components_normal)

lemma path_clean_Nil [simp]: "path_clean [] = ''.''"
  by (simp add: path_clean_def clean_components_def split_on_single is_rooted_def path_of_def clean_step_def)

lemma path_clean_root: "path_clean ''/'' = ''/''"
  by code_simp

lemma path_join_clean: "path_join es = [] \<or> path_clean (path_join es) = path_join es"
  by (auto simp: path_join_def split: list.split)

text \<open>A path with the cleaned text of a directory and a slash before it has the directory's
  components first, and none of the others leads back, if the directory does not end in a double dot.\<close>

lemma below_components:
  assumes "normal_components r ps" "normal_components q ds" "path_of r ps = path_of q ds @ ''/'' @ t"
  shows "q = r \<and> ds \<noteq> [] \<and> ps = ds @ split_on ''/'' t"
proof -
  have plain: "\<forall>c\<in>set ds. CHR ''/'' \<notin> set c" using normal_plain [OF assms(2)] by blast
  have "is_rooted (path_of q ds @ ''/'' @ t) = is_rooted (path_of q ds)"
    using path_of_starts [OF assms(2)] by (simp add: is_rooted_def)
  then have qr: "q = r" using rooted_path_of assms by metis
  have "ps \<noteq> []" using assms(3) qr by (auto simp: path_of_def Cons_eq_append_conv split: if_splits)
  then have split: "split_on ''/'' (join ''/'' ps) = ps" using normal_plain [OF assms(1)] split_join by blast
  have "ds \<noteq> []"
  proof
    assume ds: "ds = []"
    have "split_on ''/'' (join ''/'' ps) = (if r then [] else ''.'') # split_on ''/'' t"
      using assms(3) qr ds \<open>ps \<noteq> []\<close> split_on_field [of "CHR ''/''" "[]" t] split_on_field [of "CHR ''/''" "''.''" t]
      by (auto simp: path_of_def split: if_splits)
    then show False using split normal_plain [OF assms(1)] by (metis list.set_intros(1))
  qed
  moreover from this have "join ''/'' ps = join ''/'' ds @ ''/'' @ t"
    using assms(3) qr \<open>ps \<noteq> []\<close> by (simp add: path_of_def split: if_splits)
  ultimately show ?thesis using qr split split_join_append [OF _ plain, of t] by simp
qed

lemma path_dir_path_of:
  assumes "normal_components r (ds @ [c])"
  shows "path_dir (path_of r (ds @ [c])) = path_of r ds"
proof -
  have plain: "\<forall>x\<in>set ds. CHR ''/'' \<notin> set x" and c: "CHR ''/'' \<notin> set c" "c \<noteq> []"
    using normal_plain [OF assms] by auto
  have ds: "normal_components r ds" using normal_butlast [OF assms] .
  have cut: "rev (dropWhile (\<lambda>x. x \<noteq> CHR ''/'') (rev (s @ CHR ''/'' # c))) = s @ ''/''" for s
    using c(1) by (simp add: dropWhile_append2 dropWhile_append)
  have slash: "path_clean (path_of r ds @ ''/'') = path_of r ds" if "ds \<noteq> []"
  proof -
    have "is_rooted (path_of r ds @ ''/'') = r" using path_of_starts [OF ds] by (cases r) (auto simp: is_rooted_def)
    moreover have "fold (clean_step r) ds [] = rev ds" using fold_clean_id [of r "[]" ds] ds by simp
    moreover have "split_on ''/'' (CHR ''/'' # t) = [] # split_on ''/'' t" for t
      using split_on_field [of "CHR ''/''" "[]" t] by simp
    ultimately show ?thesis using that split_join_append [OF that plain, of "[]"]
      by (cases r) (simp_all add: path_clean_def clean_components_def path_of_def split_on_single clean_step_def)
  qed
  show ?thesis
  proof (cases "ds = []")
    case True
    have none: "dropWhile (\<lambda>x. x \<noteq> CHR ''/'') (rev c) = []" using c(1) by auto
    have single: "path_dir c = ''.''" unfolding path_dir_def none by simp
    show ?thesis
    proof (cases r)
      case False
      then show ?thesis using True single by (simp add: path_of_def)
    qed (use True cut [of "[]"] in \<open>simp add: path_dir_def path_of_def path_clean_root\<close>)
  next
    case False
    then have "path_of r (ds @ [c]) = path_of r ds @ CHR ''/'' # c"
      by (simp add: path_of_def join_snoc)
    then show ?thesis using cut slash [OF False] by (simp add: path_dir_def)
  qed
qed

lemma below_no_dotdot:
  assumes "normal_components r (ds @ rest)" "ds \<noteq> []" "last ds \<noteq> ''..''"
  shows "''..'' \<notin> set rest"
proof -
  have "dropWhile (\<lambda>c. c = ''..'') (ds @ rest) = dropWhile (\<lambda>c. c = ''..'') ds @ rest"
    using assms(2,3) by (auto simp: dropWhile_append)
  then show ?thesis using assms(1) by (auto simp: normal_components_def split: if_splits)
qed

text \<open>A file in a directory: its path has the directory's components and then its name.\<close>

lemma split_on_append: "split_on [d] (x @ d # y) = split_on [d] x @ split_on [d] y"
proof (induction x rule: measure_induct_rule [where f = length])
  case (less x)
  show ?case
  proof (cases "d \<in> set x")
    case False
    then show ?thesis by (simp add: split_on_field split_on_single)
  next
    case True
    then obtain a b where x: "x = a @ d # b" "d \<notin> set a" by (meson split_list_first)
    then show ?thesis using less.IH [of b] by (simp add: split_on_field)
  qed
qed

definition plain_name :: "string \<Rightarrow> bool" where
  "plain_name c \<longleftrightarrow> c \<noteq> [] \<and> c \<noteq> ''.'' \<and> c \<noteq> ''..'' \<and> CHR ''/'' \<notin> set c"

lemma clean_components_snoc:
  assumes "plain_name c"
  shows "clean_components (d @ ''/'' @ c) = (if d = [] then [c] else clean_components d @ [c])"
proof -
  have push: "clean_step r c stack = c # stack" for r stack using assms by (simp add: clean_step_def plain_name_def)
  have "split_on ''/'' (d @ ''/'' @ c) = split_on ''/'' d @ [c]"
    using assms split_on_append [of "CHR ''/''" d c] by (simp add: split_on_single plain_name_def)
  moreover have "is_rooted (d @ ''/'' @ c) = is_rooted d" if "d \<noteq> []" using that by (simp add: is_rooted_def)
  ultimately show ?thesis using push
    by (cases "d = []") (simp_all add: clean_components_def split_on_single clean_step_def)
qed

lemma path_join_name:
  assumes "plain_name c"
  shows "path_join [d, c] = path_of (is_rooted d) (clean_components d @ [c])"
proof (cases "d = []")
  case True
  have "\<not> is_rooted c" "clean_components c = [c]"
    using assms by (auto simp: is_rooted_def plain_name_def clean_components_def split_on_single clean_step_def dest: hd_in_set)
  then show ?thesis using True assms
    by (simp add: path_join_def path_clean_def plain_name_def is_rooted_def clean_components_def split_on_single clean_step_def)
next
  case False
  then have "is_rooted (d @ CHR ''/'' # c) = is_rooted d" by (simp add: is_rooted_def)
  then show ?thesis using False clean_components_snoc [OF assms, of d] by (simp add: path_join_def path_clean_def)
qed

lemma path_join_components:
  assumes "plain_name c"
  shows "clean_components (path_join [d, c]) = clean_components d @ [c]"
proof -
  have "normal_components (is_rooted d) (clean_components d @ [c])"
    using assms clean_components_normal [of d] normal_snoc by (simp add: plain_name_def)
  then show ?thesis using assms by (simp add: path_join_name components_path_of)
qed

lemma path_join_name_inj:
  "plain_name c \<Longrightarrow> plain_name c' \<Longrightarrow> path_join [d, c] = path_join [d, c'] \<longleftrightarrow> c = c'"
  by (metis path_join_components last_snoc)

lemma hex_encode_plain: "CHR ''/'' \<notin> set (hex_encode s)"
proof -
  have "list_all (\<lambda>d. hex_digit d \<noteq> CHR ''/'') [0..<16]" by code_simp
  then have digit: "hex_digit d \<noteq> CHR ''/''" if "d < 16" for d using that by (simp only: list_all_iff set_upt) auto
  have "of_char c div 16 < (16 :: nat)" for c :: char by (rule less_mult_imp_div_less) simp
  then have "hex_digit (of_char c div 16) \<noteq> CHR ''/''" "hex_digit (of_char c mod 16) \<noteq> CHR ''/''" for c
    using digit by simp_all
  then show ?thesis by (force simp: hex_encode_def Let_def)
qed

end
