(* ===== verification/Fingerprint.thy ===== *)
theory Fingerprint
  imports Go_Path Go_Errors Profile
begin

text \<open>
  The fingerprint oracle (\<^verbatim>\<open>src/internal/fingerprint/reference.go\<close>): what is read from the
  answers of the two echo services, how the two readings are merged, and how a reading is compared
  with a stored reference of a browser. JSON texts are decoded by a library; its result is a value of
  type \<open>json\<close>. Files are read and written through parameters.
\<close>

subsection \<open>Data\<close>

definition service_peet :: string where
  "service_peet = ''peet''"

definition service_browserleaks :: string where
  "service_browserleaks = ''browserleaks''"

definition peet_endpoint :: string where
  "peet_endpoint = ''https://tls.peet.ws/api/all''"

definition browserleaks_endpoint :: string where
  "browserleaks_endpoint = ''https://tls.browserleaks.com/json''"

record sources =
  src_ja3 :: string
  src_ja3n :: string
  src_ja4 :: string
  src_ja4o :: string
  src_peetprint :: string
  src_http2 :: string
  src_headers :: string

record tls_fingerprint =
  tf_ja3 :: string
  tf_ja3_hash :: string
  tf_ja3n_hash :: string
  tf_ja4 :: string
  tf_ja4o :: string
  tf_peetprint :: string
  tf_peetprint_hash :: string

record observed =
  ob_sources :: sources
  ob_tls :: tls_fingerprint
  ob_http2 :: string
  ob_header_order :: "string list"
  ob_sec_ch_ua :: string
  ob_sec_ch_ua_mobile :: string
  ob_sec_ch_ua_platform :: string
  ob_accept :: string
  ob_accept_language :: string
  ob_accept_encoding :: string
  ob_user_agent :: string

record reference =
  rf_browser :: string
  rf_browser_version :: string
  rf_major :: string
  rf_capture_time :: time
  rf_endpoint :: string
  rf_mode :: string
  rf_arch :: string
  rf_browser_source :: string
  rf_sources :: sources
  rf_tls :: tls_fingerprint
  rf_http2 :: string
  rf_header_order :: "string list"
  rf_sec_ch_ua :: string
  rf_sec_ch_ua_mobile :: string
  rf_sec_ch_ua_platform :: string
  rf_accept :: string
  rf_accept_language :: string
  rf_accept_encoding :: string
  rf_user_agent :: string
  rf_notes :: "string list"

definition no_sources :: sources where
  "no_sources =
     \<lparr>src_ja3 = [], src_ja3n = [], src_ja4 = [], src_ja4o = [], src_peetprint = [], src_http2 = [], src_headers = []\<rparr>"

definition no_tls :: tls_fingerprint where
  "no_tls =
     \<lparr>tf_ja3 = [], tf_ja3_hash = [], tf_ja3n_hash = [], tf_ja4 = [], tf_ja4o = [], tf_peetprint = [],
      tf_peetprint_hash = []\<rparr>"

definition zero_observed :: observed where
  "zero_observed =
     \<lparr>ob_sources = no_sources, ob_tls = no_tls, ob_http2 = [], ob_header_order = [], ob_sec_ch_ua = [],
      ob_sec_ch_ua_mobile = [], ob_sec_ch_ua_platform = [], ob_accept = [], ob_accept_language = [],
      ob_accept_encoding = [], ob_user_agent = []\<rparr>"

subsection \<open>Reading the answers\<close>

definition split_header :: "string \<Rightarrow> string \<times> string" where
  "split_header h =
     (case str_index h '':'' of
        None \<Rightarrow> (trim_space h, [])
      | Some i \<Rightarrow> (to_lower (trim_space (take i h)), trim_space (drop (i + 1) h)))"

definition note_header :: "json \<Rightarrow> observed \<Rightarrow> observed" where
  "note_header j ob =
     (let hs = json_str (Some j)
      in if has_prefix hs '':'' then ob
         else let (name, val) = split_header hs;
                  ob1 = ob\<lparr>ob_header_order := ob_header_order ob @ [name]\<rparr>
              in if name = ''sec-ch-ua'' then ob1\<lparr>ob_sec_ch_ua := val\<rparr>
                 else if name = ''sec-ch-ua-mobile'' then ob1\<lparr>ob_sec_ch_ua_mobile := val\<rparr>
                 else if name = ''sec-ch-ua-platform'' then ob1\<lparr>ob_sec_ch_ua_platform := val\<rparr>
                 else if name = ''accept'' then ob1\<lparr>ob_accept := val\<rparr>
                 else if name = ''accept-language'' then ob1\<lparr>ob_accept_language := val\<rparr>
                 else if name = ''accept-encoding'' then ob1\<lparr>ob_accept_encoding := val\<rparr>
                 else ob1)"

text \<open>The first HEADERS frame is the request; the others are not looked at.\<close>

fun note_frames :: "json list \<Rightarrow> observed \<Rightarrow> observed" where
  "note_frames [] ob = ob"
| "note_frames (f # fs) ob =
     (case f of
        JObject m \<Rightarrow>
          if map_of m ''frame_type'' \<noteq> Some (JString ''HEADERS'') then note_frames fs ob
          else fold note_header (json_arr (map_of m ''headers'')) ob
      | _ \<Rightarrow> note_frames fs ob)"

definition extract_peet :: "(string \<times> json) list \<Rightarrow> observed" where
  "extract_peet raw =
     (let tls = json_obj (map_of raw ''tls''); h2 = json_obj (map_of raw ''http2'');
          ob = zero_observed
                 \<lparr>ob_tls := no_tls\<lparr>tf_ja3 := json_str (map_of tls ''ja3''), tf_ja3_hash := json_str (map_of tls ''ja3_hash''),
                                  tf_peetprint := json_str (map_of tls ''peetprint''),
                                  tf_peetprint_hash := json_str (map_of tls ''peetprint_hash'')\<rparr>,
                  ob_user_agent := json_str (map_of raw ''user_agent''),
                  ob_http2 := json_str (map_of h2 ''akamai_fingerprint'')\<rparr>
      in (note_frames (json_arr (map_of h2 ''sent_frames'')) ob)
           \<lparr>ob_sources := no_sources\<lparr>src_ja3 := service_peet, src_peetprint := service_peet, src_http2 := service_peet,
                                     src_headers := service_peet\<rparr>\<rparr>)"

definition extract_browserleaks :: "(string \<times> json) list \<Rightarrow> observed" where
  "extract_browserleaks raw =
     zero_observed
       \<lparr>ob_tls := no_tls\<lparr>tf_ja3_hash := json_str (map_of raw ''ja3_hash''), tf_ja3n_hash := json_str (map_of raw ''ja3n_hash''),
                        tf_ja4 := json_str (map_of raw ''ja4''), tf_ja4o := json_str (map_of raw ''ja4_o'')\<rparr>,
        ob_http2 := json_str (map_of raw ''akamai_text''),
        ob_sources := no_sources\<lparr>src_ja3 := service_browserleaks, src_ja3n := service_browserleaks,
                                 src_ja4 := service_browserleaks, src_ja4o := service_browserleaks,
                                 src_http2 := service_browserleaks\<rparr>\<rparr>"

definition merge_observed :: "observed \<Rightarrow> observed \<Rightarrow> observed" where
  "merge_observed peet bl =
     peet\<lparr>ob_tls := (ob_tls peet)\<lparr>tf_ja3_hash := tf_ja3_hash (ob_tls bl), tf_ja3n_hash := tf_ja3n_hash (ob_tls bl),
                                  tf_ja4 := tf_ja4 (ob_tls bl), tf_ja4o := tf_ja4o (ob_tls bl)\<rparr>,
          ob_http2 := ob_http2 bl,
          ob_sources := \<lparr>src_ja3 = src_ja3 (ob_sources bl), src_ja3n = src_ja3n (ob_sources bl),
                         src_ja4 = src_ja4 (ob_sources bl), src_ja4o = src_ja4o (ob_sources bl),
                         src_peetprint = src_peetprint (ob_sources peet), src_http2 = src_http2 (ob_sources bl),
                         src_headers = src_headers (ob_sources peet)\<rparr>\<rparr>"

subsection \<open>Comparing\<close>

record field_diff =
  fd_field :: string
  fd_expected :: string
  fd_observed :: string

definition field_diff_of :: "string \<Rightarrow> string \<Rightarrow> string \<Rightarrow> field_diff" where
  "field_diff_of f e v = \<lparr>fd_field = f, fd_expected = e, fd_observed = v\<rparr>"

definition check_source :: "string \<Rightarrow> string \<Rightarrow> string \<Rightarrow> field_diff option" where
  "check_source metric ref_src obs_src =
     (if ref_src = [] \<or> obs_src = [] then None
      else if ref_src = obs_src then None
      else Some (field_diff_of (''source:'' @ metric) (''reference source='' @ ref_src)
             (''observed source='' @ obs_src @ [CHR '' '', CHR 0xE2, CHR 0x80, CHR 0x94, CHR '' ''] @
              ''cross-service comparison is a tooling artefact, not a fingerprint defect'')))"

definition note_excludes :: "reference \<Rightarrow> string \<Rightarrow> bool" where
  "note_excludes r field \<longleftrightarrow>
     list_ex (\<lambda>n. str_contains n (''excludes '' @ field) \<or> str_contains n (field @ '': excluded'')) (rf_notes r)"

fun equal_string_slices :: "string list \<Rightarrow> string list \<Rightarrow> bool" where
  "equal_string_slices [] [] = True"
| "equal_string_slices (x # xs) (y # ys) = (length xs = length ys \<and> x = y \<and> equal_string_slices xs ys)"
| "equal_string_slices _ _ = False"

definition sec_ch_ua_brand :: "string \<Rightarrow> string" where
  "sec_ch_ua_brand p = trim_char (CHR 0x22) (takeWhile (\<lambda>c. c \<noteq> CHR '';'') (trim_space p))"

definition normalize_sec_ch_ua :: "string \<Rightarrow> string" where
  "normalize_sec_ch_ua s =
     (if s = [] then []
      else join '', '' (map (\<lambda>p. let b = sec_ch_ua_brand p
                                in if b \<noteq> ''Chromium'' \<and> b \<noteq> ''Google Chrome'' \<and> b \<noteq> ''Microsoft Edge''
                                   then ''GREASE'' else p) (split_on '', '' s)))"

text \<open>One metric: a disagreement of the sources, or a disagreement of the values.\<close>

definition metric_diff :: "string \<Rightarrow> string \<Rightarrow> string \<Rightarrow> string \<Rightarrow> string \<Rightarrow> string \<Rightarrow> field_diff list" where
  "metric_diff metric field ref_src obs_src ref_val obs_val =
     (case check_source metric ref_src obs_src of
        Some v \<Rightarrow> [v]
      | None \<Rightarrow> if obs_val \<noteq> ref_val then [field_diff_of field ref_val obs_val] else [])"

text \<open>A header value is compared when the reference has one.\<close>

definition value_diff :: "string \<Rightarrow> string \<Rightarrow> string \<Rightarrow> field_diff list" where
  "value_diff field ref_val obs_val =
     (if obs_val \<noteq> ref_val \<and> ref_val \<noteq> [] then [field_diff_of field ref_val obs_val] else [])"

definition header_diffs :: "observed \<Rightarrow> reference \<Rightarrow> field_diff list \<times> string list" where
  "header_diffs ob r =
     (if src_headers (rf_sources r) = [] \<and> src_headers (ob_sources ob) = [] then ([], [])
      else case check_source ''header_order'' (src_headers (rf_sources r)) (src_headers (ob_sources ob)) of
             Some v \<Rightarrow> ([v], [])
           | None \<Rightarrow>
               ((if \<not> equal_string_slices (ob_header_order ob) (rf_header_order r)
                 then [field_diff_of ''header_order'' (join '','' (rf_header_order r)) (join '','' (ob_header_order ob))]
                 else []) @
                (if note_excludes r ''sec-ch-ua'' then []
                 else if normalize_sec_ch_ua (ob_sec_ch_ua ob) \<noteq> normalize_sec_ch_ua (rf_sec_ch_ua r) \<and> rf_sec_ch_ua r \<noteq> []
                 then [field_diff_of ''sec_ch_ua'' (rf_sec_ch_ua r) (ob_sec_ch_ua ob)] else []) @
                value_diff ''sec_ch_ua_mobile'' (rf_sec_ch_ua_mobile r) (ob_sec_ch_ua_mobile ob) @
                value_diff ''sec_ch_ua_platform'' (rf_sec_ch_ua_platform r) (ob_sec_ch_ua_platform ob) @
                value_diff ''accept'' (rf_accept r) (ob_accept ob) @
                value_diff ''accept_language'' (rf_accept_language r) (ob_accept_language ob) @
                value_diff ''accept_encoding'' (rf_accept_encoding r) (ob_accept_encoding ob),
                if note_excludes r ''sec-ch-ua''
                then [''sec-ch-ua: excluded by reference note (headless mode)''] else []))"

definition compare_observed :: "observed \<Rightarrow> reference \<Rightarrow> field_diff list \<times> string list" where
  "compare_observed ob r =
     (let rs = rf_sources r; os = ob_sources ob; rt = rf_tls r; ot = ob_tls ob;
          (hd_diffs, hd_skipped) = header_diffs ob r;
          skip_ua = note_excludes r ''user-agent''
      in (metric_diff ''ja3'' ''ja3_hash'' (src_ja3 rs) (src_ja3 os) (tf_ja3_hash rt) (tf_ja3_hash ot) @
          (if tf_ja3n_hash rt \<noteq> [] \<or> src_ja3n rs \<noteq> []
           then metric_diff ''ja3n'' ''ja3n_hash'' (src_ja3n rs) (src_ja3n os) (tf_ja3n_hash rt) (tf_ja3n_hash ot) else []) @
          metric_diff ''ja4'' ''ja4'' (src_ja4 rs) (src_ja4 os) (tf_ja4 rt) (tf_ja4 ot) @
          (if tf_ja4o rt \<noteq> [] \<or> src_ja4o rs \<noteq> []
           then metric_diff ''ja4_o'' ''ja4_o'' (src_ja4o rs) (src_ja4o os) (tf_ja4o rt) (tf_ja4o ot) else []) @
          (if tf_peetprint_hash rt \<noteq> [] \<or> src_peetprint rs \<noteq> []
           then metric_diff ''peetprint'' ''peetprint_hash'' (src_peetprint rs) (src_peetprint os)
                  (tf_peetprint_hash rt) (tf_peetprint_hash ot) else []) @
          metric_diff ''http2_akamai'' ''http2_akamai'' (src_http2 rs) (src_http2 os) (rf_http2 r) (ob_http2 ob) @
          hd_diffs @
          (if skip_ua then [] else value_diff ''user_agent'' (rf_user_agent r) (ob_user_agent ob)),
          hd_skipped @ (if skip_ua then [''user-agent: excluded by reference note (headless mode)''] else [])))"

subsection \<open>Files and hashes\<close>

text \<open>The codec of references and the operations on files are parameters.\<close>

definition reference_path :: "string \<Rightarrow> string \<Rightarrow> string" where
  "reference_path dir major = path_join [dir, ''reference_chrome_'' @ major @ ''.json'']"

definition load_reference ::
    "(string \<Rightarrow> 'w \<Rightarrow> go_error + string) \<Rightarrow> (string \<Rightarrow> go_error + reference) \<Rightarrow> string \<Rightarrow> 'w \<Rightarrow> go_error + reference"
where
  "load_reference read_file unmarshal path w =
     (case read_file path w of
        Inl e \<Rightarrow> Inl e
      | Inr b \<Rightarrow>
          (case unmarshal b of
             Inl e \<Rightarrow> Inl (ErrFmt [Lit (''parse '' @ path @ '': ''), Wrapped e])
           | Inr r \<Rightarrow> Inr r))"

definition save_reference ::
    "(string \<Rightarrow> string \<Rightarrow> 'w \<Rightarrow> go_error option \<times> 'w) \<Rightarrow> (reference \<Rightarrow> go_error + string) \<Rightarrow> string \<Rightarrow> reference \<Rightarrow> 'w \<Rightarrow>
     go_error option \<times> 'w"
where
  "save_reference write_file marshal path r w =
     (case marshal r of
        Inl e \<Rightarrow> (Some e, w)
      | Inr b \<Rightarrow> write_file path (b @ [CHR 0x0a]) w)"

definition parse_raw :: "(string \<Rightarrow> go_error + (string \<times> json) list) \<Rightarrow> string \<Rightarrow> go_error + (string \<times> json) list" where
  "parse_raw unmarshal body =
     (case unmarshal body of
        Inl e \<Rightarrow> Inl (ErrFmt [Lit ''parse echo response: '', Wrapped e])
      | Inr raw \<Rightarrow> Inr raw)"

definition md5_hex :: "(string \<Rightarrow> string) \<Rightarrow> string \<Rightarrow> string" where
  "md5_hex md5 s = hex_encode (md5 s)"

subsection \<open>Facts\<close>

lemma equal_string_slices_iff: "equal_string_slices a b \<longleftrightarrow> a = b"
  by (induction a b rule: equal_string_slices.induct) auto

lemma check_source_None_iff: "check_source m a b = None \<longleftrightarrow> a = [] \<or> b = [] \<or> a = b"
  by (simp add: check_source_def)

lemma metric_diff_Nil_iff:
  "metric_diff m f a b v w = [] \<longleftrightarrow> (a = [] \<or> b = [] \<or> a = b) \<and> v = w"
  by (auto simp: metric_diff_def check_source_def)

lemma value_diff_Nil_iff: "value_diff f v w = [] \<longleftrightarrow> v = [] \<or> v = w"
  by (auto simp: value_diff_def)

text \<open>Agreement of one metric, written out.\<close>

definition metric_agrees :: "string \<Rightarrow> string \<Rightarrow> string \<Rightarrow> string \<Rightarrow> bool" where
  "metric_agrees ref_src obs_src v w \<longleftrightarrow> (ref_src = [] \<or> obs_src = [] \<or> ref_src = obs_src) \<and> v = w"

definition headers_agree :: "observed \<Rightarrow> reference \<Rightarrow> bool" where
  "headers_agree ob r \<longleftrightarrow>
     metric_agrees (src_headers (rf_sources r)) (src_headers (ob_sources ob)) [] [] \<and>
     ob_header_order ob = rf_header_order r \<and>
     (note_excludes r ''sec-ch-ua'' \<or> rf_sec_ch_ua r = [] \<or>
        normalize_sec_ch_ua (ob_sec_ch_ua ob) = normalize_sec_ch_ua (rf_sec_ch_ua r)) \<and>
     list_all (\<lambda>(v, w). v = [] \<or> v = w)
       [(rf_sec_ch_ua_mobile r, ob_sec_ch_ua_mobile ob), (rf_sec_ch_ua_platform r, ob_sec_ch_ua_platform ob),
        (rf_accept r, ob_accept ob), (rf_accept_language r, ob_accept_language ob),
        (rf_accept_encoding r, ob_accept_encoding ob)]"

lemma header_diffs_Nil_iff:
  "fst (header_diffs ob r) = [] \<longleftrightarrow>
     (src_headers (rf_sources r) = [] \<and> src_headers (ob_sources ob) = []) \<or> headers_agree ob r"
  by (auto simp: header_diffs_def headers_agree_def metric_agrees_def check_source_def value_diff_Nil_iff
      equal_string_slices_iff split: option.split if_splits)

text \<open>C30: the oracle's verdict, exactly. A comparison reports no difference if and only if every metric agrees,
  where the order-insensitive hashes and peetprint count only if the reference has them, headers
  only if one side has a source for them, and the header values and the User-Agent only if the
  reference holds one and no note excludes it. And a metric whose two sources are both known and
  differ is reported as that, whatever its values are.\<close>

theorem comparison_is_exact:
  "(fst (compare_observed ob r) = [] \<longleftrightarrow>
      metric_agrees (src_ja3 (rf_sources r)) (src_ja3 (ob_sources ob)) (tf_ja3_hash (rf_tls r)) (tf_ja3_hash (ob_tls ob)) \<and>
      (tf_ja3n_hash (rf_tls r) = [] \<and> src_ja3n (rf_sources r) = [] \<or>
       metric_agrees (src_ja3n (rf_sources r)) (src_ja3n (ob_sources ob)) (tf_ja3n_hash (rf_tls r)) (tf_ja3n_hash (ob_tls ob))) \<and>
      metric_agrees (src_ja4 (rf_sources r)) (src_ja4 (ob_sources ob)) (tf_ja4 (rf_tls r)) (tf_ja4 (ob_tls ob)) \<and>
      (tf_ja4o (rf_tls r) = [] \<and> src_ja4o (rf_sources r) = [] \<or>
       metric_agrees (src_ja4o (rf_sources r)) (src_ja4o (ob_sources ob)) (tf_ja4o (rf_tls r)) (tf_ja4o (ob_tls ob))) \<and>
      (tf_peetprint_hash (rf_tls r) = [] \<and> src_peetprint (rf_sources r) = [] \<or>
       metric_agrees (src_peetprint (rf_sources r)) (src_peetprint (ob_sources ob))
         (tf_peetprint_hash (rf_tls r)) (tf_peetprint_hash (ob_tls ob))) \<and>
      metric_agrees (src_http2 (rf_sources r)) (src_http2 (ob_sources ob)) (rf_http2 r) (ob_http2 ob) \<and>
      (src_headers (rf_sources r) = [] \<and> src_headers (ob_sources ob) = [] \<or> headers_agree ob r) \<and>
      (note_excludes r ''user-agent'' \<or> rf_user_agent r = [] \<or> rf_user_agent r = ob_user_agent ob)) \<and>
   (check_source m a b = None \<or> metric_diff m f a b v w = metric_diff m f a b v' w')"
proof (intro conjI)
  have opt: "(if A then xs else []) = [] \<longleftrightarrow> (\<not> A \<or> xs = [])" "(if A then [] else xs) = [] \<longleftrightarrow> (A \<or> xs = [])"
    for A and xs :: "field_diff list" by auto
  show "fst (compare_observed ob r) = [] \<longleftrightarrow>
      metric_agrees (src_ja3 (rf_sources r)) (src_ja3 (ob_sources ob)) (tf_ja3_hash (rf_tls r)) (tf_ja3_hash (ob_tls ob)) \<and>
      (tf_ja3n_hash (rf_tls r) = [] \<and> src_ja3n (rf_sources r) = [] \<or>
       metric_agrees (src_ja3n (rf_sources r)) (src_ja3n (ob_sources ob)) (tf_ja3n_hash (rf_tls r)) (tf_ja3n_hash (ob_tls ob))) \<and>
      metric_agrees (src_ja4 (rf_sources r)) (src_ja4 (ob_sources ob)) (tf_ja4 (rf_tls r)) (tf_ja4 (ob_tls ob)) \<and>
      (tf_ja4o (rf_tls r) = [] \<and> src_ja4o (rf_sources r) = [] \<or>
       metric_agrees (src_ja4o (rf_sources r)) (src_ja4o (ob_sources ob)) (tf_ja4o (rf_tls r)) (tf_ja4o (ob_tls ob))) \<and>
      (tf_peetprint_hash (rf_tls r) = [] \<and> src_peetprint (rf_sources r) = [] \<or>
       metric_agrees (src_peetprint (rf_sources r)) (src_peetprint (ob_sources ob))
         (tf_peetprint_hash (rf_tls r)) (tf_peetprint_hash (ob_tls ob))) \<and>
      metric_agrees (src_http2 (rf_sources r)) (src_http2 (ob_sources ob)) (rf_http2 r) (ob_http2 ob) \<and>
      (src_headers (rf_sources r) = [] \<and> src_headers (ob_sources ob) = [] \<or> headers_agree ob r) \<and>
      (note_excludes r ''user-agent'' \<or> rf_user_agent r = [] \<or> rf_user_agent r = ob_user_agent ob)"
    unfolding header_diffs_Nil_iff [symmetric] metric_agrees_def
    by (simp add: compare_observed_def Let_def case_prod_beta opt metric_diff_Nil_iff value_diff_Nil_iff)
  show "check_source m a b = None \<or> metric_diff m f a b v w = metric_diff m f a b v' w'"
    by (cases "check_source m a b") (simp_all add: metric_diff_def)
qed

end
