(* ===== verification/Fingerprint_Capture.thy ===== *)
theory Fingerprint_Capture
  imports Fingerprint Profile_Coherence
begin

text \<open>
  The capture tool (\<^verbatim>\<open>src/cmd/fingerprint-capture/main.go\<close>): it finds and unpacks a build of
  Chrome, runs it against the two echo services and writes the reference. The operating system, the
  network, the zip reader and the JSON decoder are parameters acting on a world; progress messages
  and the flags of the command line are left out. The facts: unpacking never leaves its directory, the
  version chosen is one of the major asked for, and what the tool wrote accepts the browser it was
  taken from.
\<close>

record zip_entry =
  ze_name :: string
  ze_is_dir :: bool
  ze_content :: "go_error + string \<times> go_error option"

record chrome_download =
  dl_platform :: string
  dl_url :: string

record chrome_version =
  cv_version :: string
  cv_chrome :: "chrome_download list"

record 'w tool_env =
  te_goarch :: string
  te_home :: "go_error + string"
  te_temp_dir :: string
  te_mkdir_all :: "string \<Rightarrow> 'w \<Rightarrow> go_error option \<times> 'w"
  te_stat :: "string \<Rightarrow> 'w \<Rightarrow> go_error option"
  te_get :: "string \<Rightarrow> 'w \<Rightarrow> (go_error + int \<times> string \<times> go_error option) \<times> 'w"
  te_create :: "string \<Rightarrow> 'w \<Rightarrow> go_error option \<times> 'w"
  te_write :: "string \<Rightarrow> string \<Rightarrow> 'w \<Rightarrow> go_error option \<times> 'w"
  te_remove :: "string \<Rightarrow> 'w \<Rightarrow> 'w"
  te_zip :: "string \<Rightarrow> 'w \<Rightarrow> go_error + zip_entry list"
  te_run :: "string \<Rightarrow> string list \<Rightarrow> string option \<Rightarrow> 'w \<Rightarrow> (string \<times> go_error option) \<times> 'w"
  te_versions :: "string \<Rightarrow> go_error option \<Rightarrow> go_error + chrome_version list"
  te_json :: "string \<Rightarrow> go_error + (string \<times> json) list"
  te_marshal :: "reference \<Rightarrow> go_error + string"
  te_write_file :: "string \<Rightarrow> string \<Rightarrow> 'w \<Rightarrow> go_error option \<times> 'w"
  te_now :: "'w \<Rightarrow> time \<times> 'w"

definition versions_json :: string where
  "versions_json =
     ''https://googlechromelabs.github.io/chrome-for-testing/known-good-versions-with-downloads.json''"

definition default_cache_dir :: "'w tool_env \<Rightarrow> string" where
  "default_cache_dir env =
     (case te_home env of
        Inr home \<Rightarrow> path_join [home, ''tmp'', ''go-stealth-fingerprint-cache'']
      | Inl e \<Rightarrow> path_join [te_temp_dir env, ''go-stealth-fingerprint-cache''])"

subsection \<open>Getting the browser\<close>

definition fmt_err :: "string \<Rightarrow> go_error \<Rightarrow> go_error" where
  "fmt_err s e = ErrFmt [Lit s, Wrapped e]"

text \<open>The last version of the major, and the first download for linux64 of an entry of that version.\<close>

definition latest_of_major :: "string \<Rightarrow> chrome_version list \<Rightarrow> string" where
  "latest_of_major major vs =
     fold (\<lambda>v found. if has_prefix (cv_version v) (major @ ''.'') then cv_version v else found) vs []"

definition linux64_url :: "string \<Rightarrow> chrome_version list \<Rightarrow> string option" where
  "linux64_url found vs =
     map_option dl_url (find (\<lambda>d. dl_platform d = ''linux64'')
       (concat (map cv_chrome (filter (\<lambda>v. cv_version v = found) vs))))"

definition resolve_version :: "'w tool_env \<Rightarrow> string \<Rightarrow> 'w \<Rightarrow> (go_error + string \<times> string) \<times> 'w" where
  "resolve_version env major w =
     (case te_get env versions_json w of
        (Inl e, w1) \<Rightarrow> (Inl (fmt_err ''fetch versions JSON: '' e), w1)
      | (Inr (status, body, err), w1) \<Rightarrow>
          (case te_versions env body err of
             Inl e \<Rightarrow> (Inl (fmt_err ''decode versions JSON: '' e), w1)
           | Inr vs \<Rightarrow>
               (let found = latest_of_major major vs
                in if found = []
                   then (Inl (ErrText (''no Chrome-for-Testing version found for major '' @ major)), w1)
                   else case linux64_url found vs of
                          Some url \<Rightarrow> (Inr (found, url), w1)
                        | None \<Rightarrow> (Inl (ErrText (''no linux64 download for Chrome-for-Testing '' @ found)), w1))))"

definition download :: "'w tool_env \<Rightarrow> string \<Rightarrow> string \<Rightarrow> 'w \<Rightarrow> go_error option \<times> 'w" where
  "download env url dst w =
     (case te_get env url w of
        (Inl e, w1) \<Rightarrow> (Some e, w1)
      | (Inr (status, body, err), w1) \<Rightarrow>
          (case te_create env dst w1 of
             (Some e, w2) \<Rightarrow> (Some e, w2)
           | (None, w2) \<Rightarrow>
               (case te_write env dst body w2 of
                  (Some e, w3) \<Rightarrow> (Some e, w3)
                | (None, w3) \<Rightarrow> (err, w3))))"

fun unzip_entries :: "'w tool_env \<Rightarrow> string \<Rightarrow> zip_entry list \<Rightarrow> 'w \<Rightarrow> go_error option \<times> 'w" where
  "unzip_entries env dst [] w = (None, w)"
| "unzip_entries env dst (f # fs) w =
     (let path = path_join [dst, ze_name f]
      in if \<not> has_prefix (path_clean path) (path_clean dst @ ''/'')
         then (Some (ErrText (''zip slip: '' @ ze_name f)), w)
         else if ze_is_dir f then unzip_entries env dst fs (snd (te_mkdir_all env path w))
         else case te_mkdir_all env (path_dir path) w of
                (Some e, w1) \<Rightarrow> (Some e, w1)
              | (None, w1) \<Rightarrow>
                  (case te_create env path w1 of
                     (Some e, w2) \<Rightarrow> (Some e, w2)
                   | (None, w2) \<Rightarrow>
                       (case ze_content f of
                          Inl e \<Rightarrow> (Some e, w2)
                        | Inr (data, read_err) \<Rightarrow>
                            (case te_write env path data w2 of
                               (Some e, w3) \<Rightarrow> (Some e, w3)
                             | (None, w3) \<Rightarrow>
                                 (case read_err of Some e \<Rightarrow> (Some e, w3) | None \<Rightarrow> unzip_entries env dst fs w3)))))"

definition unzip_to :: "'w tool_env \<Rightarrow> string \<Rightarrow> string \<Rightarrow> 'w \<Rightarrow> go_error option \<times> 'w" where
  "unzip_to env zip_path dst w =
     (case te_zip env zip_path w of
        Inl e \<Rightarrow> (Some e, w)
      | Inr files \<Rightarrow>
          (case te_mkdir_all env dst w of
             (Some e, w1) \<Rightarrow> (Some e, w1)
           | (None, w1) \<Rightarrow> unzip_entries env dst files w1))"

definition install_dir :: "string \<Rightarrow> string \<Rightarrow> string" where
  "install_dir cache_dir ver = path_join [cache_dir, ''chrome-'' @ ver]"

definition ensure_chrome :: "'w tool_env \<Rightarrow> string \<Rightarrow> string \<Rightarrow> 'w \<Rightarrow> (go_error + string \<times> string) \<times> 'w" where
  "ensure_chrome env major cache_dir w =
     (case te_mkdir_all env cache_dir w of
        (Some e, w1) \<Rightarrow> (Inl e, w1)
      | (None, w1) \<Rightarrow>
          (case resolve_version env major w1 of
             (Inl e, w2) \<Rightarrow> (Inl e, w2)
           | (Inr (ver, url), w2) \<Rightarrow>
               (let dir = install_dir cache_dir ver; bin = path_join [dir, ''chrome-linux64'', ''chrome''];
                    zip_path = path_join [cache_dir, ''chrome-'' @ ver @ ''.zip'']
                in if te_stat env bin w2 = None then (Inr (bin, ver), w2)
                   else case download env url zip_path w2 of
                          (Some e, w3) \<Rightarrow> (Inl e, w3)
                        | (None, w3) \<Rightarrow>
                            (case unzip_to env zip_path dir w3 of
                               (Some e, w4) \<Rightarrow> (Inl e, te_remove env zip_path w4)
                             | (None, w4) \<Rightarrow>
                                 (case te_stat env bin w4 of
                                    Some e \<Rightarrow> (Inl (fmt_err ''chrome binary not found after unzip: '' e), te_remove env zip_path w4)
                                  | None \<Rightarrow> (Inr (bin, ver), te_remove env zip_path w4))))))"

subsection \<open>Capturing\<close>

definition common_flags :: "string list" where
  "common_flags =
     [''--no-sandbox'', ''--disable-gpu'', ''--disable-dev-shm-usage'', ''--no-first-run'', ''--no-default-browser-check'']"

text \<open>The argument vector of the process, whose first entry is the name it is started under.\<close>

definition chrome_argv :: "string \<Rightarrow> string \<Rightarrow> string \<Rightarrow> string list" where
  "chrome_argv bin endpoint mode =
     (if mode = ''headful'' then common_flags @ [''--dump-dom'', endpoint]
      else bin # common_flags @ [''--headless=new'', ''--dump-dom'', endpoint])"

definition capture_with_chrome ::
    "'w tool_env \<Rightarrow> string \<Rightarrow> string \<Rightarrow> string \<Rightarrow> string \<Rightarrow> 'w \<Rightarrow> (go_error + string) \<times> 'w"
where
  "capture_with_chrome env bin endpoint mode display w =
     (if mode = ''headful'' \<and> display = []
      then (Inl (ErrText ''headful mode requires -display (run under Xvfb, e.g. -display :99)''), w)
      else case te_run env bin (chrome_argv bin endpoint mode) (if mode = ''headful'' then Some display else None) w of
             ((out, Some e), w1) \<Rightarrow> (Inl (ErrFmt [Lit ''chrome run: '', Wrapped e, Lit ('' (stderr: '' @ out @ '')'')]), w1)
           | ((out, None), w1) \<Rightarrow> (Inr out, w1))"

definition captured_reference ::
    "string \<Rightarrow> string \<Rightarrow> time \<Rightarrow> string \<Rightarrow> string \<Rightarrow> string \<Rightarrow> observed \<Rightarrow> reference"
where
  "captured_reference version major now endpoint mode arch ob =
     (let r = \<lparr>rf_browser = ''Chrome'', rf_browser_version = version, rf_major = major, rf_capture_time = now,
               rf_endpoint = endpoint, rf_mode = mode, rf_arch = arch, rf_browser_source = ''chrome-for-testing'',
               rf_sources = ob_sources ob, rf_tls = ob_tls ob, rf_http2 = ob_http2 ob,
               rf_header_order = ob_header_order ob, rf_sec_ch_ua = [], rf_sec_ch_ua_mobile = [],
               rf_sec_ch_ua_platform = [], rf_accept = ob_accept ob, rf_accept_language = ob_accept_language ob,
               rf_accept_encoding = ob_accept_encoding ob, rf_user_agent = [], rf_notes = []\<rparr>
      in if mode = ''headless''
         then r\<lparr>rf_notes := [''headless mode excludes user-agent: HeadlessChrome/<ver> != Chrome/<ver>'',
                            ''headless mode excludes sec-ch-ua: brand list uses HeadlessChrome, not Google Chrome'']\<rparr>
         else r\<lparr>rf_sec_ch_ua := ob_sec_ch_ua ob, rf_sec_ch_ua_mobile := ob_sec_ch_ua_mobile ob,
                rf_sec_ch_ua_platform := ob_sec_ch_ua_platform ob, rf_user_agent := ob_user_agent ob\<rparr>)"

text \<open>One service: run the browser, decode, extract.\<close>

definition capture_service ::
    "'w tool_env \<Rightarrow> string \<Rightarrow> string \<Rightarrow> string \<Rightarrow> string \<Rightarrow> string \<Rightarrow> ((string \<times> json) list \<Rightarrow> observed) \<Rightarrow> 'w \<Rightarrow>
     (go_error + observed) \<times> 'w"
where
  "capture_service env name bin endpoint mode display extract w =
     (case capture_with_chrome env bin endpoint mode display w of
        (Inl e, w1) \<Rightarrow> (Inl (fmt_err (name @ '' capture: '') e), w1)
      | (Inr body, w1) \<Rightarrow>
          (case parse_raw (te_json env) body of
             Inl e \<Rightarrow> (Inl (fmt_err (''parse '' @ name @ '' response: '') e), w1)
           | Inr raw \<Rightarrow> (Inr (extract raw), w1)))"

definition no_arm64_build :: go_error where
  "no_arm64_build = ErrText
     (''Chrome-for-Testing has no linux-arm64 build; cannot capture a matching-major reference on aarch64. '' @
      ''Run on an amd64 host, or capture references elsewhere and commit them to testdata/. '' @
      ''Using the box'' @ [CHR 0x27] @ ''s snap Chromium is NOT a substitute: it is Chromium (not Chrome, so its '' @
      ''sec-ch-ua brand list differs) and its major will not match the profile major, so the oracle would report '' @
      ''version drift as if it were a profile bug.'')"

definition run_capture ::
    "'w tool_env \<Rightarrow> string \<Rightarrow> string \<Rightarrow> string \<Rightarrow> string \<Rightarrow> string \<Rightarrow> string \<Rightarrow> string \<Rightarrow> 'w \<Rightarrow> go_error option \<times> 'w"
where
  "run_capture env major peet_url bl_url cache_dir testdata_dir mode display w =
     (if te_goarch env = ''arm64''
      then (Some no_arm64_build, w)
      else case ensure_chrome env major cache_dir w of
        (Inl e, w1) \<Rightarrow> (Some e, w1)
      | (Inr (bin, version), w1) \<Rightarrow>
          (case capture_service env ''peet'' bin peet_url mode display extract_peet w1 of
             (Inl e, w2) \<Rightarrow> (Some e, w2)
           | (Inr peet, w2) \<Rightarrow>
               (case capture_service env ''browserleaks'' bin bl_url mode display extract_browserleaks w2 of
                  (Inl e, w3) \<Rightarrow> (Some e, w3)
                | (Inr bl, w3) \<Rightarrow>
                    (let (now, w4) = te_now env w3;
                         r = captured_reference version major now bl_url mode (te_goarch env) (merge_observed peet bl)
                     in case te_mkdir_all env testdata_dir w4 of
                          (Some e, w5) \<Rightarrow> (Some e, w5)
                        | (None, w5) \<Rightarrow>
                            save_reference (te_write_file env) (te_marshal env) (reference_path testdata_dir major) r w5))))"

subsection \<open>The command\<close>

text \<open>\<open>fs\<close> are the flags that package \<^verbatim>\<open>flag\<close> found on the command line, in their order; of two settings of a
  flag the later one counts. The result is the exit status with the last message on the error output, which
  the reports of progress precede.\<close>

definition flag_value :: "(string \<times> string) list \<Rightarrow> string \<Rightarrow> string \<Rightarrow> string" where
  "flag_value fs name def = (case map_of (rev fs) name of Some v \<Rightarrow> v | None \<Rightarrow> def)"

definition capture_main :: "'w tool_env \<Rightarrow> (string \<times> string) list \<Rightarrow> 'w \<Rightarrow> (int \<times> string) \<times> 'w" where
  "capture_main env fs w =
     (let major = flag_value fs ''major'' [];
          peet = flag_value fs ''peet-endpoint'' peet_endpoint;
          browserleaks = flag_value fs ''browserleaks-endpoint'' browserleaks_endpoint;
          cache_dir = flag_value fs ''cache-dir'' (default_cache_dir env);
          testdata_dir = flag_value fs ''testdata-dir'' ''testdata'';
          mode = flag_value fs ''mode'' ''headless'';
          display = flag_value fs ''display'' []
      in if major = [] then ((2, ''fingerprint-capture: -major is required'' @ [CHR 0x0a]), w)
         else case run_capture env major peet browserleaks cache_dir testdata_dir mode display w of
                (Some e, w1) \<Rightarrow> ((1, ''fingerprint-capture: '' @ err_msg e @ [CHR 0x0a]), w1)
              | (None, w1) \<Rightarrow> ((0, []), w1))"

subsection \<open>Facts\<close>

text \<open>The exit status tells the outcomes apart, and without a major nothing is touched.\<close>

lemma capture_main_status:
  "fst (fst (capture_main env fs w)) = 2 \<longleftrightarrow> flag_value fs ''major'' [] = []"
  "flag_value fs ''major'' [] = [] \<Longrightarrow> snd (capture_main env fs w) = w"
  "te_goarch env = ''arm64'' \<Longrightarrow> flag_value fs ''major'' [] \<noteq> [] \<Longrightarrow> fst (fst (capture_main env fs w)) = 1"
  by (auto simp: capture_main_def run_capture_def Let_def split: prod.split option.split)

lemma latest_of_major_snoc:
  "latest_of_major major (vs @ [v]) =
     (if has_prefix (cv_version v) (major @ ''.'') then cv_version v else latest_of_major major vs)"
  by (simp add: latest_of_major_def)

lemma latest_of_major_cases:
  "latest_of_major major vs = [] \<or>
     has_prefix (latest_of_major major vs) (major @ ''.'') \<and> latest_of_major major vs \<in> cv_version ` set vs"
  by (induction vs rule: rev_induct) (auto simp: latest_of_major_snoc, simp add: latest_of_major_def)

lemma resolve_version_sound:
  assumes "resolve_version env major w = (Inr (ver, url), w')"
  shows "has_prefix ver (major @ ''.'') \<and>
    (\<exists>status body err vs. fst (te_get env versions_json w) = Inr (status, body, err) \<and> te_versions env body err = Inr vs \<and>
       (\<exists>v\<in>set vs. cv_version v = ver \<and> (\<exists>d\<in>set (cv_chrome v). dl_platform d = ''linux64'' \<and> dl_url d = url)))"
proof -
  obtain status body err vs where get: "fst (te_get env versions_json w) = Inr (status, body, err)"
    and vs: "te_versions env body err = Inr vs" "latest_of_major major vs = ver" "ver \<noteq> []" "linux64_url ver vs = Some url"
    using assms
    by (cases "te_get env versions_json w") (auto simp: resolve_version_def Let_def split: sum.splits prod.splits if_splits option.splits)
  have "has_prefix ver (major @ ''.'')" using latest_of_major_cases [of major vs] vs by auto
  moreover have "\<exists>v\<in>set vs. cv_version v = ver \<and> (\<exists>d\<in>set (cv_chrome v). dl_platform d = ''linux64'' \<and> dl_url d = url)"
    using vs(4) by (fastforce simp: linux64_url_def dest!: find_SomeD)
  ultimately show ?thesis using get vs by blast
qed

text \<open>A path below a directory: the directory's components first, and no way back up after them.\<close>

definition inside :: "string \<Rightarrow> string \<Rightarrow> bool" where
  "inside dst p \<longleftrightarrow>
     is_rooted p = is_rooted dst \<and> take (length (clean_components dst)) (clean_components p) = clean_components dst \<and>
     ''..'' \<notin> set (drop (length (clean_components dst)) (clean_components p))"

lemma inside_self: "inside dst dst"
  by (simp add: inside_def)

lemma checked_path_inside:
  assumes "has_prefix (path_clean (path_join [dst, n])) (path_clean dst @ ''/'')"
    and "last (clean_components dst) \<noteq> ''..''"
  shows "inside dst (path_join [dst, n])" "inside dst (path_dir (path_join [dst, n]))"
proof -
  let ?p = "path_join [dst, n]" and ?cs = "clean_components dst"
  let ?r = "is_rooted ?p" and ?ps = "clean_components ?p"
  obtain t where t: "path_clean ?p = path_clean dst @ ''/'' @ t" using assms(1) by (auto simp: has_prefix_iff)
  have "CHR ''/'' \<in> set (path_clean ?p)" unfolding t by simp
  then have "?p \<noteq> []" by auto
  then have p: "?p = path_of ?r ?ps" using path_join_clean [of "[dst, n]"] by (metis path_clean_def)
  have below: "is_rooted dst = ?r" "?cs \<noteq> []" "?ps = ?cs @ split_on ''/'' t"
    using below_components [OF clean_components_normal clean_components_normal, of ?p dst t] t
    by (simp_all add: path_clean_def)
  define us where "us = butlast (split_on ''/'' t)"
  have ps: "?ps = (?cs @ us) @ [last (split_on ''/'' t)]" using below(3) by (simp add: us_def)
  have normal: "normal_components ?r ((?cs @ us) @ [last (split_on ''/'' t)])"
    using clean_components_normal [of ?p] unfolding ps .
  have up: "''..'' \<notin> set (split_on ''/'' t)"
    using below_no_dotdot [of ?r ?cs "split_on ''/'' t"] clean_components_normal [of ?p] below assms(2) by simp
  then show "inside dst ?p" using below by (simp add: inside_def)
  have "path_dir ?p = path_of ?r (?cs @ us)"
    using path_dir_path_of [OF normal] p unfolding ps by metis
  then have "is_rooted (path_dir ?p) = ?r" "clean_components (path_dir ?p) = ?cs @ us"
    using normal_butlast [OF normal] rooted_path_of components_path_of by metis+
  moreover have "''..'' \<notin> set us" using up by (auto simp: us_def dest: in_set_butlastD)
  ultimately show "inside dst (path_dir ?p)" using below(1) by (simp add: inside_def)
qed

text \<open>Two environments that do the same inside a directory.\<close>

definition same_inside :: "string \<Rightarrow> 'w tool_env \<Rightarrow> 'w tool_env \<Rightarrow> bool" where
  "same_inside dst env env' \<longleftrightarrow>
     te_zip env = te_zip env' \<and>
     (\<forall>p w. inside dst p \<longrightarrow>
        te_mkdir_all env p w = te_mkdir_all env' p w \<and> te_create env p w = te_create env' p w \<and>
        te_write env p = te_write env' p)"

lemma unzip_entries_inside:
  assumes "same_inside dst env env'" "last (clean_components dst) \<noteq> ''..''"
  shows "unzip_entries env dst fs w = unzip_entries env' dst fs w"
proof (induction fs arbitrary: w)
  case (Cons f fs)
  let ?p = "path_join [dst, ze_name f]"
  show ?case
  proof (cases "has_prefix (path_clean ?p) (path_clean dst @ ''/'')")
    case True
    have "te_mkdir_all env ?p v = te_mkdir_all env' ?p v" "te_create env ?p v = te_create env' ?p v"
      "te_write env ?p = te_write env' ?p" "te_mkdir_all env (path_dir ?p) v = te_mkdir_all env' (path_dir ?p) v" for v
      using checked_path_inside [OF True assms(2)] assms(1) by (simp_all add: same_inside_def)
    then show ?thesis using Cons.IH by (simp add: Let_def split: prod.split option.split sum.split)
  qed simp
qed simp

text \<open>C28: unpacking an archive stays inside its directory, whatever the names of the entries. For a
  directory whose cleaned path does not end in a double dot, two operating systems that behave
  alike inside the directory, and as they like elsewhere, see the same run of unzipTo with the same
  result: nothing outside is made, opened or written. (The directory the tool unpacks to ends in a
  name that starts with \<^verbatim>\<open>chrome-\<close>.)\<close>

theorem unzip_stays_inside:
  assumes "same_inside dst env env'" "last (clean_components dst) \<noteq> ''..''"
  shows "unzip_to env zip_path dst w = unzip_to env' zip_path dst w"
proof -
  have "te_zip env = te_zip env'" "te_mkdir_all env dst w = te_mkdir_all env' dst w"
    using assms(1) inside_self by (simp_all add: same_inside_def)
  then show ?thesis
    using unzip_entries_inside [OF assms] by (simp add: unzip_to_def split: sum.split prod.split option.split)
qed

text \<open>An operating system for the witness: its world is the list of paths that were made or opened.\<close>

definition demo_tool :: "zip_entry list \<Rightarrow> string list tool_env" where
  "demo_tool files =
     \<lparr>te_goarch = ''amd64'', te_home = Inr ''/home/u'', te_temp_dir = ''/tmp'',
      te_mkdir_all = (\<lambda>p w. (None, p # w)), te_stat = (\<lambda>p w. Some ErrCanceled),
      te_get = (\<lambda>u w. (Inl ErrCanceled, w)), te_create = (\<lambda>p w. (None, p # w)),
      te_write = (\<lambda>p b w. (None, w)), te_remove = (\<lambda>p w. w), te_zip = (\<lambda>p w. Inr files),
      te_run = (\<lambda>b a d w. (([], None), w)), te_versions = (\<lambda>s err. Inl ErrCanceled), te_json = (\<lambda>s. Inr []),
      te_marshal = (\<lambda>r. Inr []), te_write_file = (\<lambda>p b w. (None, w)), te_now = (\<lambda>w. (0, w))\<rparr>"

definition evil_entry :: zip_entry where
  "evil_entry = \<lparr>ze_name = ''../x'', ze_is_dir = False, ze_content = Inr ([], None)\<rparr>"

theorem unzip_stays_inside_witness:
  "unzip_to (demo_tool [evil_entry]) ''z'' ''/c/chrome-1'' [] =
   unzip_to ((demo_tool [evil_entry])\<lparr>te_create := (\<lambda>p w. if inside ''/c/chrome-1'' p then (None, p # w) else (None, []))\<rparr>)
     ''z'' ''/c/chrome-1'' []"
proof (rule unzip_stays_inside)
  show "same_inside ''/c/chrome-1'' (demo_tool [evil_entry])
     ((demo_tool [evil_entry])\<lparr>te_create := (\<lambda>p w. if inside ''/c/chrome-1'' p then (None, p # w) else (None, []))\<rparr>)"
    by (simp add: same_inside_def demo_tool_def)
  show "last (clean_components ''/c/chrome-1'') \<noteq> ''..''" by code_simp
qed

subsection \<open>Capture and compare\<close>

lemma captured_notes:
  "note_excludes (captured_reference version major now endpoint mode arch ob) f \<longleftrightarrow>
     mode = ''headless'' \<and>
     list_ex (\<lambda>n. str_contains n (''excludes '' @ f) \<or> str_contains n (f @ '': excluded''))
       [''headless mode excludes user-agent: HeadlessChrome/<ver> != Chrome/<ver>'',
        ''headless mode excludes sec-ch-ua: brand list uses HeadlessChrome, not Google Chrome'']"
  by (simp add: captured_reference_def note_excludes_def Let_def)

lemma headless_notes:
  "note_excludes (captured_reference version major now endpoint mode arch ob) ''sec-ch-ua'' \<longleftrightarrow> mode = ''headless''"
  "note_excludes (captured_reference version major now endpoint mode arch ob) ''user-agent'' \<longleftrightarrow> mode = ''headless''"
proof -
  have "list_ex (\<lambda>n. str_contains n (''excludes '' @ f) \<or> str_contains n (f @ '': excluded''))
       [''headless mode excludes user-agent: HeadlessChrome/<ver> != Chrome/<ver>'',
        ''headless mode excludes sec-ch-ua: brand list uses HeadlessChrome, not Google Chrome'']"
    if "f = ''sec-ch-ua'' \<or> f = ''user-agent''" for f
    using that by (elim disjE; simp only:; code_simp)
  then show "note_excludes (captured_reference version major now endpoint mode arch ob) ''sec-ch-ua'' \<longleftrightarrow> mode = ''headless''"
    "note_excludes (captured_reference version major now endpoint mode arch ob) ''user-agent'' \<longleftrightarrow> mode = ''headless''"
    unfolding captured_notes by blast+
qed

lemma captured_fields:
  fixes version major now endpoint mode arch ob
  defines "r \<equiv> captured_reference version major now endpoint mode arch ob"
  shows "rf_sources r = ob_sources ob" "rf_tls r = ob_tls ob" "rf_http2 r = ob_http2 ob"
    "rf_header_order r = ob_header_order ob" "rf_accept r = ob_accept ob" "rf_accept_language r = ob_accept_language ob"
    "rf_accept_encoding r = ob_accept_encoding ob"
    "rf_sec_ch_ua r = (if mode = ''headless'' then [] else ob_sec_ch_ua ob)"
    "rf_sec_ch_ua_mobile r = (if mode = ''headless'' then [] else ob_sec_ch_ua_mobile ob)"
    "rf_sec_ch_ua_platform r = (if mode = ''headless'' then [] else ob_sec_ch_ua_platform ob)"
    "rf_user_agent r = (if mode = ''headless'' then [] else ob_user_agent ob)"
  by (simp_all add: r_def captured_reference_def Let_def)

text \<open>C29: a reference accepts the browser it was captured from. For a JSON codec that reads back what it
  wrote, with the newline the tool adds, and a file system that gives back what was written: what the
  tool saves can be loaded, and the comparison of the very observation it was made from, of any two
  answers of the services, reports no difference; it says that it skipped the User-Agent and the
  brand list exactly if the capture was headless.\<close>

theorem reference_accepts_its_browser:
  fixes read_file :: "string \<Rightarrow> 'w \<Rightarrow> go_error + string"
  assumes captured: "r = captured_reference version major now endpoint mode arch (merge_observed (extract_peet p) (extract_browserleaks b))"
    and codec: "marshal r = Inr enc" "unmarshal (enc @ [CHR 0x0a]) = Inr r"
    and files: "\<And>f c v v'. write_file f c v = (None, v') \<Longrightarrow> read_file f v' = Inr c"
    and saved: "save_reference write_file marshal path r w = (None, w')"
  shows "case load_reference read_file unmarshal path w' of
      Inl e \<Rightarrow> False
    | Inr r' \<Rightarrow> compare_observed (merge_observed (extract_peet p) (extract_browserleaks b)) r' =
        ([], if mode = ''headless''
             then [''sec-ch-ua: excluded by reference note (headless mode)'', ''user-agent: excluded by reference note (headless mode)'']
             else [])"
proof -
  define ob where "ob = merge_observed (extract_peet p) (extract_browserleaks b)"
  have r: "r = captured_reference version major now endpoint mode arch ob" by (simp add: captured ob_def)
  have "write_file path (enc @ [CHR 0x0a]) w = (None, w')"
    using saved codec(1) by (simp add: save_reference_def)
  then have "load_reference read_file unmarshal path w' = Inr r"
    using files codec(2) by (simp add: load_reference_def)
  moreover have "src_headers (ob_sources ob) \<noteq> []"
    by (simp add: ob_def merge_observed_def extract_peet_def Let_def service_peet_def)
  then have "compare_observed ob r = ([], if mode = ''headless''
             then [''sec-ch-ua: excluded by reference note (headless mode)'', ''user-agent: excluded by reference note (headless mode)'']
             else [])"
    by (simp add: compare_observed_def header_diffs_def Let_def r captured_fields headless_notes
        metric_diff_def check_source_def value_diff_def equal_string_slices_iff)
  ultimately show ?thesis by (simp add: ob_def)
qed

definition demo_reference :: reference where
  "demo_reference = captured_reference ''146.0.1'' ''146'' 0 ''e'' ''headless'' ''amd64''
     (merge_observed (extract_peet []) (extract_browserleaks []))"

theorem reference_accepts_its_browser_witness:
  "compare_observed (merge_observed (extract_peet []) (extract_browserleaks [])) demo_reference =
     ([], [''sec-ch-ua: excluded by reference note (headless mode)'', ''user-agent: excluded by reference note (headless mode)''])"
  using reference_accepts_its_browser [where marshal = "\<lambda>r. Inr ''r''" and unmarshal = "\<lambda>s. Inr demo_reference" and
      enc = "''r''" and write_file = "\<lambda>f c (m :: string \<Rightarrow> string option). (None, m(f \<mapsto> c))" and
      read_file = "\<lambda>f m. case m f of Some c \<Rightarrow> Inr c | None \<Rightarrow> Inl ErrCanceled" and path = "''p''" and
      w = "\<lambda>f. None" and w' = "[''p'' \<mapsto> ''r'' @ [CHR 0x0a]]" and version = "''146.0.1''" and major = "''146''" and now = 0 and r = demo_reference and
      endpoint = "''e''" and mode = "''headless''" and arch = "''amd64''" and p = "[]" and b = "[]"]
  by (auto simp: save_reference_def load_reference_def demo_reference_def)

subsection \<open>Deviations\<close>

text \<open>In headful mode the argument vector is replaced without the program's name in front, so the first flag
  becomes the name and is no longer passed as a flag.\<close>

lemma headful_loses_no_sandbox:
  assumes "endpoint \<noteq> ''--no-sandbox''"
  shows "''--no-sandbox'' \<notin> set (tl (chrome_argv bin endpoint ''headful'')) \<and>
    ''--no-sandbox'' \<in> set (tl (chrome_argv bin endpoint ''headless''))"
  using assms by (simp add: chrome_argv_def common_flags_def)

text \<open>Any other mode runs headless, but its reference records the brand list and the User-Agent as
  comparable.\<close>

lemma other_modes_run_headless:
  assumes "mode \<noteq> ''headless''" "mode \<noteq> ''headful''"
  shows "''--headless=new'' \<in> set (chrome_argv bin endpoint mode) \<and>
    rf_user_agent (captured_reference version major now url mode arch ob) = ob_user_agent ob \<and>
    rf_notes (captured_reference version major now url mode arch ob) = []"
  using assms by (simp add: chrome_argv_def captured_reference_def Let_def)

text \<open>A binary that is there is used, however it came there: an unpacking that failed after it wrote the
  binary is taken for a complete installation by the next run.\<close>

lemma present_binary_is_trusted:
  assumes "te_mkdir_all env cache_dir w = (None, w1)" "resolve_version env major w1 = (Inr (ver, url), w2)"
    "te_stat env (path_join [install_dir cache_dir ver, ''chrome-linux64'', ''chrome'']) w2 = None"
  shows "ensure_chrome env major cache_dir w =
    (Inr (path_join [install_dir cache_dir ver, ''chrome-linux64'', ''chrome''], ver), w2)"
  using assms by (simp add: ensure_chrome_def Let_def)

end
