(* ===== verification/Webshare.thy ===== *)
theory Webshare
  imports Proxy_Pool Go_Errors
begin

text \<open>
  The Webshare pool (\<^verbatim>\<open>src/proxypool/webshare.go\<close>, \<^verbatim>\<open>webshare_country.go\<close>,
  \<^verbatim>\<open>webshare_fetch.go\<close>, \<^verbatim>\<open>webshare_refresh.go\<close>): its configuration, the pages of the API,
  the URLs made from them, and the pool with its refresh. The HTTP client, with the request builder
  and the JSON decoder, is a parameter acting on a world \<open>'w\<close>; the fetch function a pool keeps is a
  function on that world. Each clock reading is an argument. The goroutines are steps: a report may
  start a refresh, which is in flight until its own step, and periodic refreshes come at any time.
  The logger and the pacing library's sleep are left out.
\<close>

subsection \<open>Configuration\<close>

datatype webshare_mode = ModeBackbone | ModeRotating | ModeDirect

record webshare_config =
  wc_countries :: "string list"
  wc_mode :: webshare_mode
  wc_page_size :: int
  wc_base_url :: string
  wc_refresh_interval :: duration
  wc_refresh_min_gap :: duration

definition zero_webshare_config :: webshare_config where
  "zero_webshare_config =
     \<lparr>wc_countries = [], wc_mode = ModeBackbone, wc_page_size = 0, wc_base_url = [], wc_refresh_interval = 0,
      wc_refresh_min_gap = 0\<rparr>"

definition webshare_default_base :: string where
  "webshare_default_base = ''https://proxy.webshare.io/api/v2/proxy/list/''"

definition webshare_default_host :: string where
  "webshare_default_host = ''p.webshare.io''"

definition webshare_max_pages :: nat where
  "webshare_max_pages = 50"

definition default_refresh_interval :: duration where
  "default_refresh_interval = 15 * minute"

definition default_refresh_min_gap :: duration where
  "default_refresh_min_gap = minute"

definition is_iso_country :: "string \<Rightarrow> bool" where
  "is_iso_country s \<longleftrightarrow> length s = 2 \<and> list_all (\<lambda>c. let n = (of_char c :: nat) in 65 \<le> n \<and> n \<le> 90) s"

text \<open>The loop keeps what it has seen in the order of the result.\<close>

fun validate_loop :: "string list \<Rightarrow> string list \<Rightarrow> go_error + string list" where
  "validate_loop seen [] = Inr seen"
| "validate_loop seen (cc # ccs) =
     (if \<not> is_iso_country cc
      then Inl (ErrText (''proxy: invalid country code '' @ quoted cc @ '', expected ISO-2''))
      else if cc \<in> set seen then validate_loop seen ccs else validate_loop (seen @ [cc]) ccs)"

definition validate_and_dedup :: "string list \<Rightarrow> go_error + string list" where
  "validate_and_dedup ccs = validate_loop [] ccs"

definition apply_config_defaults :: "webshare_config \<Rightarrow> go_error + webshare_config" where
  "apply_config_defaults cfg =
     (case (if wc_countries cfg = [] then Inr [''US''] else validate_and_dedup (wc_countries cfg)) of
        Inl e \<Rightarrow> Inl e
      | Inr ccs \<Rightarrow>
          Inr (cfg\<lparr>wc_countries := ccs,
                   wc_page_size := (if wc_page_size cfg \<le> 0 then 100 else wc_page_size cfg),
                   wc_refresh_interval :=
                     (if wc_refresh_interval cfg = 0 then default_refresh_interval else wc_refresh_interval cfg),
                   wc_refresh_min_gap :=
                     (if wc_refresh_min_gap cfg \<le> 0 then default_refresh_min_gap else wc_refresh_min_gap cfg)\<rparr>))"

definition build_base_url :: "string \<Rightarrow> string" where
  "build_base_url override = (if override \<noteq> [] then override else webshare_default_base)"

definition build_api_url :: "webshare_config \<Rightarrow> string" where
  "build_api_url cfg =
     build_base_url (wc_base_url cfg) @ ''?mode='' @ (if wc_mode cfg = ModeDirect then ''direct'' else ''backbone'') @
     ''&page_size='' @ int_str (wc_page_size cfg) @
     (if wc_countries cfg \<noteq> [] then ''&country_code__in='' @ join '','' (wc_countries cfg) else [])"

definition mode_string :: "webshare_mode \<Rightarrow> string" where
  "mode_string m = (case m of ModeRotating \<Rightarrow> ''rotating'' | ModeDirect \<Rightarrow> ''direct'' | ModeBackbone \<Rightarrow> ''backbone'')"

subsection \<open>The API\<close>

record webshare_proxy =
  wx_address :: string
  wx_port :: int
  wx_username :: string
  wx_password :: string

record webshare_response =
  wz_results :: "webshare_proxy list"
  wz_next :: "string option"

text \<open>\<open>wn_do\<close> sends a GET with the given Authorization header and gives the status and the body.\<close>

record 'w webshare_net =
  wn_new_request :: "string \<Rightarrow> go_error option"
  wn_do :: "string \<Rightarrow> string \<Rightarrow> 'w \<Rightarrow> (go_error + int \<times> string) \<times> 'w"
  wn_decode :: "string \<Rightarrow> go_error + webshare_response"

definition error_body_limit :: nat where
  "error_body_limit = 64 * 2 ^ 10"

definition wrapped :: "string \<Rightarrow> go_error \<Rightarrow> go_error" where
  "wrapped s e = ErrFmt [Lit s, Wrapped e]"

definition fetch_page_with_next ::
    "'w webshare_net \<Rightarrow> string \<Rightarrow> string \<Rightarrow> 'w \<Rightarrow> (go_error + webshare_proxy list \<times> string) \<times> 'w"
where
  "fetch_page_with_next net url key w =
     (case wn_new_request net url of
        Some e \<Rightarrow> (Inl (wrapped ''proxy: build request: '' e), w)
      | None \<Rightarrow>
          (case wn_do net url (''Token '' @ key) w of
             (Inl e, w1) \<Rightarrow> (Inl (wrapped ''proxy: fetch list: '' e), w1)
           | (Inr (status, body), w1) \<Rightarrow>
               if status \<noteq> 200
               then (Inl (ErrText (''proxy: webshare API returned '' @ int_str status @ '': '' @ take error_body_limit body)), w1)
               else case wn_decode net body of
                      Inl e \<Rightarrow> (Inl (wrapped ''proxy: decode response: '' e), w1)
                    | Inr r \<Rightarrow> (Inr (wz_results r, case wz_next r of None \<Rightarrow> [] | Some n \<Rightarrow> n), w1)))"

definition fetch_page :: "'w webshare_net \<Rightarrow> string \<Rightarrow> string \<Rightarrow> 'w \<Rightarrow> (go_error + webshare_proxy list) \<times> 'w" where
  "fetch_page net url key w = (let (r, w1) = fetch_page_with_next net url key w in (map_sum id fst r, w1))"

text \<open>The loop over the pages; the first argument is the number of turns left.\<close>

fun fetch_pages ::
    "nat \<Rightarrow> 'w webshare_net \<Rightarrow> string \<Rightarrow> string \<Rightarrow> webshare_proxy list \<Rightarrow> 'w \<Rightarrow> (go_error + webshare_proxy list) \<times> 'w"
where
  "fetch_pages 0 net url key acc w = (Inr acc, w)"
| "fetch_pages (Suc n) net url key acc w =
     (case fetch_page_with_next net url key w of
        (Inl e, w1) \<Rightarrow> (Inl e, w1)
      | (Inr (page, next_url), w1) \<Rightarrow>
          if next_url = [] then (Inr (acc @ page), w1) else fetch_pages n net next_url key (acc @ page) w1)"

definition fetch_all_proxies ::
    "'w webshare_net \<Rightarrow> string \<Rightarrow> webshare_config \<Rightarrow> 'w \<Rightarrow> (go_error + webshare_proxy list) \<times> 'w"
where
  "fetch_all_proxies net key cfg w =
     (case fetch_pages webshare_max_pages net (build_api_url cfg) key [] w of
        (Inl e, w1) \<Rightarrow> (Inl e, w1)
      | (Inr ps, w1) \<Rightarrow>
          if ps = [] then (Inl (ErrText ''proxy: webshare returned 0 proxies''), w1) else (Inr ps, w1))"

subsection \<open>Proxy URLs\<close>

definition proxy_url :: "string \<Rightarrow> string \<Rightarrow> string \<Rightarrow> int \<Rightarrow> string" where
  "proxy_url user password host port =
     ''http://'' @ user @ '':'' @ password @ ''@'' @ host @ '':'' @ int_str port"

definition proxy_host :: "webshare_proxy \<Rightarrow> string" where
  "proxy_host p = (if wx_address p = [] then webshare_default_host else wx_address p)"

definition country_suffix :: "webshare_mode \<Rightarrow> string \<Rightarrow> string" where
  "country_suffix mode cc = (if mode = ModeRotating then ''-'' @ cc @ ''-rotate'' else ''-'' @ cc)"

definition inject_country_modifiers :: "webshare_proxy list \<Rightarrow> string list \<Rightarrow> webshare_mode \<Rightarrow> string list" where
  "inject_country_modifiers proxies countries mode =
     concat (map (\<lambda>p. map (\<lambda>cc. proxy_url (wx_username p @ country_suffix mode cc) (wx_password p) (proxy_host p) (wx_port p))
                        countries) proxies)"

definition rotating_urls :: "string \<Rightarrow> string \<Rightarrow> string list \<Rightarrow> string list" where
  "rotating_urls username password countries =
     map (\<lambda>c. ''http://'' @ username @ ''-'' @ c @ ''-rotate:'' @ password @ ''@'' @ webshare_default_host @ '':80'') countries"

subsection \<open>The pool\<close>

record 'w webshare =
  ws_proxies :: "string list"
  ws_counter :: "64 word"
  ws_fetch :: "('w \<Rightarrow> (go_error + string list) \<times> 'w) option"
  ws_interval :: duration
  ws_min_gap :: duration
  ws_last_trigger :: time
  ws_closed :: bool
  ws_auth_failures :: "64 word"
  ws_refresh_ok :: "64 word"
  ws_refresh_errs :: "64 word"
  ws_last_refresh :: int
  ws_stop :: bool

definition new_webshare_pool :: "string list \<Rightarrow> 'w webshare" where
  "new_webshare_pool urls =
     \<lparr>ws_proxies = urls, ws_counter = 0, ws_fetch = None, ws_interval = 0, ws_min_gap = 0, ws_last_trigger = zero_time,
      ws_closed = False, ws_auth_failures = 0, ws_refresh_ok = 0, ws_refresh_errs = 0, ws_last_refresh = 0,
      ws_stop = False\<rparr>"

definition set_proxies :: "string list \<Rightarrow> 'w webshare \<Rightarrow> 'w webshare" where
  "set_proxies urls p = p\<lparr>ws_proxies := urls\<rparr>"

definition webshare_next :: "'w webshare \<Rightarrow> string \<times> 'w webshare" where
  "webshare_next p =
     (if ws_proxies p = [] then ([], p)
      else let c = ws_counter p + 1
           in (ws_proxies p ! unat (c mod word_of_nat (length (ws_proxies p))), p\<lparr>ws_counter := c\<rparr>))"

definition webshare_len :: "'w webshare \<Rightarrow> nat" where
  "webshare_len p = length (ws_proxies p)"

definition webshare_transport_proxy :: "(string \<Rightarrow> 'u) \<Rightarrow> 'w webshare \<Rightarrow> 'u \<times> 'w webshare" where
  "webshare_transport_proxy parse p = (let (u, p') = webshare_next p in (parse u, p'))"

definition enable_refresh :: "webshare_config \<Rightarrow> ('w \<Rightarrow> (go_error + string list) \<times> 'w) \<Rightarrow> 'w webshare \<Rightarrow> 'w webshare" where
  "enable_refresh cfg fetch p =
     p\<lparr>ws_fetch := Some fetch, ws_interval := wc_refresh_interval cfg, ws_min_gap := wc_refresh_min_gap cfg, ws_stop := True\<rparr>"

text \<open>The bounds of the pause between periodic refreshes.\<close>

definition refresh_pause :: "duration \<Rightarrow> duration \<times> duration" where
  "refresh_pause interval =
     (let spread = max (interval div 4) millisecond in (interval - spread, interval + spread))"

text \<open>One refresh; \<open>now\<close> is the clock in nanoseconds of the Unix epoch after a successful fetch.\<close>

definition webshare_refresh :: "int \<Rightarrow> 'w webshare \<Rightarrow> 'w \<Rightarrow> 'w webshare \<times> 'w" where
  "webshare_refresh now p w =
     (case ws_fetch p of
        None \<Rightarrow> (p, w)
      | Some fetch \<Rightarrow>
          (case fetch w of
             (Inl e, w1) \<Rightarrow> (p\<lparr>ws_refresh_errs := ws_refresh_errs p + 1\<rparr>, w1)
           | (Inr urls, w1) \<Rightarrow>
               (let p1 = set_proxies urls p
                in (p1\<lparr>ws_refresh_ok := ws_refresh_ok p1 + 1, ws_last_refresh := now\<rparr>, w1))))"

text \<open>A report at the time \<open>now\<close> (the second reading of the clock is \<open>now'\<close>), with whether it started a
  refresh.\<close>

definition webshare_report_auth_failure :: "time \<Rightarrow> time \<Rightarrow> 'w webshare \<Rightarrow> bool \<times> 'w webshare" where
  "webshare_report_auth_failure now now' p =
     (let p1 = p\<lparr>ws_auth_failures := ws_auth_failures p + 1\<rparr>
      in if ws_fetch p1 = None then (False, p1)
         else if ws_closed p1 \<or> ws_last_trigger p1 \<noteq> zero_time \<and> time_sub now (ws_last_trigger p1) < ws_min_gap p1
         then (False, p1)
         else (True, p1\<lparr>ws_last_trigger := now'\<rparr>))"

record webshare_stats =
  wt_auth_failures :: "64 word"
  wt_refresh_successes :: "64 word"
  wt_refresh_failures :: "64 word"
  wt_last_refresh :: "int option"
  wt_pool_size :: nat

definition webshare_stats_of :: "'w webshare \<Rightarrow> webshare_stats" where
  "webshare_stats_of p =
     \<lparr>wt_auth_failures = ws_auth_failures p, wt_refresh_successes = ws_refresh_ok p, wt_refresh_failures = ws_refresh_errs p,
      wt_last_refresh = (if ws_last_refresh p \<noteq> 0 then Some (ws_last_refresh p) else None), wt_pool_size = webshare_len p\<rparr>"

text \<open>\<^verbatim>\<open>Close\<close> cancels the context of the fetches, if there is one, and waits for those in flight;
  the flag says whether it cancels.\<close>

definition webshare_close :: "'w webshare \<Rightarrow> bool \<times> 'w webshare" where
  "webshare_close p = (if ws_closed p then (False, p) else (ws_stop p, p\<lparr>ws_closed := True\<rparr>))"

subsection \<open>Construction\<close>

definition webshare_fetch ::
    "'w webshare_net \<Rightarrow> string \<Rightarrow> webshare_config \<Rightarrow> 'w \<Rightarrow> (go_error + string list) \<times> 'w"
where
  "webshare_fetch net key cfg w =
     (let (r, w1) = fetch_all_proxies net key cfg w
      in (map_sum id (\<lambda>ps. inject_country_modifiers ps (wc_countries cfg) (wc_mode cfg)) r, w1))"

definition rotating_fetch ::
    "'w webshare_net \<Rightarrow> string \<Rightarrow> webshare_config \<Rightarrow> 'w \<Rightarrow> (go_error + string list) \<times> 'w"
where
  "rotating_fetch net key cfg w =
     (case fetch_page net (build_base_url (wc_base_url cfg) @ ''?mode=backbone&page_size=1'') key w of
        (Inl e, w1) \<Rightarrow> (Inl e, w1)
      | (Inr [], w1) \<Rightarrow> (Inl (ErrText ''proxy: webshare returned 0 proxies for rotating credentials''), w1)
      | (Inr (p # ps), w1) \<Rightarrow> (Inr (rotating_urls (wx_username p) (wx_password p) (wc_countries cfg)), w1))"

text \<open>The end of both constructors: the first fetch makes the pool.\<close>

definition start_pool ::
    "webshare_config \<Rightarrow> ('w \<Rightarrow> (go_error + string list) \<times> 'w) \<Rightarrow> 'w \<Rightarrow> (go_error + 'w webshare) \<times> 'w"
where
  "start_pool cfg fetch w =
     (let (r, w1) = fetch w in (map_sum id (\<lambda>urls. enable_refresh cfg fetch (new_webshare_pool urls)) r, w1))"

definition build_rotating_from_api ::
    "'w webshare_net \<Rightarrow> string \<Rightarrow> webshare_config \<Rightarrow> 'w \<Rightarrow> (go_error + 'w webshare) \<times> 'w"
where
  "build_rotating_from_api net key cfg w = start_pool cfg (rotating_fetch net key cfg) w"

definition new_webshare_with_config ::
    "'w webshare_net \<Rightarrow> string \<Rightarrow> webshare_config \<Rightarrow> 'w \<Rightarrow> (go_error + 'w webshare) \<times> 'w"
where
  "new_webshare_with_config net key cfg w =
     (if key = [] then (Inl (ErrText ''proxy: empty API key''), w)
      else case apply_config_defaults cfg of
             Inl e \<Rightarrow> (Inl e, w)
           | Inr cfg' \<Rightarrow>
               if wc_mode cfg' = ModeRotating then build_rotating_from_api net key cfg' w
               else start_pool cfg' (webshare_fetch net key cfg') w)"

definition new_webshare :: "'w webshare_net \<Rightarrow> string \<Rightarrow> 'w \<Rightarrow> (go_error + 'w webshare) \<times> 'w" where
  "new_webshare net key w = new_webshare_with_config net key zero_webshare_config w"

definition new_webshare_rotating :: "string \<Rightarrow> string \<Rightarrow> string list \<Rightarrow> go_error + 'w webshare" where
  "new_webshare_rotating username password countries =
     map_sum id (\<lambda>ccs. new_webshare_pool (rotating_urls username password ccs))
       (validate_and_dedup (if countries = [] then [''US''] else countries))"

definition new_webshare_from_url :: "'w webshare_net \<Rightarrow> string \<Rightarrow> string \<Rightarrow> 'w \<Rightarrow> (go_error + 'w webshare) \<times> 'w" where
  "new_webshare_from_url net url key w =
     (if key = [] then (Inl (ErrText ''proxy: empty API key''), w)
      else case fetch_page net url key w of
             (Inl e, w1) \<Rightarrow> (Inl e, w1)
           | (Inr ps, w1) \<Rightarrow>
               if ps = [] then (Inl (ErrText ''proxy: webshare returned 0 proxies''), w1)
               else (Inr (new_webshare_pool
                      (map (\<lambda>p. proxy_url (wx_username p) (wx_password p) (proxy_host p) (wx_port p)) ps)), w1))"

subsection \<open>The pool behind the interface\<close>

definition webshare_ops :: "time \<Rightarrow> time \<Rightarrow> 'w webshare pool_ops" where
  "webshare_ops now now' =
     \<lparr>pp_next = webshare_next, pp_len = webshare_len,
      pp_report_auth = Some (\<lambda>p. snd (webshare_report_auth_failure now now' p))\<rparr>"

lemma webshare_next_proxies [simp]: "ws_proxies (snd (webshare_next p)) = ws_proxies p"
  by (simp add: webshare_next_def Let_def)

interpretation webshare: rotating_pool "webshare_ops now now'" ws_proxies ws_counter
proof
  fix p :: "'a webshare"
  show "pp_len (webshare_ops now now') p = length (ws_proxies p)" by (simp add: webshare_ops_def webshare_len_def)
  show "pp_next (webshare_ops now now') p = ([], p)" if "ws_proxies p = []"
    using that by (simp add: webshare_ops_def webshare_next_def)
  show "ws_proxies (snd (pp_next (webshare_ops now now') p)) = ws_proxies p" by (simp add: webshare_ops_def)
  show "ws_counter (snd (pp_next (webshare_ops now now') p)) = ws_counter p + 1" if "ws_proxies p \<noteq> []"
    using that by (simp add: webshare_ops_def webshare_next_def Let_def)
  show "fst (pp_next (webshare_ops now now') p) = ws_proxies p ! (unat (ws_counter p + 1) mod length (ws_proxies p))"
    if "ws_proxies p \<noteq> []" "length (ws_proxies p) < 2 ^ 64"
    using that by (simp add: webshare_ops_def webshare_next_def Let_def unat_mod_distrib unat_of_nat take_bit_eq_mod)
qed

interpretation webshare_healthy: healthy_client "webshare_ops now now'" ws_proxies ws_counter memory_health_ops
  by unfold_locales

subsection \<open>Countries\<close>

lemma validate_loop_spec:
  "validate_loop seen ccs = Inr xs \<Longrightarrow> distinct seen \<Longrightarrow>
     list_all is_iso_country ccs \<and> distinct xs \<and> set xs = set seen \<union> set ccs \<and> (\<exists>ys. xs = seen @ ys)"
proof (induction seen ccs rule: validate_loop.induct)
  case (2 seen cc ccs)
  have iso: "is_iso_country cc" using 2(3) by (auto split: if_splits)
  show ?case
  proof (cases "cc \<in> set seen")
    case True
    then have "validate_loop seen ccs = Inr xs" using 2(3) iso by simp
    then show ?thesis using 2(1) [OF _ True] 2(4) iso True by auto
  next
    case False
    then have "validate_loop (seen @ [cc]) ccs = Inr xs" using 2(3) iso by simp
    moreover have "distinct (seen @ [cc])" using 2(4) False by simp
    ultimately have "list_all is_iso_country ccs \<and> distinct xs \<and> set xs = set (seen @ [cc]) \<union> set ccs \<and>
        (\<exists>ys. xs = (seen @ [cc]) @ ys)"
      using 2(2) [OF _ False] iso by simp
    then show ?thesis using iso by auto
  qed
qed simp

lemma validate_and_dedup_spec:
  "validate_and_dedup ccs = Inr xs \<Longrightarrow> list_all is_iso_country ccs \<and> distinct xs \<and> set xs = set ccs"
  using validate_loop_spec [of "[]" ccs xs] by (simp add: validate_and_dedup_def)

lemma defaults_ok:
  assumes "apply_config_defaults cfg = Inr cfg'"
  shows "wc_countries cfg' \<noteq> []" "0 < wc_refresh_min_gap cfg'" "wc_mode cfg' = wc_mode cfg"
    "wc_refresh_min_gap cfg' = (if wc_refresh_min_gap cfg \<le> 0 then minute else wc_refresh_min_gap cfg)"
proof -
  obtain ccs where ccs: "(if wc_countries cfg = [] then Inr [''US''] else validate_and_dedup (wc_countries cfg)) = Inr ccs"
    using assms by (auto simp: apply_config_defaults_def split: sum.splits)
  have "ccs \<noteq> []"
  proof (cases "wc_countries cfg = []")
    case False
    then have "set ccs = set (wc_countries cfg)" using ccs validate_and_dedup_spec by simp
    with False show ?thesis by auto
  qed (use ccs in auto)
  moreover note cfg' = assms [unfolded apply_config_defaults_def ccs, simplified, symmetric]
  ultimately show "wc_countries cfg' \<noteq> []" by simp
  show "0 < wc_refresh_min_gap cfg'" "wc_mode cfg' = wc_mode cfg"
    "wc_refresh_min_gap cfg' = (if wc_refresh_min_gap cfg \<le> 0 then minute else wc_refresh_min_gap cfg)"
    by (simp_all add: cfg' default_refresh_min_gap_def time_units)
qed

subsection \<open>What a fetch can give\<close>

definition url_list :: "string list \<Rightarrow> bool" where
  "url_list urls \<longleftrightarrow> urls \<noteq> [] \<and> list_all (\<lambda>u. has_prefix u ''http://'') urls"

lemma rotating_urls_ok: "ccs \<noteq> [] \<Longrightarrow> url_list (rotating_urls u p ccs)"
  by (simp add: url_list_def rotating_urls_def list_all_iff)

lemma injected_urls_ok: "ps \<noteq> [] \<Longrightarrow> ccs \<noteq> [] \<Longrightarrow> url_list (inject_country_modifiers ps ccs mode)"
  by (simp add: url_list_def inject_country_modifiers_def proxy_url_def list_all_iff)

definition good_fetch :: "('w \<Rightarrow> (go_error + string list) \<times> 'w) \<Rightarrow> bool" where
  "good_fetch fetch \<longleftrightarrow> (\<forall>w urls. fst (fetch w) = Inr urls \<longrightarrow> url_list urls)"

lemma fetch_all_nonempty: "fst (fetch_all_proxies net key cfg w) = Inr ps \<Longrightarrow> ps \<noteq> []"
  by (auto simp: fetch_all_proxies_def split: prod.splits sum.splits if_splits)

lemma webshare_fetch_good: "wc_countries cfg \<noteq> [] \<Longrightarrow> good_fetch (webshare_fetch net key cfg)"
  by (auto simp: good_fetch_def webshare_fetch_def case_prod_beta map_sum_def
      intro!: injected_urls_ok dest: fetch_all_nonempty split: sum.splits)

lemma rotating_fetch_good: "wc_countries cfg \<noteq> [] \<Longrightarrow> good_fetch (rotating_fetch net key cfg)"
  by (auto simp: good_fetch_def rotating_fetch_def intro!: rotating_urls_ok split: prod.splits sum.splits list.splits)

subsection \<open>Runs of the pool\<close>

text \<open>The pool with its world, the refreshes in flight, the clock and the times at which reports
  started refreshes, newest first.\<close>

record 'w webshare_run =
  wu_pool :: "'w webshare"
  wu_world :: 'w
  wu_flying :: nat
  wu_now :: time
  wu_starts :: "time list"

definition launch :: "'w webshare \<Rightarrow> 'w \<Rightarrow> time \<Rightarrow> 'w webshare_run" where
  "launch p w now = \<lparr>wu_pool = p, wu_world = w, wu_flying = 0, wu_now = now, wu_starts = []\<rparr>"

inductive webshare_step :: "'w webshare_run \<Rightarrow> 'w webshare_run \<Rightarrow> bool" where
  step_next: "webshare_step s (s\<lparr>wu_pool := snd (webshare_next (wu_pool s))\<rparr>)"
| step_report:
    "\<lbrakk>wu_now s \<le> now; now \<le> now'; webshare_report_auth_failure now now' (wu_pool s) = (started, p')\<rbrakk> \<Longrightarrow>
       webshare_step s (s\<lparr>wu_pool := p', wu_now := now', wu_flying := wu_flying s + of_bool started,
                          wu_starts := (if started then now' # wu_starts s else wu_starts s)\<rparr>)"
| step_triggered:
    "\<lbrakk>0 < wu_flying s; webshare_refresh t (wu_pool s) (wu_world s) = (p', w')\<rbrakk> \<Longrightarrow>
       webshare_step s (s\<lparr>wu_pool := p', wu_world := w', wu_flying := wu_flying s - 1\<rparr>)"
| step_periodic:
    "\<lbrakk>0 < ws_interval (wu_pool s); webshare_refresh t (wu_pool s) (wu_world s) = (p', w')\<rbrakk> \<Longrightarrow>
       webshare_step s (s\<lparr>wu_pool := p', wu_world := w'\<rparr>)"
| step_close: "webshare_step s (s\<lparr>wu_pool := snd (webshare_close (wu_pool s))\<rparr>)"

inductive webshare_reach :: "'w webshare_run \<Rightarrow> 'w webshare_run \<Rightarrow> bool" for start where
  reach_start: "webshare_reach start start"
| reach_step: "webshare_reach start s \<Longrightarrow> webshare_step s s' \<Longrightarrow> webshare_reach start s'"

inductive_cases webshare_step_cases: "webshare_step s s'"

definition pool_ok :: "'w webshare \<Rightarrow> bool" where
  "pool_ok p \<longleftrightarrow> url_list (ws_proxies p) \<and> (case ws_fetch p of None \<Rightarrow> True | Some fetch \<Rightarrow> good_fetch fetch)"

definition starts_ok :: "time \<Rightarrow> 'w webshare_run \<Rightarrow> bool" where
  "starts_ok first s \<longleftrightarrow>
     0 < first \<and> first \<le> wu_now s \<and>
     ws_last_trigger (wu_pool s) = (case wu_starts s of [] \<Rightarrow> zero_time | t # ts \<Rightarrow> t) \<and>
     list_all (\<lambda>t. first \<le> t \<and> t \<le> wu_now s) (wu_starts s) \<and>
     sorted_wrt (\<lambda>a b. ws_min_gap (wu_pool s) \<le> a - b) (wu_starts s)"

lemma webshare_next_fields [simp]:
  "ws_fetch (snd (webshare_next p)) = ws_fetch p" "ws_last_trigger (snd (webshare_next p)) = ws_last_trigger p"
  "ws_min_gap (snd (webshare_next p)) = ws_min_gap p" "ws_closed (snd (webshare_next p)) = ws_closed p"
  by (simp_all add: webshare_next_def Let_def)

lemma webshare_close_fields [simp]:
  "ws_proxies (snd (webshare_close p)) = ws_proxies p" "ws_fetch (snd (webshare_close p)) = ws_fetch p"
  "ws_last_trigger (snd (webshare_close p)) = ws_last_trigger p" "ws_min_gap (snd (webshare_close p)) = ws_min_gap p"
  "ws_closed (snd (webshare_close p))"
  by (simp_all add: webshare_close_def)

lemma webshare_refresh_fields:
  assumes "webshare_refresh t p w = (p', w')"
  shows "ws_fetch p' = ws_fetch p" "ws_last_trigger p' = ws_last_trigger p" "ws_min_gap p' = ws_min_gap p"
    "ws_closed p' = ws_closed p" "pool_ok p \<Longrightarrow> pool_ok p'"
    "ws_proxies p' = (case ws_fetch p of None \<Rightarrow> ws_proxies p
       | Some fetch \<Rightarrow> (case fst (fetch w) of Inl e \<Rightarrow> ws_proxies p | Inr urls \<Rightarrow> urls))"
proof -
  show "ws_fetch p' = ws_fetch p" "ws_last_trigger p' = ws_last_trigger p" "ws_min_gap p' = ws_min_gap p"
    "ws_closed p' = ws_closed p"
    and proxies: "ws_proxies p' = (case ws_fetch p of None \<Rightarrow> ws_proxies p
       | Some fetch \<Rightarrow> (case fst (fetch w) of Inl e \<Rightarrow> ws_proxies p | Inr urls \<Rightarrow> urls))"
    using assms by (auto simp: webshare_refresh_def set_proxies_def Let_def split: option.splits prod.splits sum.splits)
  then show "pool_ok p \<Longrightarrow> pool_ok p'"
    by (auto simp: pool_ok_def good_fetch_def split: option.splits sum.splits)
qed

lemma webshare_report_fields:
  assumes "webshare_report_auth_failure now now' p = (started, p')"
  shows "ws_proxies p' = ws_proxies p" "ws_fetch p' = ws_fetch p" "ws_min_gap p' = ws_min_gap p" "ws_closed p' = ws_closed p"
    "ws_last_trigger p' = (if started then now' else ws_last_trigger p)"
    "started \<longleftrightarrow> ws_fetch p \<noteq> None \<and> \<not> ws_closed p \<and>
       (ws_last_trigger p = zero_time \<or> ws_min_gap p \<le> time_sub now (ws_last_trigger p))"
  using assms by (auto simp: webshare_report_auth_failure_def Let_def split: if_splits)

lemma pool_ok_simps [simp]:
  "pool_ok (snd (webshare_next p)) = pool_ok p" "pool_ok (snd (webshare_close p)) = pool_ok p"
  by (simp_all add: pool_ok_def)

lemma pool_ok_report: "webshare_report_auth_failure now now' p = (started, p') \<Longrightarrow> pool_ok p' = pool_ok p"
  using webshare_report_fields(1,2) [of now now' p started p'] by (simp add: pool_ok_def)

lemma pool_ok_step: "webshare_step s s' \<Longrightarrow> pool_ok (wu_pool s) \<Longrightarrow> pool_ok (wu_pool s')"
  by (induction rule: webshare_step.induct) (auto dest: pool_ok_report webshare_refresh_fields(5))

lemma fetch_step: "webshare_step s s' \<Longrightarrow> ws_fetch (wu_pool s') = ws_fetch (wu_pool s)"
  by (induction rule: webshare_step.induct) (auto dest: webshare_report_fields(2) webshare_refresh_fields(1))

lemma fetch_reach: "webshare_reach start s \<Longrightarrow> ws_fetch (wu_pool s) = ws_fetch (wu_pool start)"
  by (induction rule: webshare_reach.induct) (auto simp: fetch_step)

lemma pool_ok_reach: "webshare_reach start s \<Longrightarrow> pool_ok (wu_pool start) \<Longrightarrow> pool_ok (wu_pool s)"
  by (induction rule: webshare_reach.induct) (auto intro: pool_ok_step)

lemma pool_ok_new:
  assumes "new_webshare_with_config net key cfg w = (Inr p, w')"
  shows "pool_ok p"
proof -
  obtain cfg' fetch where cfg': "apply_config_defaults cfg = Inr cfg'" and start: "start_pool cfg' fetch w = (Inr p, w')"
    and fetch: "fetch = rotating_fetch net key cfg' \<or> fetch = webshare_fetch net key cfg'"
    using assms by (auto simp: new_webshare_with_config_def build_rotating_from_api_def split: if_splits sum.splits)
  have "good_fetch fetch"
    using fetch webshare_fetch_good rotating_fetch_good defaults_ok(1) [OF cfg'] by blast
  moreover obtain urls where "fst (fetch w) = Inr urls" "p = enable_refresh cfg' fetch (new_webshare_pool urls)"
    using start by (auto simp: start_pool_def map_sum_def split: prod.splits sum.splits)
  ultimately show ?thesis by (auto simp: pool_ok_def good_fetch_def enable_refresh_def new_webshare_pool_def)
qed

lemma fetch_new: "new_webshare_with_config net key cfg w = (Inr p, w') \<Longrightarrow> ws_fetch p \<noteq> None"
  by (auto simp: new_webshare_with_config_def build_rotating_from_api_def start_pool_def enable_refresh_def map_sum_def
      split: if_splits sum.splits prod.splits)

lemma webshare_next_member:
  assumes "ws_proxies p \<noteq> []"
  shows "fst (webshare_next p) \<in> set (ws_proxies p)"
proof -
  let ?n = "length (ws_proxies p)" and ?c = "ws_counter p + 1"
  have "unat (?c mod word_of_nat ?n) < ?n"
  proof (cases "?n < 2 ^ 64")
    case True
    then have "unat (word_of_nat ?n :: 64 word) = ?n" by (simp add: unat_of_nat take_bit_eq_mod)
    with assms show ?thesis by (simp add: unat_mod_distrib)
  next
    case False
    have "unat x < 2 ^ 64" for x :: "64 word" using unsigned_less [of x, where ?'a = nat] by simp
    with False show ?thesis by (meson less_le_trans not_less)
  qed
  with assms show ?thesis by (simp add: webshare_next_def Let_def)
qed

text \<open>An API for the witnesses: every answer is one page with one proxy.\<close>

definition demo_webshare_net :: "unit webshare_net" where
  "demo_webshare_net =
     \<lparr>wn_new_request = (\<lambda>u. None), wn_do = (\<lambda>u h w. (Inr (200, []), w)),
      wn_decode = (\<lambda>b. Inr \<lparr>wz_results = [\<lparr>wx_address = ''10.1.1.1'', wx_port = 80, wx_username = ''u'', wx_password = ''p''\<rparr>],
                             wz_next = None\<rparr>)\<rparr>"

lemma demo_webshare_pool:
  "\<exists>p. new_webshare_with_config demo_webshare_net ''k'' zero_webshare_config () = (Inr p, ()) \<and>
     ws_proxies p = [''http://u-US:p@10.1.1.1:80''] \<and> ws_fetch p \<noteq> None"
proof -
  let ?px = "\<lparr>wx_address = ''10.1.1.1'', wx_port = 80, wx_username = ''u'', wx_password = ''p''\<rparr>"
  have page: "fetch_page_with_next demo_webshare_net u k () = (Inr ([?px], []), ())" for u k
    by (simp add: demo_webshare_net_def fetch_page_with_next_def)
  have fetch: "0 < n \<Longrightarrow> fetch_pages n demo_webshare_net u k [] () = (Inr [?px], ())" for n u k
    by (cases n) (simp_all add: page)
  have "0 < webshare_max_pages" by (simp add: webshare_max_pages_def)
  then have all: "fetch_all_proxies demo_webshare_net k cfg () = (Inr [?px], ())" for k cfg
    by (simp add: fetch_all_proxies_def fetch)
  have port: "int_str 80 = ''80''" by (simp add: int_str_def nat_str.simps digit_char_def) code_simp
  have urls: "inject_country_modifiers [?px] [''US''] ModeBackbone = [''http://u-US:p@10.1.1.1:80'']"
    by (simp add: inject_country_modifiers_def proxy_url_def proxy_host_def country_suffix_def port)
  obtain cfg where cfg: "apply_config_defaults zero_webshare_config = Inr cfg" "wc_countries cfg = [''US'']" "wc_mode cfg = ModeBackbone"
    by (simp add: apply_config_defaults_def zero_webshare_config_def)
  then show ?thesis
    by (simp add: new_webshare_with_config_def start_pool_def webshare_fetch_def all urls enable_refresh_def
        new_webshare_pool_def)
qed

text \<open>C24: a Webshare pool made from the API never hands out a direct connection. Whatever the answers of the
  API, the failed and successful refreshes, the reports and the closing in between, Next returns a
  proxy URL, and never the empty string, which the client would take for no proxy. And a refresh
  that fails leaves the list as it is.\<close>

theorem webshare_never_direct:
  assumes "new_webshare_with_config net key cfg w = (Inr p, w')" "webshare_reach (launch p w' now) s"
  shows "has_prefix (fst (webshare_next (wu_pool s))) ''http://'' \<and>
    (case ws_fetch (wu_pool s) of None \<Rightarrow> False | Some fetch \<Rightarrow>
       (case fst (fetch (wu_world s)) of
          Inl e \<Rightarrow> ws_proxies (fst (webshare_refresh t (wu_pool s) (wu_world s))) = ws_proxies (wu_pool s)
        | Inr urls \<Rightarrow> url_list urls))"
proof -
  have ok: "pool_ok (wu_pool s)"
    using pool_ok_reach [OF assms(2)] pool_ok_new [OF assms(1)] by (simp add: launch_def)
  then have "fst (webshare_next (wu_pool s)) \<in> set (ws_proxies (wu_pool s))"
    by (intro webshare_next_member) (simp add: pool_ok_def url_list_def)
  then have "has_prefix (fst (webshare_next (wu_pool s))) ''http://''"
    using ok by (auto simp: pool_ok_def url_list_def list_all_iff)
  moreover obtain fetch where fetch: "ws_fetch (wu_pool s) = Some fetch"
    using fetch_new [OF assms(1)] fetch_reach [OF assms(2)] by (auto simp: launch_def)
  moreover have "case fst (fetch (wu_world s)) of
      Inl e \<Rightarrow> ws_proxies (fst (webshare_refresh t (wu_pool s) (wu_world s))) = ws_proxies (wu_pool s)
    | Inr urls \<Rightarrow> url_list urls"
  proof (cases "fst (fetch (wu_world s))")
    case (Inl e)
    then show ?thesis
      using webshare_refresh_fields(6) [of t "wu_pool s" "wu_world s" "fst (webshare_refresh t (wu_pool s) (wu_world s))"
          "snd (webshare_refresh t (wu_pool s) (wu_world s))"] fetch by simp
  next
    case (Inr urls)
    then show ?thesis using ok fetch by (simp add: pool_ok_def good_fetch_def)
  qed
  ultimately show ?thesis by simp
qed

theorem webshare_never_direct_witness:
  "\<exists>p. new_webshare_with_config demo_webshare_net ''k'' zero_webshare_config () = (Inr p, ()) \<and>
     has_prefix (fst (webshare_next (snd (webshare_close p)))) ''http://''"
proof -
  obtain p where p: "new_webshare_with_config demo_webshare_net ''k'' zero_webshare_config () = (Inr p, ())"
    using demo_webshare_pool by blast
  have "webshare_reach (launch p () 1) ((launch p () 1)\<lparr>wu_pool := snd (webshare_close (wu_pool (launch p () 1)))\<rparr>)"
    by (rule reach_step [OF reach_start step_close])
  from webshare_never_direct [OF p this] p show ?thesis by (auto simp: launch_def)
qed

lemma spaced_bound:
  "sorted_wrt (\<lambda>a b. gap \<le> a - b) ts \<Longrightarrow> list_all (\<lambda>t. lo \<le> t \<and> t \<le> hi) ts \<Longrightarrow> lo \<le> hi \<Longrightarrow> 0 < gap \<Longrightarrow>
     (int (length ts) - 1) * gap \<le> hi - lo"
proof (induction ts arbitrary: hi)
  case (Cons t ts)
  show ?case
  proof (cases ts)
    case Nil
    with Cons.prems show ?thesis by simp
  next
    case (Cons u us)
    have "list_all (\<lambda>x. lo \<le> x \<and> x \<le> t - gap) ts" using Cons.prems(1,2) by (auto simp: list_all_iff)
    moreover have "lo \<le> t - gap" using Cons.prems(1,2) Cons by auto
    ultimately have "(int (length ts) - 1) * gap \<le> t - gap - lo" using Cons.IH Cons.prems by simp
    moreover have "t \<le> hi" using Cons.prems(2) by simp
    ultimately show ?thesis by (simp add: algebra_simps)
  qed
qed (simp add: algebra_simps)

lemma starts_ok_report:
  assumes "starts_ok first s" "0 < ws_min_gap (wu_pool s)" "ws_min_gap (wu_pool s) \<le> max_int64"
    and "wu_now s \<le> now" "now \<le> now'" "webshare_report_auth_failure now now' (wu_pool s) = (started, p')"
  shows "starts_ok first (s\<lparr>wu_pool := p', wu_now := now', wu_flying := wu_flying s + of_bool started,
    wu_starts := (if started then now' # wu_starts s else wu_starts s)\<rparr>)"
proof -
  note report = webshare_report_fields [OF assms(6)]
  have later: "list_all (\<lambda>t. first \<le> t \<and> t \<le> now') (wu_starts s)"
    using assms(1,4,5) by (auto simp: starts_ok_def list_all_iff)
  show ?thesis
  proof (cases started)
    case False
    then show ?thesis using assms(1,4,5) later report(3,5) by (simp add: starts_ok_def)
  next
    case True
    have gap: "ws_min_gap (wu_pool s) \<le> now' - b" if b: "b \<in> set (wu_starts s)" for b
    proof -
      obtain u us where us: "wu_starts s = u # us" using b by (cases "wu_starts s") auto
      have "ws_last_trigger (wu_pool s) = u" "0 < u" using assms(1) us by (auto simp: starts_ok_def)
      then have "\<not> time_sub now u < ws_min_gap (wu_pool s)" using report(6) True by auto
      then have "ws_min_gap (wu_pool s) \<le> now - u"
        using assms(2,3) time_sub_less_iff [of "ws_min_gap (wu_pool s)" now u] by (simp add: min_int64_def)
      moreover have "b = u \<or> ws_min_gap (wu_pool s) \<le> u - b" using assms(1) b us by (auto simp: starts_ok_def)
      ultimately show ?thesis using assms(2,5) by linarith
    qed
    have "first \<le> now'" "0 < first" using assms(1,4,5) by (auto simp: starts_ok_def)
    with True gap later assms(1) report(3,5) show ?thesis by (simp add: starts_ok_def)
  qed
qed

lemma starts_ok_step:
  assumes "webshare_step s s'" "starts_ok first s" "0 < ws_min_gap (wu_pool s)" "ws_min_gap (wu_pool s) \<le> max_int64"
  shows "starts_ok first s' \<and> ws_min_gap (wu_pool s') = ws_min_gap (wu_pool s)"
  using assms
proof (induction rule: webshare_step.induct)
  case (step_report s now now' started p')
  then show ?case using starts_ok_report [OF step_report(4-6,1-3)] webshare_report_fields(3) [OF step_report(3)] by simp
qed (simp_all add: starts_ok_def webshare_refresh_fields)

lemma min_gap_new:
  assumes "new_webshare_with_config net key cfg w = (Inr p, w')"
  shows "ws_min_gap p = (if wc_refresh_min_gap cfg \<le> 0 then minute else wc_refresh_min_gap cfg)"
    "0 < ws_min_gap p" "ws_last_trigger p = zero_time"
proof -
  obtain cfg' fetch where cfg': "apply_config_defaults cfg = Inr cfg'" and start: "start_pool cfg' fetch w = (Inr p, w')"
    using assms by (auto simp: new_webshare_with_config_def build_rotating_from_api_def split: if_splits sum.splits)
  then have "ws_min_gap p = wc_refresh_min_gap cfg' \<and> ws_last_trigger p = zero_time"
    by (auto simp: start_pool_def enable_refresh_def new_webshare_pool_def map_sum_def split: prod.splits sum.splits)
  then show "ws_min_gap p = (if wc_refresh_min_gap cfg \<le> 0 then minute else wc_refresh_min_gap cfg)"
    "0 < ws_min_gap p" "ws_last_trigger p = zero_time"
    using defaults_ok(2,4) [OF cfg'] by simp_all
qed

lemma closed_stays:
  "webshare_step s s' \<Longrightarrow> ws_closed (wu_pool s) \<Longrightarrow> ws_closed (wu_pool s') \<and> wu_starts s' = wu_starts s"
  by (induction rule: webshare_step.induct) (auto simp: webshare_refresh_fields dest: webshare_report_fields(4,6))

text \<open>C25: a burst of HTTP 407 answers does not become a burst of API calls. In every run of a pool made from
  the API, with clock readings that do not go back, the refreshes that reports start are at least
  the configured gap apart (one minute when none is configured), so in a stretch of time \<open>T\<close> there
  are at most \<open>T / gap + 1\<close>; and once the pool is closed no report starts one.\<close>

theorem auth_refreshes_are_spaced:
  assumes "new_webshare_with_config net key cfg w = (Inr p, w')" "wc_refresh_min_gap cfg \<le> max_int64" "0 < now"
    and "webshare_reach (launch p w' now) s"
  shows "sorted_wrt (\<lambda>a b. ws_min_gap p \<le> a - b) (wu_starts s) \<and>
    (int (length (wu_starts s)) - 1) * ws_min_gap p \<le> wu_now s - now \<and>
    (webshare_step s s' \<and> ws_closed (wu_pool s) \<longrightarrow> wu_starts s' = wu_starts s)"
proof -
  have gap: "0 < ws_min_gap p" "ws_min_gap p \<le> max_int64"
    using min_gap_new [OF assms(1)] assms(2) by (auto simp: time_units max_int64_def)
  have "starts_ok now s \<and> ws_min_gap (wu_pool s) = ws_min_gap p"
    using assms(4)
  proof (induction rule: webshare_reach.induct)
    case reach_start
    show ?case using assms(3) min_gap_new(3) [OF assms(1)] by (simp add: launch_def starts_ok_def)
  next
    case (reach_step s s')
    then show ?case using starts_ok_step [of s s' now] gap by simp
  qed
  then have sorted: "sorted_wrt (\<lambda>a b. ws_min_gap p \<le> a - b) (wu_starts s)"
    and "list_all (\<lambda>t. now \<le> t \<and> t \<le> wu_now s) (wu_starts s)" "now \<le> wu_now s"
    by (auto simp: starts_ok_def)
  then have "(int (length (wu_starts s)) - 1) * ws_min_gap p \<le> wu_now s - now"
    using spaced_bound gap(1) by blast
  with sorted show ?thesis using closed_stays [of s s'] by blast
qed

theorem auth_refreshes_are_spaced_witness:
  "\<exists>p (s :: unit webshare_run). new_webshare_with_config demo_webshare_net ''k'' zero_webshare_config () = (Inr p, ()) \<and>
     wu_starts s = [second] \<and> (int (length (wu_starts s)) - 1) * ws_min_gap p \<le> wu_now s - 1"
proof -
  obtain p where p: "new_webshare_with_config demo_webshare_net ''k'' zero_webshare_config () = (Inr p, ())" "ws_fetch p \<noteq> None"
    using demo_webshare_pool by blast
  obtain p' where p': "webshare_report_auth_failure second second p = (True, p')"
    using p min_gap_new(3) [OF p(1)]
    by (auto simp: new_webshare_with_config_def apply_config_defaults_def zero_webshare_config_def start_pool_def
        enable_refresh_def new_webshare_pool_def map_sum_def webshare_report_auth_failure_def Let_def
        split: prod.splits sum.splits)
  let ?s = "(launch p () 1)\<lparr>wu_pool := p', wu_now := second, wu_flying := wu_flying (launch p () 1) + of_bool True,
      wu_starts := (if True then second # wu_starts (launch p () 1) else wu_starts (launch p () 1))\<rparr>"
  have sec: "1 \<le> second" by (simp add: time_units)
  have "webshare_reach (launch p () 1) ?s"
    by (rule reach_step [OF reach_start step_report [where now = second]]) (simp_all add: launch_def p' sec)
  then have "(int (length (wu_starts ?s)) - 1) * ws_min_gap p \<le> wu_now ?s - 1"
    using auth_refreshes_are_spaced [OF p(1), of 1 ?s] by (simp add: zero_webshare_config_def max_int64_def)
  moreover have "wu_starts ?s = [second]" by (simp add: launch_def)
  ultimately show ?thesis by (intro exI [of _ p] exI [of _ ?s] conjI p(1))
qed

end
