(* ===== verification/Sent_Headers.thy ===== *)
theory Sent_Headers
  imports Backend_Tls
begin

text \<open>
  What is sent under which User-Agent. From the headers a caller gives, through the middlewares that the options
  install, the loop over the proxies (\<^verbatim>\<open>src/client.go\<close>) and the request the backend builds
  (\<^verbatim>\<open>src/backend_tlsclient.go\<close>), the User-Agent of a request stays the same; so what the library
  does with a request that carries another one, or none, is irrelevant. Handlers that agree on the requests of
  a class, and leave a request of the class behind, are composed as the code composes them.
\<close>

subsection \<open>Handlers that agree on a class of requests\<close>

definition leaves :: "(http_request \<Rightarrow> bool) \<Rightarrow> ('r \<times> http_request \<times> 's) option \<Rightarrow> bool" where
  "leaves R x \<longleftrightarrow> (case x of None \<Rightarrow> True | Some (r, q, s) \<Rightarrow> R q)"

lemma leaves_simps [simp]:
  "leaves R None" "leaves R (Some (r, q, s)) = R q"
  "leaves R (map_option (\<lambda>(r, q, w). (r, q, g w)) x) = leaves R x"
  by (simp_all add: leaves_def split: option.split prod.split)

definition agree_on :: "(http_request \<Rightarrow> bool) \<Rightarrow> 'w handler \<Rightarrow> 'w handler \<Rightarrow> bool" where
  "agree_on R h h' \<longleftrightarrow> (\<forall>q w. R q \<longrightarrow> h' q w = h q w \<and> leaves R (h q w))"

definition steady :: "(http_request \<Rightarrow> bool) \<Rightarrow> 'w middleware \<Rightarrow> bool" where
  "steady R m \<longleftrightarrow> (\<forall>h h'. agree_on R h h' \<longrightarrow> agree_on R (m h) (m h'))"

lemma agree_onD: "agree_on R h h' \<Longrightarrow> R q \<Longrightarrow> h' q w = h q w \<and> leaves R (h q w)"
  by (simp add: agree_on_def)

lemma steadyI:
  "(\<And>h h' q w. agree_on R h h' \<Longrightarrow> R q \<Longrightarrow> m h' q w = m h q w \<and> leaves R (m h q w)) \<Longrightarrow> steady R m"
  unfolding steady_def agree_on_def by blast

lemma chain_agree_on: "list_all (steady R) ms \<Longrightarrow> agree_on R h h' \<Longrightarrow> agree_on R (chain ms h) (chain ms h')"
  by (induction ms) (auto simp: steady_def)

lemma logging_steady: "steady R logging_middleware"
proof (rule steadyI)
  fix h h' :: "'a handler" and q :: http_request and w assume "agree_on R h h'" "R q"
  from agree_onD [OF this, of w] show "logging_middleware h' q w = logging_middleware h q w \<and> leaves R (logging_middleware h q w)"
    by (cases "h q w") (auto simp: logging_middleware_def)
qed

lemma detect_steady: "steady R cloudflare_detect_middleware"
proof (rule steadyI)
  fix h h' :: "'a handler" and q :: http_request and w assume "agree_on R h h'" "R q"
  from agree_onD [OF this, of w]
  show "cloudflare_detect_middleware h' q w = cloudflare_detect_middleware h q w \<and> leaves R (cloudflare_detect_middleware h q w)"
    by (cases "h q w") (auto simp: cloudflare_detect_middleware_def split: Option.bind_split)
qed

lemma smart_fetch_steady: "steady R (smart_fetch_middleware fetch)"
proof (rule steadyI)
  fix h h' :: "'a handler" and q :: http_request and w assume "agree_on R h h'" "R q"
  from agree_onD [OF this, of w]
  show "smart_fetch_middleware fetch h' q w = smart_fetch_middleware fetch h q w \<and> leaves R (smart_fetch_middleware fetch h q w)"
    by (cases "h q w") (auto simp: smart_fetch_middleware_def split: option.split sum.split prod.split Option.bind_split)
qed

lemma cookie_steady:
  assumes set: "\<And>v q. R q \<Longrightarrow> R (header_set ''cookie'' v q)"
  shows "steady R (cloudflare_cookie_middleware parse ops)"
proof (rule steadyI)
  fix h h' :: "'a handler" and q :: http_request and w assume h: "agree_on R h h'" and q: "R q"
  obtain c w1 where get: "cp_get ops (extract_host parse (rq_url q)) w = (c, w1)" by fastforce
  have "R (inject_cookie c q)" using q set by (simp add: inject_cookie_def)
  note first = agree_onD [OF h this, of w1]
  have again: "R q2 \<Longrightarrow> h' (header_set ''cookie'' v q2) w3 = h (header_set ''cookie'' v q2) w3 \<and>
      leaves R (h (header_set ''cookie'' v q2) w3)" for v q2 w3
    by (rule agree_onD [OF h]) (rule set)
  show "cloudflare_cookie_middleware parse ops h' q w = cloudflare_cookie_middleware parse ops h q w \<and>
      leaves R (cloudflare_cookie_middleware parse ops h q w)"
  proof (cases "h (inject_cookie c q) w1")
    case None
    then show ?thesis using first get by (simp add: cloudflare_cookie_middleware_def)
  next
    case (Some x)
    obtain resp err q2 w2 where x: "x = ((resp, err), q2, w2)" by (metis prod.collapse)
    then have "R q2" using first Some by simp
    then show ?thesis
      using first get Some x again
      by (auto simp: cloudflare_cookie_middleware_def split: option.split sum.split prod.split Option.bind_split)
  qed
qed

lemma initial_steady:
  assumes "\<And>v q. R q \<Longrightarrow> R (header_set ''cookie'' v q)"
  shows "list_all (steady R) (initial_middlewares env cfg)"
  by (auto simp: initial_middlewares_def Let_def logging_steady detect_steady smart_fetch_steady cookie_steady assms
      split: option.split)

lemma do_loop_agree_on:
  assumes rotate: "\<And>s. rotate_proxy bc' s = rotate_proxy bc s" and report: "\<And>s. report_auth bc' s = report_auth bc s"
    and same: "cl_pause bc' = cl_pause bc" "cl_proxy_pool bc' = cl_proxy_pool bc" and h: "agree_on R h h'"
  shows "R q \<Longrightarrow> do_loop bc' h' n attempt k q s = do_loop bc h n attempt k q s"
proof (induction k arbitrary: attempt q s)
  case (Suc k)
  have hq: "h' q s1 = h q s1 \<and> leaves R (h q s1)" for s1 by (rule agree_onD [OF h Suc.prems])
  have rest: "h q s1 = Some (r, q1, s2) \<Longrightarrow> do_loop bc' h' n a k q1 s3 = do_loop bc h n a k q1 s3" for s1 r q1 s2 a s3
    using hq [of s1] Suc.IH [of q1 a s3] by simp
  show ?case using rest Suc.IH [OF Suc.prems] hq
    by (auto simp: rotate report same Let_def split: option.split prod.split)
qed simp

subsection \<open>Requests that carry a User-Agent\<close>

text \<open>The header map has the entry, and no other capitalisation of it.\<close>

definition carries_user_agent :: "string \<Rightarrow> http_request \<Rightarrow> bool" where
  "carries_user_agent ua q \<longleftrightarrow>
     (case rq_headers q of
        None \<Rightarrow> False
      | Some h \<Rightarrow> finite (dom h) \<and> h ''user-agent'' = Some ua \<and>
          (\<forall>k. canonical_key k = ''User-Agent'' \<longrightarrow> k = ''user-agent'' \<or> h k = None))"

lemma canonical_user_agent: "canonical_key ''user-agent'' = ''User-Agent''"
  by code_simp

lemma carries_header_set:
  assumes "carries_user_agent ua q" "canonical_key k \<noteq> ''User-Agent''"
  shows "carries_user_agent ua (header_set k v q)"
  using assms canonical_user_agent by (auto simp: carries_user_agent_def header_set_def split: option.splits)

lemma carries_cookie: "carries_user_agent ua q \<Longrightarrow> carries_user_agent ua (header_set ''cookie'' v q)"
proof (erule carries_header_set)
  have "canonical_key ''cookie'' = ''Cookie''" by code_simp
  then show "canonical_key ''cookie'' \<noteq> ''User-Agent''" by simp
qed

lemma carries_priority:
  assumes "carries_user_agent ua q"
  shows "carries_user_agent ua (q\<lparr>rq_headers := with_fetch_priority_header (rq_headers q)\<rparr>)"
proof -
  have "canonical_key ''priority'' = ''Priority''" by code_simp
  then have "carries_user_agent ua (header_set ''priority'' fetch_priority_header q)"
    using assms by (intro carries_header_set) simp_all
  then show ?thesis using assms
    by (simp add: with_fetch_priority_header_def header_set_def carries_user_agent_def Let_def split: option.splits)
qed

text \<open>Whatever the order in which the loop meets the map, the request of the library then has exactly
  that value.\<close>

definition fair_range :: "'r backend_env \<Rightarrow> bool" where
  "fair_range env \<longleftrightarrow> (\<forall>h. finite (dom h) \<longrightarrow> ranges_over (bn_range env h) h)"

lemma user_agent_on_the_wire:
  assumes "fair_range env" "carries_user_agent ua q" "build_request env q = Inr wq"
  shows "wq_header wq ''User-Agent'' = Some [ua]"
proof -
  obtain h where h: "rq_headers q = Some h" "finite (dom h)" "h ''user-agent'' = Some ua"
      "\<And>k. canonical_key k = ''User-Agent'' \<Longrightarrow> k = ''user-agent'' \<or> h k = None"
    using assms(2) by (auto simp: carries_user_agent_def split: option.splits)
  have "set_headers (bn_range env h) (\<lambda>k. None) (canonical_key ''user-agent'') = Some [ua]"
  proof (rule set_headers_sent)
    show "ranges_over (bn_range env h) h" using assms(1) h(2) by (simp add: fair_range_def)
    show "k' = ''user-agent''" if "h k' \<noteq> None" "canonical_key k' = canonical_key ''user-agent''" for k'
      using h(4) [of k'] that canonical_user_agent by auto
  qed (rule h(3))
  then show ?thesis using assms(3) h(1) canonical_user_agent by (auto simp: build_request_def split: option.splits)
qed

lemma tls_do_agree_on:
  assumes env: "fair_range env"
    and f: "\<And>g wq w. wq_header wq ''User-Agent'' = Some [ua] \<Longrightarrow> f g wq w = tc_do c g wq w"
  shows "carries_user_agent ua q \<Longrightarrow> tls_do env (c\<lparr>tc_do := f\<rparr>) g q w = tls_do env c g q w \<and>
    leaves (carries_user_agent ua) (tls_do env c g q w)"
  using user_agent_on_the_wire [OF env, of ua q] f
  by (auto simp: tls_do_def Let_def carries_user_agent_def split: sum.split prod.split option.splits)

text \<open>A client that differs in what its library does with requests under another User-Agent.\<close>

definition with_library :: "'r backend_env \<Rightarrow> 'l tls_world tls_http_client \<Rightarrow> 'l tls_world browser_client \<Rightarrow> 'l tls_world browser_client" where
  "with_library env c bc = bc\<lparr>cl_doer := tls_client_doer env c\<rparr>"

lemma client_sends_user_agent:
  assumes doer: "cl_doer bc = tls_client_doer benv c" and mws: "cl_middlewares bc = initial_middlewares env cfg"
    and range: "fair_range benv"
    and f: "\<And>g wq w. wq_header wq ''User-Agent'' = Some [ua] \<Longrightarrow> f g wq w = tc_do c g wq w"
    and headers: "carries_user_agent ua (make_request m u (Some h) b)"
  shows "client_do (with_library benv (c\<lparr>tc_do := f\<rparr>) bc) m u (Some h) b s = client_do bc m u (Some h) b s"
proof -
  let ?R = "carries_user_agent ua" and ?bc = "with_library benv (c\<lparr>tc_do := f\<rparr>) bc"
  have base: "agree_on ?R (base_handler bc order) (base_handler ?bc order)" for order
    unfolding agree_on_def
  proof (intro allI impI)
    fix q s assume q: "?R q"
    have q1: "?R (q\<lparr>rq_order := order\<rparr>)" using q by (simp add: carries_user_agent_def)
    show "base_handler ?bc order q s = base_handler bc order q s \<and> leaves ?R (base_handler bc order q s)"
      using tls_do_agree_on [OF range f q1] tls_do_agree_on [OF range f carries_priority [OF q1]] q
      by (auto simp: base_handler_def with_library_def doer tls_client_doer_def current_guard_def Let_def
          split: option.split sum.split)
  qed
  have "agree_on ?R (build_handler bc order) (build_handler ?bc order)" for order
    using chain_agree_on [OF initial_steady [where R = ?R, OF carries_cookie] base] base
    by (auto simp: build_handler_def mws with_library_def)
  moreover have "rotate_proxy ?bc s = rotate_proxy bc s" for s
  proof -
    have "tls_set_proxy (c\<lparr>tc_do := f\<rparr>) = tls_set_proxy c" by (simp add: fun_eq_iff tls_set_proxy_def)
    then have "hd_set_proxy (cl_doer ?bc) = hd_set_proxy (cl_doer bc)" by (simp add: with_library_def doer tls_client_doer_def)
    then have "client_set_proxy ?bc u t = client_set_proxy bc u t" for u t
      by (simp add: client_set_proxy_def with_library_def current_guard_def cong: option.case_cong)
    then show ?thesis by (simp add: rotate_proxy_def with_library_def cong: option.case_cong)
  qed
  moreover have "report_auth ?bc s = report_auth bc s" for s
    by (simp add: report_auth_def with_library_def cong: option.case_cong)
  ultimately show ?thesis
    using do_loop_agree_on [of ?bc bc ?R "build_handler bc (cl_header_order bc)" "build_handler ?bc (cl_header_order bc)"] headers
    by (simp add: client_do_def do_with_retry_def max_attempts_def with_library_def)
qed

end
