(* ===== verification/Session.thy ===== *)
theory Session
  imports Sent_Headers Go_Path "HOL-Library.List_Lexorder" "HOL-Library.Char_ord"
begin

text \<open>
  Sessions and their store (\<^verbatim>\<open>src/session/session.go\<close>, \<^verbatim>\<open>store.go\<close>). A session
  has the client with its own state beside it; what one \<^verbatim>\<open>New\<close> reads from outside, the random numbers and the
  clock, is a record of draws. The files, the JSON codec and \<^verbatim>\<open>os.IsNotExist\<close> are parameters; the
  mutexes make each operation a step. The facts: a session keeps one browser from its creation through
  every request, and the store implements a map from session ids to what is saved of a session.
\<close>

subsection \<open>Construction\<close>

datatype ('w, 'j, 'p) session_option =
    SessionProfile browser_profile
  | SessionClientOptions "('w, 'j, 'p) client_option list"

record ('w, 'j, 'p) session_config =
  sg_profile :: "browser_profile option"
  sg_client_opts :: "('w, 'j, 'p) client_option list"

fun apply_session_option ::
    "('w, 'j, 'p) session_option \<Rightarrow> ('w, 'j, 'p) session_config \<Rightarrow> ('w, 'j, 'p) session_config"
where
  "apply_session_option (SessionProfile p) c = c\<lparr>sg_profile := Some p\<rparr>"
| "apply_session_option (SessionClientOptions opts) c = c\<lparr>sg_client_opts := sg_client_opts c @ opts\<rparr>"

definition session_config_of :: "('w, 'j, 'p) session_option list \<Rightarrow> ('w, 'j, 'p) session_config" where
  "session_config_of opts = fold apply_session_option opts \<lparr>sg_profile = None, sg_client_opts = []\<rparr>"

record 'w session =
  sn_id :: string
  sn_created_at :: time
  sn_last_used :: time
  sn_request_count :: "64 word"
  sn_client :: "'w browser_client"
  sn_profile :: browser_profile

record session_draw =
  dw_goos :: string
  dw_intn :: "nat \<Rightarrow> nat"
  dw_bytes :: string
  dw_created :: time
  dw_used :: time

definition generate_id :: "string \<Rightarrow> string" where
  "generate_id bytes = hex_encode bytes"

definition session_profile_of :: "session_draw \<Rightarrow> browser_profile option \<Rightarrow> browser_profile" where
  "session_profile_of draw p =
     (case p of
        Some b \<Rightarrow> if bp_tls_profile b \<noteq> [] then b else platform_matched_profile (dw_goos draw) (dw_intn draw)
      | None \<Rightarrow> platform_matched_profile (dw_goos draw) (dw_intn draw))"

definition session_client_opts :: "browser_profile \<Rightarrow> ('w, 'j, 'p) client_option list \<Rightarrow> ('w, 'j, 'p) client_option list" where
  "session_client_opts profile opts = [WithProfile (bp_tls_profile profile), WithFollowRedirects] @ opts"

definition new_session ::
    "('w, 'j, 'p, 't) client_env \<Rightarrow> session_draw \<Rightarrow> ('w, 'j, 'p) session_option list \<Rightarrow> 'w \<Rightarrow>
     ((go_error + 'w session \<times> 'w client_state) \<times> 'w) option"
where
  "new_session env draw opts w =
     (let cfg = session_config_of opts;
          profile = session_profile_of draw (sg_profile cfg)
      in case new_client env (session_client_opts profile (sg_client_opts cfg)) w of
           None \<Rightarrow> None
         | Some (Inl e, w1) \<Rightarrow> Some (Inl e, w1)
         | Some (Inr (bc, st), w1) \<Rightarrow>
             Some (Inr (\<lparr>sn_id = generate_id (dw_bytes draw), sn_created_at = dw_created draw,
                         sn_last_used = dw_used draw, sn_request_count = 0, sn_client = bc, sn_profile = profile\<rparr>, st), w1))"

subsection \<open>Requests\<close>

text \<open>The headers of a request. The map is the caller's own, so the caller sees the entry afterwards.\<close>

definition session_headers :: "browser_profile \<Rightarrow> header_map option \<Rightarrow> header_map" where
  "session_headers p headers =
     (let h = (case headers of None \<Rightarrow> (\<lambda>k. None) | Some h \<Rightarrow> h)
      in if h ''user-agent'' = None then h(''user-agent'' \<mapsto> bp_user_agent p) else h)"

definition session_do ::
    "time \<Rightarrow> string \<Rightarrow> string \<Rightarrow> header_map option \<Rightarrow> string option \<Rightarrow> 'w session \<Rightarrow> 'w client_state \<Rightarrow>
     'w session \<times> (do_result \<times> http_request \<times> 'w client_state) option"
where
  "session_do now method url headers body s st =
     (let h = session_headers (sn_profile s) headers;
          s1 = s\<lparr>sn_last_used := now, sn_request_count := sn_request_count s + 1\<rparr>
      in (s1, client_do (sn_client s1) method url (Some h) body st))"

text \<open>The accessors.\<close>

definition session_client :: "'w session \<Rightarrow> 'w browser_client" where
  "session_client s = sn_client s"

definition session_profile :: "'w session \<Rightarrow> browser_profile" where
  "session_profile s = sn_profile s"

definition session_request_count :: "'w session \<Rightarrow> int" where
  "session_request_count s = sint (sn_request_count s)"

definition session_last_used :: "'w session \<Rightarrow> time" where
  "session_last_used s = sn_last_used s"

definition session_age :: "time \<Rightarrow> 'w session \<Rightarrow> duration" where
  "session_age now s = time_sub now (sn_created_at s)"

definition session_idle_time :: "time \<Rightarrow> 'w session \<Rightarrow> duration" where
  "session_idle_time now s = time_sub now (sn_last_used s)"

subsection \<open>The store\<close>

record session_data =
  sd_id :: string
  sd_created_at :: time
  sd_last_used :: time
  sd_request_count :: "64 word"
  sd_profile :: browser_profile

definition to_data :: "'w session \<Rightarrow> session_data" where
  "to_data s =
     \<lparr>sd_id = sn_id s, sd_created_at = sn_created_at s, sd_last_used = sn_last_used s,
      sd_request_count = sn_request_count s, sd_profile = sn_profile s\<rparr>"

text \<open>A directory entry is a name and whether it is a directory.\<close>

record 'w file_ops =
  fo_mkdir_all :: "string \<Rightarrow> 'w \<Rightarrow> go_error option \<times> 'w"
  fo_write_file :: "string \<Rightarrow> string \<Rightarrow> 'w \<Rightarrow> go_error option \<times> 'w"
  fo_read_file :: "string \<Rightarrow> 'w \<Rightarrow> go_error + string"
  fo_read_dir :: "string \<Rightarrow> 'w \<Rightarrow> go_error + (string \<times> bool) list"
  fo_remove :: "string \<Rightarrow> 'w \<Rightarrow> go_error option \<times> 'w"
  fo_not_exist :: "go_error \<Rightarrow> bool"
  fo_marshal :: "session_data \<Rightarrow> go_error + string"
  fo_unmarshal :: "string \<Rightarrow> go_error + session_data"

record file_store =
  st_dir :: string

definition new_file_store :: "'w file_ops \<Rightarrow> string \<Rightarrow> 'w \<Rightarrow> (go_error + file_store) \<times> 'w" where
  "new_file_store fo dir w =
     (case fo_mkdir_all fo dir w of
        (Some e, w1) \<Rightarrow> (Inl (labelled ''create session dir: '' e), w1)
      | (None, w1) \<Rightarrow> (Inr \<lparr>st_dir = dir\<rparr>, w1))"

definition store_path :: "file_store \<Rightarrow> string \<Rightarrow> string" where
  "store_path st i = path_join [st_dir st, i @ ''.json'']"

definition store_save :: "'w file_ops \<Rightarrow> file_store \<Rightarrow> 'c session \<Rightarrow> 'w \<Rightarrow> go_error option \<times> 'w" where
  "store_save fo st s w =
     (case fo_marshal fo (to_data s) of
        Inl e \<Rightarrow> (Some (labelled ''marshal session: '' e), w)
      | Inr b \<Rightarrow>
          (case fo_write_file fo (store_path st (sn_id s)) b w of
             (Some e, w1) \<Rightarrow> (Some (labelled ''write session: '' e), w1)
           | (None, w1) \<Rightarrow> (None, w1)))"

definition store_load ::
    "'w file_ops \<Rightarrow> ('w, 'j, 'p, 't) client_env \<Rightarrow> session_draw \<Rightarrow> file_store \<Rightarrow> string \<Rightarrow> 'w \<Rightarrow>
     ((go_error + 'w session \<times> 'w client_state) \<times> 'w) option"
where
  "store_load fo env draw st i w =
     (case fo_read_file fo (store_path st i) w of
        Inl e \<Rightarrow> Some (Inl (labelled ''read session: '' e), w)
      | Inr b \<Rightarrow>
          (case fo_unmarshal fo b of
             Inl e \<Rightarrow> Some (Inl (labelled ''unmarshal session: '' e), w)
           | Inr d \<Rightarrow>
               (case new_session env draw [SessionProfile (sd_profile d)] w of
                  None \<Rightarrow> None
                | Some (Inl e, w1) \<Rightarrow> Some (Inl (labelled ''rebuild session: '' e), w1)
                | Some (Inr (s, cst), w1) \<Rightarrow>
                    Some (Inr (s\<lparr>sn_id := sd_id d, sn_created_at := sd_created_at d, sn_last_used := sd_last_used d,
                                 sn_request_count := sd_request_count d\<rparr>, cst), w1))))"

definition store_list :: "'w file_ops \<Rightarrow> file_store \<Rightarrow> 'w \<Rightarrow> go_error + string list" where
  "store_list fo st w =
     (case fo_read_dir fo (st_dir st) w of
        Inl e \<Rightarrow> Inl (labelled ''list sessions: '' e)
      | Inr es \<Rightarrow>
          Inr (map (\<lambda>(name, is_dir). take (length name - 5) name)
                 (filter (\<lambda>(name, is_dir). \<not> is_dir \<and> path_ext name = ''.json'') es)))"

definition store_delete :: "'w file_ops \<Rightarrow> file_store \<Rightarrow> string \<Rightarrow> 'w \<Rightarrow> go_error option \<times> 'w" where
  "store_delete fo st i w =
     (case fo_remove fo (store_path st i) w of
        (Some e, w1) \<Rightarrow> if fo_not_exist fo e then (None, w1) else (Some (labelled ''delete session: '' e), w1)
      | (None, w1) \<Rightarrow> (None, w1))"

subsection \<open>One browser\<close>

fun names_browser :: "('w, 'j, 'p) client_option \<Rightarrow> bool" where
  "names_browser (WithProfile p) = True"
| "names_browser (WithIdentity i) = True"
| "names_browser _ = False"

lemma apply_option_browser:
  "\<not> names_browser opt \<Longrightarrow>
     cc_profile (apply_option oe opt c) = cc_profile c \<and> cc_identity (apply_option oe opt c) = cc_identity c"
  by (cases opt) (auto simp: option_defs Let_def split: sum.split prod.split)

lemma options_browser:
  "list_all (\<lambda>x. \<not> names_browser x) opts \<Longrightarrow>
     cc_profile (fold (apply_option oe) opts c) = cc_profile c \<and> cc_identity (fold (apply_option oe) opts c) = cc_identity c"
  by (induction opts arbitrary: c) (simp_all add: apply_option_browser)

lemma resolve_identity_tls: "cc_identity c = None \<Longrightarrow> bp_tls_profile (id_profile (resolve_identity c)) = cc_profile c"
  by (auto simp: resolve_identity_def Let_def zero_profile_def bp_def dest: profile_for_tls_name split: option.split)

lemma session_identity:
  assumes "list_all (\<lambda>x. \<not> names_browser x) opts" "bp_tls_profile p \<noteq> []"
  shows "bp_tls_profile (id_profile (resolve_identity (configure ge oe (session_client_opts p opts)))) = bp_tls_profile p"
  using assms
  by (simp add: resolve_identity_tls configure_def session_client_opts_def options_browser option_defs default_config_def)

lemma new_client_identity:
  assumes "new_client env opts w = Some (Inr (bc, st), w1)"
  shows "cl_identity bc = resolve_identity (configure (ce_guards env) (ce_options env) opts)"
  using assms by (auto simp: new_client_def Let_def client_of_def split: if_splits option.splits sum.splits prod.splits)

lemma platform_profile_tls:
  assumes "\<And>n. 0 < n \<Longrightarrow> intn n < n"
  shows "bp_tls_profile (platform_matched_profile goos intn) \<noteq> []"
proof -
  have intn: "\<forall>n > 0. intn n < n" using assms by blast
  have "list_all (\<lambda>p. bp_tls_profile p \<noteq> []) builtin_profiles" "builtin_profiles \<noteq> []"
    by (simp_all add: builtin_profiles_def bp_def)
  then have tls: "p \<in> set builtin_profiles \<Longrightarrow> bp_tls_profile p \<noteq> []"
    and any: "builtin_profiles ! intn (length builtin_profiles) \<in> set builtin_profiles" for p
    using intn by (simp_all add: list_all_iff)
  have "list_all (\<lambda>os. pick_profiles (filter_of [with_os os, with_mobile False]) \<noteq> []) [''windows'', ''macos'', ''linux'']"
    by code_simp
  then have "random_profile intn [with_os os, with_mobile False] \<in> set builtin_profiles"
    if "os \<in> {''windows'', ''macos'', ''linux''}" for os
    using random_profile_picked(1) [OF intn, of "[with_os os, with_mobile False]"] that pick_in_table
    by (simp only: list_all_iff set_simps insert_iff empty_iff) blast
  then show ?thesis using tls any by (simp add: platform_matched_profile_def)
qed

lemma new_session_cases:
  assumes "new_session env draw opts w = Some (Inr (s, st), w')"
  shows "sn_id s = generate_id (dw_bytes draw) \<and> sn_created_at s = dw_created draw \<and> sn_last_used s = dw_used draw \<and>
    sn_request_count s = 0 \<and> sn_profile s = session_profile_of draw (sg_profile (session_config_of opts)) \<and>
    new_client env (session_client_opts (sn_profile s) (sg_client_opts (session_config_of opts))) w = Some (Inr (sn_client s, st), w')"
  using assms by (auto simp: new_session_def Let_def split: option.splits sum.splits prod.splits)

text \<open>A number of requests in a row.\<close>

record session_call =
  sk_now :: time
  sk_method :: string
  sk_url :: string
  sk_headers :: "header_map option"
  sk_body :: "string option"

fun session_run :: "session_call list \<Rightarrow> 'w session \<Rightarrow> 'w client_state \<Rightarrow> ('w session \<times> 'w client_state) option" where
  "session_run [] s st = Some (s, st)"
| "session_run (c # cs) s st =
     (case session_do (sk_now c) (sk_method c) (sk_url c) (sk_headers c) (sk_body c) s st of
        (s1, None) \<Rightarrow> None
      | (s1, Some (r, q, st1)) \<Rightarrow> session_run cs s1 st1)"

lemma session_run_fields:
  "session_run calls s st = Some (s', st') \<Longrightarrow>
     s' = s\<lparr>sn_request_count := sn_request_count s + word_of_nat (length calls),
            sn_last_used := last (sn_last_used s # map sk_now calls)\<rparr>"
proof (induction calls arbitrary: s st)
  case (Cons c cs)
  then obtain r q st1 where
    "session_run cs (s\<lparr>sn_last_used := sk_now c, sn_request_count := sn_request_count s + 1\<rparr>) st1 = Some (s', st')"
    by (auto simp: session_do_def Let_def split: option.splits prod.splits)
  from Cons.IH [OF this] show ?case by simp
qed simp

text \<open>The User-Agent a request is to carry: the caller's, if there is one, or the profile's.\<close>

definition user_agent_of :: "browser_profile \<Rightarrow> header_map option \<Rightarrow> string" where
  "user_agent_of p headers =
     (case headers of
        None \<Rightarrow> bp_user_agent p
      | Some h \<Rightarrow> (case h ''user-agent'' of None \<Rightarrow> bp_user_agent p | Some v \<Rightarrow> v))"

definition plain_headers :: "header_map option \<Rightarrow> bool" where
  "plain_headers headers \<longleftrightarrow>
     (case headers of
        None \<Rightarrow> True
      | Some h \<Rightarrow> finite (dom h) \<and> (\<forall>k. canonical_key k = ''User-Agent'' \<longrightarrow> k = ''user-agent'' \<or> h k = None))"

lemma session_carries:
  "plain_headers headers \<Longrightarrow>
     carries_user_agent (user_agent_of p headers) (make_request m u (Some (session_headers p headers)) b)"
  using canonical_user_agent
  by (auto simp: plain_headers_def user_agent_of_def carries_user_agent_def session_headers_def make_request_def Let_def
      split: option.splits)

lemma new_client_middlewares:
  assumes "new_client env opts w = Some (Inr (bc, st), w1)"
  shows "cl_middlewares bc = initial_middlewares env (configure (ce_guards env) (ce_options env) opts)"
  using assms by (auto simp: new_client_def Let_def client_of_def split: if_splits option.splits sum.splits prod.splits)

lemma session_sends:
  assumes "cl_doer (sn_client s) = tls_client_doer benv c" "cl_middlewares (sn_client s) = initial_middlewares env cfg"
    and "fair_range benv" "plain_headers headers"
    and "\<And>g wq w. wq_header wq ''User-Agent'' = Some [user_agent_of (sn_profile s) headers] \<Longrightarrow> f g wq w = tc_do c g wq w"
  shows "snd (session_do now m u headers b (s\<lparr>sn_client := with_library benv (c\<lparr>tc_do := f\<rparr>) (sn_client s)\<rparr>) st) =
    snd (session_do now m u headers b s st)"
  using client_sends_user_agent [OF assms(1-3), of "user_agent_of (sn_profile s) headers" f] assms(5) session_carries [OF assms(4)]
  by (simp add: session_do_def Let_def)

text \<open>C18: a session is one browser, from its creation through every request. Take a session on the
  tls-client backend made with no client option that names a browser, and any sequence of requests that
  return. Its id is the hexadecimal text of the random bytes, its profile names a TLS profile, and its
  client, built with that profile, keeps it; the request count is the number of requests modulo $2^{64}$
  and the last use the time of the last of them. And every request the library is given carries the
  profile's User-Agent, or the caller's own under the key user-agent: what the library does with any
  other request makes no difference, whatever middlewares, proxies and retries the options ask for.
  The caller's map has no other capitalisation of the key; with one, chance decides.\<close>

theorem session_is_one_browser:
  assumes new: "new_session env draw opts w = Some (Inr (s, st), w')"
    and opts: "list_all (\<lambda>x. \<not> names_browser x) (sg_client_opts (session_config_of opts))"
    and intn: "\<And>n. 0 < n \<Longrightarrow> dw_intn draw n < n"
    and doer: "cl_doer (sn_client s) = tls_client_doer benv c" and range: "fair_range benv"
    and run: "session_run calls s st = Some (s1, st1)"
  shows "sn_id s1 = hex_encode (dw_bytes draw) \<and> sn_profile s1 = sn_profile s \<and> bp_tls_profile (sn_profile s1) \<noteq> [] \<and>
    bp_tls_profile (id_profile (cl_identity (sn_client s1))) = bp_tls_profile (sn_profile s1) \<and>
    sn_request_count s1 = word_of_nat (length calls) \<and> sn_last_used s1 = last (dw_used draw # map sk_now calls) \<and>
    (\<forall>f now m u headers b. plain_headers headers \<and>
       (\<forall>g wq w. wq_header wq ''User-Agent'' = Some [user_agent_of (sn_profile s) headers] \<longrightarrow> f g wq w = tc_do c g wq w) \<longrightarrow>
       snd (session_do now m u headers b (s1\<lparr>sn_client := with_library benv (c\<lparr>tc_do := f\<rparr>) (sn_client s1)\<rparr>) st1) =
       snd (session_do now m u headers b s1 st1))"
proof -
  note made = new_session_cases [OF new] and ran = session_run_fields [OF run]
  have tls: "bp_tls_profile (sn_profile s) \<noteq> []"
    using made platform_profile_tls [OF intn] by (simp add: session_profile_of_def split: option.split)
  have id: "bp_tls_profile (id_profile (cl_identity (sn_client s))) = bp_tls_profile (sn_profile s)"
    using made new_client_identity session_identity [OF opts tls] by metis
  have mws: "cl_middlewares (sn_client s1) = initial_middlewares env (configure (ce_guards env) (ce_options env)
      (session_client_opts (sn_profile s) (sg_client_opts (session_config_of opts))))"
    using made new_client_middlewares ran by fastforce
  have "cl_doer (sn_client s1) = tls_client_doer benv c" "sn_profile s1 = sn_profile s" using doer ran by simp_all
  then have sends: "\<forall>f now m u headers b. plain_headers headers \<and>
       (\<forall>g wq w. wq_header wq ''User-Agent'' = Some [user_agent_of (sn_profile s) headers] \<longrightarrow> f g wq w = tc_do c g wq w) \<longrightarrow>
       snd (session_do now m u headers b (s1\<lparr>sn_client := with_library benv (c\<lparr>tc_do := f\<rparr>) (sn_client s1)\<rparr>) st1) =
       snd (session_do now m u headers b s1 st1)"
    using session_sends [OF _ mws range] by metis
  show ?thesis using made ran tls id sends by (simp add: generate_id_def)
qed

text \<open>A library that answers every request with an error, a range in the order of the keys, and a session that
  makes one request.\<close>

definition demo_library :: "unit tls_world tls_http_client" where
  "demo_library =
     \<lparr>tc_do = (\<lambda>g q w. (Inl ErrCanceled, None, w)), tc_set_proxy = (\<lambda>g u w. (None, w)), tc_cookies = (\<lambda>u w. []),
      tc_close = (\<lambda>w. w), tc_close_idle = (\<lambda>w. w)\<rparr>"

definition demo_backend_env :: "string backend_env" where
  "demo_backend_env =
     \<lparr>bn_new_request = (\<lambda>m u. None), bn_range = (\<lambda>h. map (\<lambda>k. (k, the (h k))) (sorted_list_of_set (dom h))),
      bn_codecs = frame_codecs, bn_parse = (\<lambda>u. Inl ErrCanceled)\<rparr>"

lemma demo_range: "fair_range demo_backend_env"
  by (auto simp: fair_range_def demo_backend_env_def ranges_over_def comp_def fun_eq_iff map_of_map_restrict restrict_map_def)
    (metis option.exhaust)

definition demo_session_guards :: "unit tls_world guard_env" where
  "demo_session_guards = \<lparr>ge_resolver = (\<lambda>w h. Inl (NetDNSError h False)), ge_ip_str = (\<lambda>ip. [])\<rparr>"

definition demo_session_options :: "(unit tls_world, unit, unit) option_env" where
  "demo_session_options =
     \<lparr>oe_std_backend = (\<lambda>c w. (Inl ErrCanceled, w)), oe_webshare = (\<lambda>k cs. Inl ErrCanceled),
      oe_webshare_rotating = (\<lambda>u p cs. Inl ErrCanceled)\<rparr>"

definition demo_session_env :: "(unit tls_world, unit, unit, unit) client_env" where
  "demo_session_env =
     \<lparr>ce_guards = demo_session_guards, ce_options = demo_session_options,
      ce_tls_backend = (\<lambda>c w. (Inr (tls_client_doer demo_backend_env demo_library), w)),
      ce_parse = (\<lambda>u. Inl ErrCanceled), ce_lookup_addr = (\<lambda>w h. Inl ErrCanceled), ce_pause = (\<lambda>w. w),
      ce_from_env = (\<lambda>t u. Inr t), ce_ox_cookies = (\<lambda>s. \<lparr>cp_get = (\<lambda>d w. ([], w)), cp_solve = (\<lambda>d c w. (Inr [], w))\<rparr>),
      ce_fetch_smart = (\<lambda>c u w. (Inl ErrCanceled, w))\<rparr>"

definition demo_world :: "unit tls_world" where
  "demo_world = \<lparr>tw_proxy = [], tw_lib = ()\<rparr>"

definition demo_draw :: session_draw where
  "demo_draw = \<lparr>dw_goos = ''linux'', dw_intn = (\<lambda>n. 0), dw_bytes = [CHR 0x1F, CHR 0xA0], dw_created = 1, dw_used = 2\<rparr>"

definition demo_call :: session_call where
  "demo_call = \<lparr>sk_now = 9, sk_method = ''GET'', sk_url = ''u'', sk_headers = None, sk_body = None\<rparr>"

lemma demo_session:
  "\<exists>s st s1 st1. new_session demo_session_env demo_draw [] demo_world = Some (Inr (s, st), demo_world) \<and>
     cl_doer (sn_client s) = tls_client_doer demo_backend_env demo_library \<and> session_run [demo_call] s st = Some (s1, st1)"
proof -
  define tls where "tls = bp_tls_profile (platform_matched_profile ''linux'' (\<lambda>n. 0))"
  have tls: "tls \<noteq> []" unfolding tls_def by (rule platform_profile_tls)
  define cfg where "cfg = (default_config demo_session_guards :: (unit tls_world, unit, unit) client_config)
    \<lparr>cc_profile := tls, cc_follow_redirects := True\<rparr>"
  have cfg: "configure demo_session_guards demo_session_options (session_client_opts (platform_matched_profile ''linux'' (\<lambda>n. 0)) []) = cfg"
    using tls by (simp add: configure_def session_client_opts_def option_defs cfg_def default_config_def flip: tls_def)
  define st where "st = \<lparr>cs_world = demo_world, cs_allow = Some empty_allowance, cs_closed = False, cs_close_err = None\<rparr>"
  define bc where "bc = client_of demo_session_env cfg (tls_client_doer demo_backend_env demo_library)"
  have env: "ce_guards demo_session_env = demo_session_guards" "ce_options demo_session_env = demo_session_options"
    "ce_tls_backend demo_session_env c w = (Inr (tls_client_doer demo_backend_env demo_library), w)"
    "ce_parse demo_session_env u = Inl ErrCanceled" for c w u
    by (simp_all add: demo_session_env_def)
  have fields: "cc_build_errors cfg = []" "\<not> cc_fetch_mode cfg" "cc_dial_control cfg = Some (builtin_dial demo_session_guards)"
    "cc_proxy_url cfg = []" "cc_backend cfg = None"
    by (simp_all add: cfg_def default_config_def)
  have made: "new_client demo_session_env (session_client_opts (platform_matched_profile ''linux'' (\<lambda>n. 0)) []) demo_world =
      Some (Inr (bc, st), demo_world)"
    by (simp add: new_client_def env cfg fields new_proxy_allowance_def resolve_proxy_endpoint_def parse_ok_def bc_def st_def)
  then have s: "\<exists>s. new_session demo_session_env demo_draw [] demo_world = Some (Inr (s, st), demo_world) \<and> sn_client s = bc"
    by (simp add: new_session_def session_config_of_def session_profile_of_def demo_draw_def Let_def)
  have does: "\<exists>r q st1. client_do bc ''GET'' ''u'' (Some h) None st = Some (r, q, st1)" for h
    by (simp add: client_do_def do_with_retry_def max_attempts_def rotate_proxy_def build_handler_def base_handler_def
        make_request_def Let_def bc_def client_of_def cfg_def default_config_def initial_middlewares_def
        demo_session_env_def)
  have "\<exists>s1 st1. session_run [demo_call] s st = Some (s1, st1)" if "sn_client s = bc" for s
    using does [of "session_headers (sn_profile s) None"] that by (auto simp: session_do_def Let_def demo_call_def)
  then show ?thesis using s by (auto simp: bc_def client_of_def)
qed

theorem session_is_one_browser_witness:
  "\<exists>s st s1 st1. new_session demo_session_env demo_draw [] demo_world = Some (Inr (s, st), demo_world) \<and>
     session_run [demo_call] s st = Some (s1, st1) \<and> sn_id s1 = ''1fa0'' \<and> sn_request_count s1 = 1"
proof -
  obtain s st s1 st1 where made: "new_session demo_session_env demo_draw [] demo_world = Some (Inr (s, st), demo_world)"
    and doer: "cl_doer (sn_client s) = tls_client_doer demo_backend_env demo_library"
    and run: "session_run [demo_call] s st = Some (s1, st1)"
    using demo_session by blast
  have "sn_id s1 = hex_encode (dw_bytes demo_draw) \<and> sn_request_count s1 = word_of_nat (length [demo_call])"
    using session_is_one_browser [OF made _ _ doer demo_range run] by (simp add: session_config_of_def demo_draw_def)
  moreover have "hex_encode [CHR 0x1F, CHR 0xA0] = ''1fa0''" by code_simp
  ultimately show ?thesis using made run by (auto simp: demo_draw_def)
qed

subsection \<open>The store is a map\<close>

text \<open>What the store relies on: the files of a directory are a map from paths to contents, seen through
  \<open>view\<close>, and a directory lists the names of its files. This idealises the package \<^verbatim>\<open>os\<close>: two
  paths never name one file, and a file that exists can be read.\<close>

definition files_agree :: "'w file_ops \<Rightarrow> ('w \<Rightarrow> string \<Rightarrow> string option) \<Rightarrow> bool" where
  "files_agree fo view \<longleftrightarrow>
     (\<forall>p b w w'. fo_write_file fo p b w = (None, w') \<longrightarrow> view w' = (view w)(p \<mapsto> b)) \<and>
     (\<forall>p b w. fo_read_file fo p w = Inr b \<longleftrightarrow> view w p = Some b) \<and>
     (\<forall>p w w'. fo_remove fo p w = (None, w') \<longrightarrow> view w' = (view w)(p := None)) \<and>
     (\<forall>p w e w'. fo_remove fo p w = (Some e, w') \<and> fo_not_exist fo e \<longrightarrow> view w' = view w \<and> view w p = None) \<and>
     (\<forall>d w es. fo_read_dir fo d w = Inr es \<longrightarrow> (\<forall>(n, b)\<in>set es. plain_name n) \<and>
        (\<forall>n. plain_name n \<longrightarrow> ((n, False) \<in> set es \<longleftrightarrow> view w (path_join [d, n]) \<noteq> None)))"

definition stored :: "'w file_ops \<Rightarrow> ('w \<Rightarrow> string \<Rightarrow> string option) \<Rightarrow> file_store \<Rightarrow> 'w \<Rightarrow> string \<Rightarrow> session_data option" where
  "stored fo view st w i =
     (if CHR ''/'' \<in> set i then None
      else case view w (store_path st i) of
             None \<Rightarrow> None
           | Some b \<Rightarrow> (case fo_unmarshal fo b of Inl e \<Rightarrow> None | Inr d \<Rightarrow> Some d))"

lemma file_name_plain: "CHR ''/'' \<notin> set i \<Longrightarrow> plain_name (i @ ''.json'')"
  by (auto simp: plain_name_def append_eq_Cons_conv)

lemma store_path_inj:
  "CHR ''/'' \<notin> set i \<Longrightarrow> CHR ''/'' \<notin> set j \<Longrightarrow> store_path st i = store_path st j \<longleftrightarrow> i = j"
  by (simp add: store_path_def path_join_name_inj file_name_plain)

lemma json_name: "path_ext name = ''.json'' \<longleftrightarrow> (\<exists>i. name = i @ ''.json'')"
proof
  assume ext: "path_ext name = ''.json''"
  define tail where "tail = takeWhile (\<lambda>c. c \<noteq> CHR ''/'' \<and> c \<noteq> CHR ''.'') (rev name)"
  have name: "rev name = tail @ drop (length tail) (rev name)" 
  proof -
    have "take (length tail) (rev name) = tail" unfolding tail_def by (rule takeWhile_eq_take [symmetric])
    then show ?thesis using append_take_drop_id [of "length tail" "rev name"] by argo
  qed
  obtain cs where cs: "drop (length tail) (rev name) = CHR ''.'' # cs" "rev tail = ''json''"
    using ext by (auto simp: path_ext_def Let_def simp flip: tail_def split: list.splits if_splits)
  from name cs(1) have "rev name = tail @ CHR ''.'' # cs" by simp
  from arg_cong [OF this, of rev] have "name = rev cs @ CHR ''.'' # ''json''" using cs(2) by simp
  then show "\<exists>i. name = i @ ''.json''" by auto
qed (auto simp: path_ext_def Let_def)

lemma stored_update:
  assumes "files_agree fo view" "CHR ''/'' \<notin> set i"
    and "view w' = (view w)(store_path st i := x)"
  shows "stored fo view st w' =
    (stored fo view st w)(i := (case x of None \<Rightarrow> None | Some b \<Rightarrow> (case fo_unmarshal fo b of Inl e \<Rightarrow> None | Inr d \<Rightarrow> Some d)))"
  using assms(2) by (auto simp: fun_eq_iff stored_def assms(3) store_path_inj)

lemma store_list_ids:
  assumes "files_agree fo view" "store_list fo st w = Inr ids"
  shows "set ids = {i. CHR ''/'' \<notin> set i \<and> view w (store_path st i) \<noteq> None}"
proof -
  obtain es where es: "fo_read_dir fo (st_dir st) w = Inr es"
    and ids: "ids = map (\<lambda>(name, is_dir). take (length name - 5) name)
                 (filter (\<lambda>(name, is_dir). \<not> is_dir \<and> path_ext name = ''.json'') es)"
    using assms(2) by (auto simp: store_list_def split: sum.splits)
  have "i \<in> set ids \<longleftrightarrow> (i @ ''.json'', False) \<in> set es" for i
    unfolding ids by (force simp: json_name image_iff)
  moreover have "CHR ''/'' \<notin> set i" if entry: "(i @ ''.json'', False) \<in> set es" for i
    using assms(1) es entry by (fastforce simp: files_agree_def plain_name_def)
  moreover have "(i @ ''.json'', False) \<in> set es \<longleftrightarrow> view w (store_path st i) \<noteq> None" if plain: "CHR ''/'' \<notin> set i" for i
    using assms(1) es file_name_plain [OF plain] unfolding store_path_def files_agree_def by meson
  ultimately show ?thesis by blast
qed

text \<open>C19: the file store implements a map from ids to what is saved of a session. Take a file system whose
  files are such a map, a codec that reads back what it wrote, and ids without a slash, which every
  generated id is. Saving updates the map at the session's id with the session's data, deleting removes
  the id and is content if there is no file, the list is exactly the ids that have a file, and a session
  that loads has exactly the data saved under the id, its profile included, with a client of its own.\<close>

theorem store_implements_map:
  assumes files: "files_agree fo view"
    and codec: "\<And>d b. fo_marshal fo d = Inr b \<Longrightarrow> fo_unmarshal fo b = Inr d"
    and ids: "CHR ''/'' \<notin> set (sn_id s)" "CHR ''/'' \<notin> set i"
  shows "(store_save fo st s w = (None, w1) \<longrightarrow> stored fo view st w1 = (stored fo view st w)(sn_id s \<mapsto> to_data s)) \<and>
    (store_delete fo st i w = (None, w2) \<longrightarrow> stored fo view st w2 = (stored fo view st w)(i := None)) \<and>
    (store_list fo st w = Inr ids \<longrightarrow> dom (stored fo view st w) \<subseteq> set ids \<and>
       set ids = {i. CHR ''/'' \<notin> set i \<and> view w (store_path st i) \<noteq> None}) \<and>
    (store_load fo env draw st i w = Some (Inr (s', cst), w3) \<longrightarrow>
       (case stored fo view st w i of
          None \<Rightarrow> False
        | Some d \<Rightarrow> bp_tls_profile (sd_profile d) = [] \<or> to_data s' = d))"
proof (intro conjI impI)
  assume "store_save fo st s w = (None, w1)"
  then obtain b where b: "fo_marshal fo (to_data s) = Inr b" "fo_write_file fo (store_path st (sn_id s)) b w = (None, w1)"
    by (auto simp: store_save_def split: sum.splits prod.splits option.splits)
  then have "view w1 = (view w)(store_path st (sn_id s) := Some b)" using files by (simp add: files_agree_def)
  then show "stored fo view st w1 = (stored fo view st w)(sn_id s \<mapsto> to_data s)"
    using stored_update [OF files ids(1)] codec [OF b(1)] by simp
next
  assume "store_delete fo st i w = (None, w2)"
  then have "view w2 = (view w)(store_path st i := None)"
    using files unfolding store_delete_def files_agree_def
    by (fastforce split: prod.splits option.splits if_splits)
  then show "stored fo view st w2 = (stored fo view st w)(i := None)"
    using stored_update [OF files ids(2)] by simp
next
  assume l: "store_list fo st w = Inr ids"
  then show "set ids = {i. CHR ''/'' \<notin> set i \<and> view w (store_path st i) \<noteq> None}" by (rule store_list_ids [OF files])
  then show "dom (stored fo view st w) \<subseteq> set ids" by (auto simp: stored_def split: if_splits option.splits)
next
  assume l: "store_load fo env draw st i w = Some (Inr (s', cst), w3)"
  then obtain b d s0 where b: "fo_read_file fo (store_path st i) w = Inr b" "fo_unmarshal fo b = Inr d"
    and new: "new_session env draw [SessionProfile (sd_profile d)] w = Some (Inr (s0, cst), w3)"
    and s': "s' = s0\<lparr>sn_id := sd_id d, sn_created_at := sd_created_at d, sn_last_used := sd_last_used d,
                    sn_request_count := sd_request_count d\<rparr>"
    by (auto simp: store_load_def split: sum.splits option.splits prod.splits)
  have "view w (store_path st i) = Some b" using files b(1) by (simp add: files_agree_def)
  then have "stored fo view st w i = Some d" using b(2) ids(2) by (simp add: stored_def)
  moreover have "to_data s' = d" if "bp_tls_profile (sd_profile d) \<noteq> []"
    using new_session_cases [OF new] that by (simp add: s' to_data_def session_config_of_def session_profile_of_def)
  ultimately show "case stored fo view st w i of None \<Rightarrow> False
        | Some d \<Rightarrow> bp_tls_profile (sd_profile d) = [] \<or> to_data s' = d" by auto
qed

text \<open>A file system that is a list of paths with their contents, the newest first, and a codec for one
  session's data.\<close>

definition demo_data :: session_data where
  "demo_data = \<lparr>sd_id = ''1fa0'', sd_created_at = 1, sd_last_used = 9, sd_request_count = 1, sd_profile = zero_profile\<rparr>"

definition dir_entry :: "string \<Rightarrow> string \<Rightarrow> (string \<times> bool) list" where
  "dir_entry d p =
     (let n = last (clean_components p) in if plain_name n \<and> path_join [d, n] = p then [(n, False)] else [])"

definition demo_files :: "(string \<times> string) list file_ops" where
  "demo_files =
     \<lparr>fo_mkdir_all = (\<lambda>p w. (None, w)), fo_write_file = (\<lambda>p b w. (None, (p, b) # w)),
      fo_read_file = (\<lambda>p w. case map_of w p of None \<Rightarrow> Inl ErrCanceled | Some b \<Rightarrow> Inr b),
      fo_read_dir = (\<lambda>d w. Inr (concat (map (\<lambda>(p, b). dir_entry d p) w))),
      fo_remove = (\<lambda>p w. if map_of w p = None then (Some ErrCanceled, w) else (None, filter (\<lambda>(q, b). q \<noteq> p) w)),
      fo_not_exist = (\<lambda>e. True),
      fo_marshal = (\<lambda>d. if d = demo_data then Inr ''json'' else Inl ErrCanceled), fo_unmarshal = (\<lambda>b. Inr demo_data)\<rparr>"

lemma dir_entry_iff: "plain_name n \<Longrightarrow> (n, False) \<in> set (dir_entry d p) \<longleftrightarrow> p = path_join [d, n]"
  by (auto simp: dir_entry_def Let_def path_join_components)

lemma dir_entry_plain: "(n, b) \<in> set (dir_entry d p) \<Longrightarrow> plain_name n"
  by (auto simp: dir_entry_def Let_def split: if_splits)

lemma demo_files_agree: "files_agree demo_files map_of"
proof -
  have removed: "map_of (filter (\<lambda>(q, b). q \<noteq> p) w) = (map_of w)(p := None)" for p and w :: "(string \<times> string) list"
    by (induction w) (auto simp: fun_eq_iff)
  have listed: "(n, False) \<in> set (concat (map (\<lambda>(p, b). dir_entry d p) w)) \<longleftrightarrow> map_of w (path_join [d, n]) \<noteq> None"
    if n: "plain_name n" for d n and w :: "(string \<times> string) list"
    by (induction w) (auto simp: dir_entry_iff [OF n])
  have plain: "\<forall>(n, b)\<in>set (concat (map (\<lambda>(p, b). dir_entry d p) w)). plain_name n" for d and w :: "(string \<times> string) list"
    by (auto dest: dir_entry_plain)
  show ?thesis unfolding files_agree_def
  proof (intro conjI allI impI)
    fix d and w :: "(string \<times> string) list" and es n
    assume "fo_read_dir demo_files d w = Inr es"
    then have es: "es = concat (map (\<lambda>(p, b). dir_entry d p) w)" by (simp add: demo_files_def)
    show "\<forall>(n, b)\<in>set es. plain_name n" unfolding es by (rule plain)
    show "(n, False) \<in> set es \<longleftrightarrow> map_of w (path_join [d, n]) \<noteq> None" if "plain_name n"
      unfolding es by (rule listed [OF that])
  qed (auto simp: demo_files_def removed split: option.splits if_splits)
qed

lemma demo_path: "store_path \<lparr>st_dir = ''/d''\<rparr> ''1fa0'' = ''/d/1fa0.json''"
  by code_simp

theorem store_implements_map_witness:
  "stored demo_files map_of \<lparr>st_dir = ''/d''\<rparr> [(''/d/1fa0.json'', ''json'')] = [''1fa0'' \<mapsto> demo_data]"
proof -
  let ?s = "\<lparr>sn_id = ''1fa0'', sn_created_at = 1, sn_last_used = 9, sn_request_count = 1, sn_client = script_client 1,
    sn_profile = zero_profile\<rparr>"
  have data: "to_data ?s = demo_data" by (simp add: to_data_def demo_data_def)
  have "store_save demo_files \<lparr>st_dir = ''/d''\<rparr> ?s [] = (None, [(''/d/1fa0.json'', ''json'')])"
    by (simp add: store_save_def data) (simp add: demo_files_def demo_path)
  moreover have codec: "fo_unmarshal demo_files b = Inr d" if "fo_marshal demo_files d = Inr b" for d b
    using that by (simp add: demo_files_def split: if_splits)
  moreover have "stored demo_files map_of \<lparr>st_dir = ''/d''\<rparr> [] = (\<lambda>i. None)" by (simp add: fun_eq_iff stored_def)
  ultimately show ?thesis
    using store_implements_map [OF demo_files_agree codec, where s = ?s and i = "[]" and w = "[]" and st = "\<lparr>st_dir = ''/d''\<rparr>"
        and ?w1.0 = "[(''/d/1fa0.json'', ''json'')]", THEN conjunct1]
    by (simp add: data)
qed

subsection \<open>Deviations\<close>

text \<open>An id with a slash leaves the directory of the store; \<^verbatim>\<open>Load\<close> and \<^verbatim>\<open>Delete\<close> take any id.\<close>

lemma store_path_escapes: "store_path \<lparr>st_dir = ''/d''\<rparr> ''../x'' = ''/x.json''"
  by code_simp

text \<open>A session that is loaded has none of the client options it was made with.\<close>

lemma load_drops_client_options:
  assumes "store_load fo env draw st i w = Some (Inr (s, cst), w1)"
  shows "\<exists>p. new_client env [WithProfile p, WithFollowRedirects] w = Some (Inr (sn_client s, cst), w1)"
  using assms
  by (fastforce simp: store_load_def session_config_of_def session_client_opts_def
      dest!: new_session_cases split: sum.splits option.splits prod.splits)

text \<open>The client of a session on Linux describes itself as a browser on Windows: the profile of the session
  is not handed to it, only its TLS profile.\<close>

lemma session_client_other_platform:
  "bp_os (platform_matched_profile ''linux'' (\<lambda>n. 0)) = ''linux''"
  "bp_os (id_profile (resolve_identity (configure ge oe (session_client_opts (platform_matched_profile ''linux'' (\<lambda>n. 0)) [])))) = ''windows''"
proof -
  have tls: "bp_tls_profile (platform_matched_profile ''linux'' (\<lambda>n. 0)) = ''chrome_156''" by code_simp
  show "bp_os (platform_matched_profile ''linux'' (\<lambda>n. 0)) = ''linux''" by code_simp
  have "map_option bp_os (profile_for_tls ''chrome_156'') = Some ''windows''" by code_simp
  then show "bp_os (id_profile (resolve_identity (configure ge oe (session_client_opts (platform_matched_profile ''linux'' (\<lambda>n. 0)) [])))) = ''windows''"
    by (auto simp: configure_def session_client_opts_def option_defs default_config_def resolve_identity_def Let_def tls)
qed

text \<open>A caller who gives the header in its usual capitalisation has it sent, or the profile's, by chance.\<close>

lemma session_user_agent_race:
  assumes "v \<noteq> bp_user_agent p"
  shows "\<exists>kvs kvs'. ranges_over kvs (session_headers p (Some [''User-Agent'' \<mapsto> v])) \<and>
    ranges_over kvs' (session_headers p (Some [''User-Agent'' \<mapsto> v])) \<and>
    set_headers kvs (\<lambda>k. None) ''User-Agent'' = Some [v] \<and>
    set_headers kvs' (\<lambda>k. None) ''User-Agent'' = Some [bp_user_agent p]"
proof -
  have "canonical_key ''User-Agent'' = ''User-Agent''" "canonical_key ''user-agent'' = ''User-Agent''" by code_simp+
  moreover have "session_headers p (Some [''User-Agent'' \<mapsto> v]) = [''User-Agent'' \<mapsto> v, ''user-agent'' \<mapsto> bp_user_agent p]"
    by (simp add: session_headers_def)
  ultimately show ?thesis
    using colliding_headers_race [of "''User-Agent''" "''user-agent''" v "bp_user_agent p"] assms by simp
qed

end
