(* ===== verification/Site_Intel.thy ===== *)
theory Site_Intel
  imports Cloudflare Profile_Coherence
begin

text \<open>
  Intelligence about sites (\<^verbatim>\<open>src/site_intel.go\<close>): a cache from domains to the technologies
  that ox-browser finds there. \<^verbatim>\<open>Get\<close> is a lookup under the read lock and, on a miss, a
  flight of the single-flight group, which looks again, analyses and stores under the write lock. As one
  call these are composed in \<open>site_get\<close>; concurrent calls are the steps of \<open>site_step\<close>, which run
  the flight of the code, \<open>site_flight\<close>. That at most one flight per domain is under way, and others of
  the domain join it, is what the library of the group documents; it is built into the steps, not proved.
  Each clock reading is an argument; logging is left out.
\<close>

subsection \<open>The cache\<close>

definition known_wafs :: "string list" where
  "known_wafs = [''Cloudflare'', ''Akamai'', ''Sucuri'', ''Imperva'', ''AWS WAF'', ''Fastly'', ''StackPath'', ''Barracuda'', ''F5 BIG-IP'']"

record site_info =
  si_waf :: string
  si_technologies :: "analyze_tech list"
  si_fetched_at :: time

definition zero_site_info :: site_info where
  "zero_site_info = \<lparr>si_waf = [], si_technologies = [], si_fetched_at = zero_time\<rparr>"

definition has_tech :: "site_info \<Rightarrow> string \<Rightarrow> bool" where
  "has_tech si name \<longleftrightarrow> list_ex (\<lambda>t. equal_fold (tech_name t) name) (si_technologies si)"

record site_intel =
  sl_ttl :: duration
  sl_cache :: "string \<Rightarrow> site_info option"

definition new_site_intel :: site_intel where
  "new_site_intel = \<lparr>sl_ttl = hour, sl_cache = (\<lambda>d. None)\<rparr>"

definition site_lookup :: "time \<Rightarrow> string \<Rightarrow> site_intel \<Rightarrow> site_info option" where
  "site_lookup now domain si =
     (case sl_cache si domain of
        Some info \<Rightarrow> if time_sub now (si_fetched_at info) < sl_ttl si then Some info else None
      | None \<Rightarrow> None)"

text \<open>The two loops over the technologies and the known names.\<close>

fun find_waf :: "analyze_tech list \<Rightarrow> string" where
  "find_waf [] = []"
| "find_waf (t # ts) = (case find (equal_fold (tech_name t)) known_wafs of Some waf \<Rightarrow> waf | None \<Rightarrow> find_waf ts)"

definition analysed_info :: "time \<Rightarrow> analyze_response \<Rightarrow> site_info" where
  "analysed_info now resp =
     \<lparr>si_waf = find_waf (ar_technologies resp), si_technologies = ar_technologies resp, si_fetched_at = now\<rparr>"

definition site_store :: "string \<Rightarrow> site_info \<Rightarrow> site_intel \<Rightarrow> site_intel" where
  "site_store domain info si = si\<lparr>sl_cache := (sl_cache si)(domain \<mapsto> info)\<rparr>"

text \<open>The body of a flight, and a whole call; the result is the info with the error of the analysis.\<close>

definition site_flight ::
    "(string \<Rightarrow> 'w \<Rightarrow> (go_error + analyze_response) \<times> 'w) \<Rightarrow> time \<Rightarrow> time \<Rightarrow> string \<Rightarrow> string \<Rightarrow> site_intel \<Rightarrow> 'w \<Rightarrow>
     (site_info \<times> go_error option) \<times> site_intel \<times> 'w"
where
  "site_flight analyze now fetched domain raw si w =
     (case site_lookup now domain si of
        Some info \<Rightarrow> ((info, None), si, w)
      | None \<Rightarrow>
          (case analyze raw w of
             (Inl e, w1) \<Rightarrow> ((zero_site_info, Some e), si, w1)
           | (Inr resp, w1) \<Rightarrow>
               (let info = analysed_info fetched resp in ((info, None), site_store domain info si, w1))))"

definition site_get ::
    "url_parser \<Rightarrow> (string \<Rightarrow> 'w \<Rightarrow> (go_error + analyze_response) \<times> 'w) \<Rightarrow> time \<Rightarrow> time \<Rightarrow> time \<Rightarrow> string \<Rightarrow> site_intel \<Rightarrow> 'w \<Rightarrow>
     (site_info \<times> go_error option) \<times> site_intel \<times> 'w"
where
  "site_get parse analyze now now' fetched raw si w =
     (let domain = extract_host parse raw
      in case site_lookup now domain si of
           Some info \<Rightarrow> ((info, None), si, w)
         | None \<Rightarrow> site_flight analyze now' fetched domain raw si w)"

definition suggest_profile ::
    "url_parser \<Rightarrow> (string \<Rightarrow> 'w \<Rightarrow> (go_error + analyze_response) \<times> 'w) \<Rightarrow> (nat \<Rightarrow> nat) \<Rightarrow> time \<Rightarrow> time \<Rightarrow> time \<Rightarrow> string \<Rightarrow>
     site_intel \<Rightarrow> 'w \<Rightarrow> browser_profile \<times> site_intel \<times> 'w"
where
  "suggest_profile parse analyze intn now now' fetched raw si w =
     (let ((info, err), si1, w1) = site_get parse analyze now now' fetched raw si w
      in (if err \<noteq> None then random_profile intn []
          else if si_waf info = ''Cloudflare'' then random_profile intn [with_browser ''chrome'', with_mobile False]
          else if si_waf info = ''Akamai'' then random_profile intn [with_mobile False]
          else random_profile intn [], si1, w1))"

subsection \<open>Concurrent calls\<close>

text \<open>The state of a run: the cache, the flights under way, the clock and the analyses that have ended, newest first,
  each with its domain, the clock at the flight's own lookup and after its answer, and the answer. A flight has the
  clock reading of its lookup and, for the statements, what the cache held for the domain then.\<close>

type_synonym site_analysis = "time \<times> time \<times> (go_error + analyze_response)"

record site_run =
  su_intel :: site_intel
  su_flights :: "string \<Rightarrow> (time \<times> site_info option) option"
  su_now :: time
  su_log :: "(string \<times> site_analysis) list"

definition site_start :: "time \<Rightarrow> site_run" where
  "site_start now = \<lparr>su_intel = new_site_intel, su_flights = (\<lambda>d. None), su_now = now, su_log = []\<rparr>"

text \<open>A call whose own lookup has missed, however long ago, wins the flight of its domain if none is under way.
  The flight then runs \<open>site_flight\<close> over a world that records the analyses it makes. It ends in one step: in
  between, only this flight writes the entry of its domain, and flights of other domains come and go.\<close>

inductive site_step :: "site_run \<Rightarrow> site_run \<Rightarrow> bool" where
  step_tick: "su_now s \<le> now \<Longrightarrow> site_step s (s\<lparr>su_now := now\<rparr>)"
| step_fly: "su_now s \<le> now \<Longrightarrow> su_flights s d = None \<Longrightarrow>
     site_step s (s\<lparr>su_now := now, su_flights := (su_flights s)(d \<mapsto> (now, sl_cache (su_intel s) d))\<rparr>)"
| step_land: "su_flights s d = Some (began, entry) \<Longrightarrow> began \<le> fetched \<Longrightarrow> fetched \<le> now \<Longrightarrow> su_now s \<le> now \<Longrightarrow>
     site_flight (\<lambda>u lg. (r, (d, began, fetched, r) # lg)) began fetched d raw (su_intel s) (su_log s) = (res, si, lg) \<Longrightarrow>
     site_step s (s\<lparr>su_now := now, su_flights := (su_flights s)(d := None), su_intel := si, su_log := lg\<rparr>)"

inductive site_reach :: "time \<Rightarrow> site_run \<Rightarrow> bool" for now :: time where
  reach_start: "site_reach now (site_start now)"
| reach_step: "site_reach now s \<Longrightarrow> site_step s s' \<Longrightarrow> site_reach now s'"

inductive_cases site_step_cases: "site_step s s'"

definition analyses_of :: "string \<Rightarrow> site_run \<Rightarrow> site_analysis list" where
  "analyses_of d s = map snd (filter (\<lambda>x. fst x = d) (su_log s))"

text \<open>No analysis begins within an hour of an earlier one that succeeded. The newest one that succeeded.\<close>

definition hour_after_success :: "site_analysis list \<Rightarrow> bool" where
  "hour_after_success as \<longleftrightarrow>
     sorted_wrt (\<lambda>(b, f, r) (b', f', r'). case r' of Inl e \<Rightarrow> True | Inr resp \<Rightarrow> hour \<le> b - f') as"

fun newest_info :: "site_analysis list \<Rightarrow> site_info option" where
  "newest_info [] = None"
| "newest_info ((b, f, r) # as) = (case r of Inl e \<Rightarrow> newest_info as | Inr resp \<Rightarrow> Some (analysed_info f resp))"

lemma lookup_None_iff:
  assumes "sl_ttl si = hour"
  shows "site_lookup now d si = None \<longleftrightarrow>
    (case sl_cache si d of None \<Rightarrow> True | Some info \<Rightarrow> hour \<le> now - si_fetched_at info)"
proof -
  have "min_int64 < hour" "hour \<le> max_int64" by (simp_all add: time_units min_int64_def max_int64_def)
  then show ?thesis using time_sub_less_iff [of hour] by (simp add: site_lookup_def assms not_less split: option.split)
qed

text \<open>The invariant: what is cached is the newest successful analysis of its domain, analyses keep their distance to
  it, and the cache still holds for a domain what its flight found.\<close>

definition analyses_ok :: "time \<Rightarrow> site_analysis list \<Rightarrow> bool" where
  "analyses_ok now as \<longleftrightarrow> hour_after_success as \<and> list_all (\<lambda>(b, f, r). b \<le> f \<and> f \<le> now) as"

definition flight_ok :: "site_run \<Rightarrow> string \<Rightarrow> bool" where
  "flight_ok s d \<longleftrightarrow>
     (case su_flights s d of None \<Rightarrow> True | Some (began, entry) \<Rightarrow> began \<le> su_now s \<and> sl_cache (su_intel s) d = entry)"

definition site_ok :: "site_run \<Rightarrow> bool" where
  "site_ok s \<longleftrightarrow> sl_ttl (su_intel s) = hour \<and>
     (\<forall>d. analyses_ok (su_now s) (analyses_of d s) \<and> sl_cache (su_intel s) d = newest_info (analyses_of d s) \<and> flight_ok s d)"

lemma analyses_ok_later: "analyses_ok now as \<Longrightarrow> now \<le> now' \<Longrightarrow> analyses_ok now' as"
  by (fastforce simp: analyses_ok_def list_all_iff)

lemma newest_is_latest:
  assumes "analyses_ok now as" "(b, f, Inr resp) \<in> set as"
  shows "case newest_info as of None \<Rightarrow> False | Some info \<Rightarrow> f \<le> si_fetched_at info"
  using assms
proof (induction as)
  case (Cons a as)
  obtain b0 f0 r0 where a: "a = (b0, f0, r0)" by (cases a)
  show ?case
  proof (cases "a = (b, f, Inr resp)")
    case False
    then have "(b, f, Inr resp) \<in> set as" "hour \<le> b0 - f" "b0 \<le> f0" "analyses_ok now as"
      using Cons.prems a by (auto simp: analyses_ok_def hour_after_success_def)
    then show ?thesis using Cons.IH a by (cases r0) (auto simp: analysed_info_def time_units)
  qed (simp add: analysed_info_def)
qed simp

lemma analyses_ok_Cons:
  assumes "analyses_ok now as" "case newest_info as of None \<Rightarrow> True | Some info \<Rightarrow> hour \<le> b - si_fetched_at info"
    and "b \<le> f" "f \<le> now"
  shows "analyses_ok now ((b, f, r) # as)"
proof -
  have "hour \<le> b - f'" if "(b', f', Inr resp) \<in> set as" for b' f' resp
    using newest_is_latest [OF assms(1) that] assms(2) by (auto split: option.splits)
  then show ?thesis using assms(1,3,4) by (auto simp: analyses_ok_def hour_after_success_def split: sum.split)
qed

lemma site_flight_cases:
  assumes "site_flight (\<lambda>u lg. (r, (d, b, f, r) # lg)) b f d raw si lg0 = (res, si', lg)"
  shows "site_lookup b d si \<noteq> None \<and> si' = si \<and> lg = lg0 \<or>
    site_lookup b d si = None \<and> lg = (d, b, f, r) # lg0 \<and>
    si' = (case r of Inl e \<Rightarrow> si | Inr resp \<Rightarrow> site_store d (analysed_info f resp) si)"
  using assms by (auto simp: site_flight_def Let_def split: option.splits sum.splits)

lemma site_ok_step: "site_step s s' \<Longrightarrow> site_ok s \<Longrightarrow> site_ok s'"
proof (induction rule: site_step.induct)
  case (step_tick s now)
  then show ?case by (fastforce simp: site_ok_def flight_ok_def analyses_of_def intro: analyses_ok_later split: option.splits)
next
  case (step_fly s now d)
  then show ?case by (fastforce simp: site_ok_def flight_ok_def analyses_of_def intro: analyses_ok_later split: option.splits)
next
  case (step_land s d began entry fetched now r raw res si lg)
  let ?s = "s\<lparr>su_now := now, su_flights := (su_flights s)(d := None), su_intel := si, su_log := lg\<rparr>"
  have later: "analyses_ok now (analyses_of d' s)" for d'
    using step_land.prems step_land.hyps(4) analyses_ok_later by (auto simp: site_ok_def)
  from site_flight_cases [OF step_land.hyps(5)] show ?case
  proof (elim disjE conjE)
    assume "si = su_intel s" "lg = su_log s"
    then show ?thesis using step_land.prems step_land.hyps(4) later
      by (fastforce simp: site_ok_def flight_ok_def analyses_of_def split: option.splits)
  next
    assume miss: "site_lookup began d (su_intel s) = None" and lg: "lg = (d, began, fetched, r) # su_log s"
      and si: "si = (case r of Inl e \<Rightarrow> su_intel s | Inr resp \<Rightarrow> site_store d (analysed_info fetched resp) (su_intel s))"
    have "analyses_ok now ((began, fetched, r) # analyses_of d s)"
      using lookup_None_iff [of "su_intel s" began d] miss step_land.prems step_land.hyps(2,3)
      by (intro analyses_ok_Cons later) (auto simp: site_ok_def)
    moreover have "analyses_of d' ?s = (if d' = d then (began, fetched, r) # analyses_of d s else analyses_of d' s)" for d'
      by (simp add: analyses_of_def lg)
    moreover have "sl_ttl si = hour" "sl_cache si d' = (if d' = d then newest_info ((began, fetched, r) # analyses_of d s)
        else sl_cache (su_intel s) d')" for d'
      using step_land.prems by (auto simp: si site_ok_def site_store_def split: sum.split)
    ultimately show ?thesis using step_land.prems step_land.hyps(4) later
      by (fastforce simp: site_ok_def flight_ok_def split: option.splits)
  qed
qed

lemma site_ok_reach: "site_reach now s \<Longrightarrow> site_ok s"
proof (induction rule: site_reach.induct)
  case reach_start
  then show ?case
    by (simp add: site_ok_def flight_ok_def analyses_ok_def hour_after_success_def analyses_of_def site_start_def new_site_intel_def)
qed (rule site_ok_step)

lemma fresh_answer:
  assumes "sl_ttl si = hour" "sl_cache si domain = Some info" "extract_host parse raw = domain" "now - si_fetched_at info < hour"
  shows "site_get parse analyze now now' fetched raw si w = ((info, None), si, w)"
proof -
  have "site_lookup now domain si = Some info"
    using lookup_None_iff [OF assms(1), of now domain] assms(2,4) by (auto simp: site_lookup_def split: if_splits)
  then show ?thesis using assms(3) by (simp add: site_get_def)
qed

text \<open>C26: a site that has been analysed is not analysed again for an hour, however many goroutines ask for it.
  In every run of concurrent calls, whose flights are those of the code: no analysis of a domain, whatever its
  outcome, begins less than an hour after an earlier one of the domain that succeeded; the cache holds
  for a domain exactly the newest analysis that succeeded, with the protection its technologies name, and
  nothing before the first; nobody but the flight of a domain changes its entry while it is under way; and a call
  that finds an entry less than an hour old answers with it, without a flight. An analysis that
  fails leaves nothing behind, and the next call makes another at once.\<close>

theorem analysed_once_an_hour:
  assumes "site_reach start s"
  shows "hour_after_success (analyses_of domain s) \<and>
    sl_cache (su_intel s) domain = newest_info (analyses_of domain s) \<and>
    (case su_flights s domain of None \<Rightarrow> True | Some (began, entry) \<Rightarrow> sl_cache (su_intel s) domain = entry) \<and>
    (case newest_info (analyses_of domain s) of
       None \<Rightarrow> site_lookup now domain (su_intel s) = None
     | Some info \<Rightarrow> si_waf info = find_waf (si_technologies info) \<and>
         (if now - si_fetched_at info < hour
          then \<forall>raw. extract_host parse raw = domain \<longrightarrow>
            site_get parse analyze now now' fetched raw (su_intel s) w = ((info, None), su_intel s, w)
          else site_lookup now domain (su_intel s) = None))"
proof -
  have ok: "sl_ttl (su_intel s) = hour" "analyses_ok (su_now s) (analyses_of domain s)"
      "sl_cache (su_intel s) domain = newest_info (analyses_of domain s)" "flight_ok s domain"
    using site_ok_reach [OF assms] by (simp_all add: site_ok_def)
  have waf: "si_waf info = find_waf (si_technologies info)" if "newest_info as = Some info" for as info
    using that by (induction as rule: newest_info.induct) (auto simp: analysed_info_def split: sum.splits)
  have fresh: "site_get parse analyze now now' fetched raw (su_intel s) w = ((info, None), su_intel s, w)"
    if "sl_cache (su_intel s) domain = Some info" "extract_host parse raw = domain" "now - si_fetched_at info < hour" for info raw
    using fresh_answer [OF ok(1) that] .
  show ?thesis
    using ok waf [of "analyses_of domain s"] lookup_None_iff [OF ok(1), of now domain] fresh
    by (auto simp: analyses_ok_def flight_ok_def not_less split: option.splits)
qed

text \<open>After a failure the next flight analyses again, whatever the clock says.\<close>

lemma failed_analysis_repeated:
  assumes "site_lookup now domain si = None" "analyze raw w = (Inl e, w1)" "sl_cache si domain = None"
  shows "site_flight analyze now fetched domain raw si w = ((zero_site_info, Some e), si, w1) \<and>
    site_lookup later domain (fst (snd (site_flight analyze now fetched domain raw si w))) = None"
  using assms by (simp add: site_flight_def site_lookup_def)

text \<open>A call that runs alone, from its lookup to its end, is a run of the steps.\<close>

lemma lone_call_reached:
  assumes s: "site_reach start s" "su_flights s (extract_host parse raw) = None"
    and clock: "su_now s \<le> now" "now \<le> now'" "now' \<le> fetched"
    and call: "site_get parse (\<lambda>u lg. (r, (extract_host parse raw, now', fetched, r) # lg)) now now' fetched raw
        (su_intel s) (su_log s) = (res, si, lg)"
  shows "\<exists>s'. site_reach start s' \<and> su_intel s' = si \<and> su_log s' = lg \<and> su_flights s' = su_flights s"
proof (cases "site_lookup now (extract_host parse raw) (su_intel s)")
  case (Some info)
  then show ?thesis using s(1) call by (auto simp: site_get_def)
next
  case None
  let ?d = "extract_host parse raw"
  let ?f = "s\<lparr>su_now := now', su_flights := (su_flights s)(?d \<mapsto> (now', sl_cache (su_intel s) ?d))\<rparr>"
  have fly: "site_reach start ?f"
    using reach_step [OF s(1) step_fly [OF _ s(2), of now']] clock by simp
  let ?g = "?f\<lparr>su_now := fetched, su_flights := (su_flights ?f)(?d := None), su_intel := si, su_log := lg\<rparr>"
  have "site_flight (\<lambda>u lg. (r, (?d, now', fetched, r) # lg)) now' fetched ?d raw (su_intel ?f) (su_log ?f) = (res, si, lg)"
    using call None by (simp add: site_get_def Let_def)
  then have "site_step ?f ?g"
    using step_land [of ?f ?d now' "sl_cache (su_intel s) ?d" fetched fetched r raw res si lg] clock by simp
  then have "site_reach start ?g" by (rule reach_step [OF fly])
  then show ?thesis using s(2) by (intro exI [of _ ?g]) (auto simp: fun_eq_iff)
qed

text \<open>A flight that finds Cloudflare at 7, asked again at 10.\<close>

definition demo_analysis :: analyze_response where
  "demo_analysis = \<lparr>ar_url = ''h'', ar_status = 200, ar_technologies =
     [\<lparr>tech_name = ''nginx'', tech_categories = [], tech_confidence = 100, tech_version = None\<rparr>,
      \<lparr>tech_name = ''cloudflare'', tech_categories = [], tech_confidence = 100, tech_version = None\<rparr>],
     ar_error = []\<rparr>"

theorem analysed_once_an_hour_witness:
  "si_waf (fst (fst (site_get (\<lambda>u. None) (\<lambda>u (w :: unit). (Inl ErrCanceled, w)) 10 10 10 ''h''
     (site_store ''h'' (analysed_info 7 demo_analysis) new_site_intel) ()))) = ''Cloudflare''"
proof -
  let ?fly = "(site_start 1)\<lparr>su_now := 5, su_flights := [''h'' \<mapsto> (5, None)]\<rparr>"
  let ?si = "site_store ''h'' (analysed_info 7 demo_analysis) new_site_intel"
  let ?land = "?fly\<lparr>su_now := 9, su_flights := Map.empty, su_intel := ?si, su_log := [(''h'', 5, 7, Inr demo_analysis)]\<rparr>"
  have fly: "site_reach 1 ?fly"
    using reach_step [OF reach_start step_fly [of "site_start 1" 5 "''h''"]]
    by (simp add: site_start_def new_site_intel_def)
  have "site_step ?fly ?land"
    using step_land [of ?fly "''h''" 5 None 7 9 "Inr demo_analysis" "''h''"]
    by (simp add: site_start_def site_flight_def site_lookup_def new_site_intel_def Let_def)
  then have "site_reach 1 ?land" by (rule reach_step [OF fly])
  from analysed_once_an_hour [OF this, of "''h''" 10 "\<lambda>u. None" "\<lambda>u (w :: unit). (Inl ErrCanceled, w)" 10 10 "()"]
  have "site_get (\<lambda>u. None) (\<lambda>u (w :: unit). (Inl ErrCanceled, w)) 10 10 10 ''h'' ?si () =
    ((analysed_info 7 demo_analysis, None), ?si, ())"
    by (simp add: analyses_of_def site_start_def analysed_info_def extract_host_def time_units)
  moreover have "find_waf (ar_technologies demo_analysis) = ''Cloudflare''" by code_simp
  ultimately show ?thesis by (simp add: analysed_info_def)
qed

subsection \<open>Suggestions\<close>

text \<open>Whatever the analysis says and whether or not it succeeds, the suggestion is a profile of the table;
  behind Cloudflare it is Chrome on a desktop, behind Akamai a desktop browser.\<close>

lemma suggestion_fits_waf:
  assumes intn: "\<forall>n > 0. intn n < n"
    and get: "site_get parse analyze now now' fetched raw si w = ((info, err), si1, w1)"
  shows "case suggest_profile parse analyze intn now now' fetched raw si w of
      (p, si2, w2) \<Rightarrow> p \<in> set builtin_profiles \<and> si2 = si1 \<and> w2 = w1 \<and>
        (err = None \<and> si_waf info = ''Cloudflare'' \<longrightarrow> bp_browser p = ''chrome'' \<and> \<not> bp_mobile p) \<and>
        (err = None \<and> si_waf info = ''Akamai'' \<longrightarrow> \<not> bp_mobile p)"
proof -
  have picks: "pick_profiles (filter_of [with_browser ''chrome'', with_mobile False]) \<noteq> []"
    "pick_profiles (filter_of [with_mobile False]) \<noteq> []" "pick_profiles (filter_of []) \<noteq> []" by code_simp+
  have filters: "pf_browser (filter_of [with_browser ''chrome'', with_mobile False]) = ''chrome''"
    "pf_mobile (filter_of [with_browser ''chrome'', with_mobile False]) = Some False"
    "pf_mobile (filter_of [with_mobile False]) = Some False" by code_simp+
  note picked = picks [THEN random_profile_picked(1) [OF intn], unfolded pick_in_table(1)]
  show ?thesis using picked filters by (simp add: suggest_profile_def get profile_matches_def)
qed

end
