(* ===== verification/Limiter_Contract.thy ===== *)
theory Limiter_Contract
  imports Middleware
begin

text \<open>
  The contract between the rate-limit middlewares (\<^verbatim>\<open>src/middleware_builtin.go\<close>) and a limiter: a mark
  blocks a URL until its time, and a wait does not let a blocked URL pass while its readings of the clock are
  earlier. \<open>covered\<close> says that the limiter has a rule for a URL, \<open>blocked\<close> until when
  the URL is blocked, and \<open>early\<close> that the next wait reads only times before the given one. The domain
  limiter of \<^verbatim>\<open>src/ratelimit/domain.go\<close> provides it, on both contexts.
\<close>

locale backoff_limiter =
  fixes ops :: "'w limiter_ops" and covered :: "'w \<Rightarrow> string \<Rightarrow> bool" and blocked :: "'w \<Rightarrow> string \<Rightarrow> time"
    and early :: "time \<Rightarrow> 'w \<Rightarrow> bool"
  assumes mark_covered: "covered (lo_mark ops u t w) u' = covered w u'"
    and mark_blocks: "covered w u \<Longrightarrow> blocked (lo_mark ops u t w) u = t"
    and wait_refuses: "covered w u \<Longrightarrow> early (blocked w u) w \<Longrightarrow> lo_wait ops u w \<noteq> Some (None, w')"
    and now_covered: "covered (snd (lo_now ops w)) u = covered w u"
begin

text \<open>A 429 with a Retry-After blocks the URL it was answered for, until the reading of the clock after the
  answer and the time asked for.\<close>

lemma answer_429_blocks:
  assumes "rate_limit_middleware pd ops h q w = Some ((Some r, None), q1, w1)"
    and "rs_status r = 429" "lookup_str (rs_headers r) ''retry-after'' \<noteq> []" "covered w1 (rq_url q1)"
  shows "\<exists>w2 now w3 now' w4. lo_now ops w2 = (now, w3) \<and> lo_now ops w3 = (now', w4) \<and>
    blocked w1 (rq_url q1) = now + parse_retry_after_value pd now' (lookup_str (rs_headers r) ''retry-after'') \<and>
    w1 = lo_mark ops (rq_url q1) (blocked w1 (rq_url q1)) w4"
proof -
  let ?d = "\<lambda>now'. parse_retry_after_value pd now' (lookup_str (rs_headers r) ''retry-after'')"
  obtain w2 now w3 now' w4 where *: "lo_now ops w2 = (now, w3)" "lo_now ops w3 = (now', w4)"
      "w1 = lo_mark ops (rq_url q1) (now + ?d now') w4"
    using assms(1-3)
    by (auto simp: rate_limit_middleware_def Let_def split: Option.bind_splits if_splits prod.splits)
  then have "blocked w1 (rq_url q1) = now + ?d now'" using assms(4) mark_covered mark_blocks by metis
  with * show ?thesis by metis
qed

text \<open>While a URL is blocked no handler is called: with any two of them the middleware does the same.\<close>

lemma blocked_not_sent:
  assumes "covered w (rq_url q)" "early (blocked w (rq_url q)) w"
  shows "rate_limit_middleware pd ops h q w = rate_limit_middleware pd ops h' q w"
proof -
  have "\<forall>w'. lo_wait ops (rq_url q) w \<noteq> Some (None, w')" using wait_refuses [OF assms] by blast
  then show ?thesis
    by (cases "lo_wait ops (rq_url q) w") (auto simp: rate_limit_middleware_def)
qed

end

subsection \<open>The domain limiter\<close>

text \<open>A domain limiter makes its limiters itself, over the store in memory.\<close>

definition domain_covered :: "url_parser \<Rightarrow> limiter_world \<Rightarrow> string \<Rightarrow> bool" where
  "domain_covered parse w u \<longleftrightarrow>
     (let host = extract_host parse u
      in match_rule host (dl_rules (lw_limiter w)) \<noteq> None \<and>
         (case dl_limiters (lw_limiter w) host of None \<Rightarrow> True | Some l \<Rightarrow> lim_ops l = memory_ops))"

definition host_blocked :: "string \<Rightarrow> domain_limiter \<Rightarrow> time" where
  "host_blocked host dl =
     (case dl_limiters dl host of None \<Rightarrow> zero_time | Some l \<Rightarrow> st_get_blocked (lim_ops l) host (lim_store l))"

definition domain_blocked :: "url_parser \<Rightarrow> limiter_world \<Rightarrow> string \<Rightarrow> time" where
  "domain_blocked parse w u = host_blocked (extract_host parse u) (lw_limiter w)"

definition domain_early :: "time \<Rightarrow> limiter_world \<Rightarrow> bool" where
  "domain_early t w \<longleftrightarrow> list_all (list_all (\<lambda>turn. wt_t2 turn < t)) (take 1 (lw_waits w))"

lemma memory_blocked:
  "st_get_blocked memory_ops k (st_set_blocked memory_ops k t tc m) = t"
  "st_get_blocked memory_ops k new_memory_store = zero_time"
  by (simp_all add: memory_ops_def mem_get_blocked_def mem_set_blocked_def new_memory_store_def case_prod_beta)

text \<open>A call of Allow that reads a time before the end of the block says no and keeps the block.\<close>

lemma allow_while_blocked:
  assumes "match_rule (extract_host parse u) (dl_rules dl) \<noteq> None" "t2 < host_blocked (extract_host parse u) dl"
    and "domain_allow parse u rnd t1 t2 t3 t4 t5 dl = (ok, dl')"
  shows "\<not> ok \<and> host_blocked (extract_host parse u) dl' = host_blocked (extract_host parse u) dl \<and> dl_rules dl' = dl_rules dl"
  using assms
  by (auto simp: domain_allow_def Let_def host_blocked_def get_limiter_def allow_def new_limiter_def new_limiter_with_def
      memory_blocked split: if_splits option.splits prod.splits)

lemma wait_while_blocked:
  assumes "match_rule (extract_host parse u) (dl_rules dl) \<noteq> None"
    "list_all (\<lambda>turn. wt_t2 turn < host_blocked (extract_host parse u) dl) turns"
  shows "fst (domain_wait parse u turns dl) \<noteq> Some True"
  using assms
proof (induction turns arbitrary: dl)
  case (Cons turn turns)
  obtain ok dl1 where a: "domain_allow parse u (wt_rnd turn) (wt_t1 turn) (wt_t2 turn) (wt_t3 turn) (wt_t4 turn) (wt_t5 turn) dl = (ok, dl1)"
    by fastforce
  have "\<not> ok" "host_blocked (extract_host parse u) dl1 = host_blocked (extract_host parse u) dl" "dl_rules dl1 = dl_rules dl"
    using allow_while_blocked [OF Cons.prems(1) _ a] Cons.prems(2) by simp_all
  with Cons a show ?case by simp
qed simp

lemma mark_blocks_host:
  assumes "domain_covered parse w u"
  shows "domain_blocked parse (lo_mark (domain_limiter_ops parse) u t w) u = t"
  using assms
  by (auto simp: domain_covered_def domain_blocked_def host_blocked_def domain_limiter_ops_def domain_mark_rate_limited_def
      mark_rate_limited_def get_limiter_def new_limiter_def new_limiter_with_def memory_blocked Let_def split: option.splits)

lemma mark_keeps_covered:
  "domain_covered parse (lo_mark (domain_limiter_ops parse) u t w) u' = domain_covered parse w u'"
  by (auto simp: domain_covered_def domain_limiter_ops_def domain_mark_rate_limited_def
      mark_rate_limited_def get_limiter_def new_limiter_def new_limiter_with_def Let_def split: option.splits)

interpretation domain: backoff_limiter "domain_limiter_ops parse" "domain_covered parse" "domain_blocked parse" domain_early
proof unfold_locales
  fix w u w' assume w: "domain_covered parse w u" "domain_early (domain_blocked parse w u) w"
  show "lo_wait (domain_limiter_ops parse) u w \<noteq> Some (None, w')"
  proof (cases "lw_waits w")
    case (Cons turns rest)
    then have "fst (domain_wait parse u turns (lw_limiter w)) \<noteq> Some True"
      using w by (intro wait_while_blocked) (auto simp: domain_covered_def domain_early_def domain_blocked_def Let_def)
    with Cons show ?thesis
      by (auto simp: domain_limiter_ops_def split: prod.splits option.splits if_splits)
  qed (simp add: domain_limiter_ops_def)
qed (simp_all add: mark_blocks_host mark_keeps_covered, simp add: domain_limiter_ops_def domain_covered_def)

interpretation background_domain: backoff_limiter "background_limiter_ops parse" "domain_covered parse" "domain_blocked parse" domain_early
proof unfold_locales
  fix w u w' assume w: "domain_covered parse w u" "domain_early (domain_blocked parse w u) w"
  let ?w = "w\<lparr>lw_waits := map (map (\<lambda>t. t\<lparr>wt_cancelled := False\<rparr>)) (lw_waits w)\<rparr>"
  have "domain_covered parse ?w u" "domain_early (domain_blocked parse ?w u) ?w"
    using w by (simp_all add: domain_covered_def domain_early_def domain_blocked_def take_map list.pred_map comp_def)
  from domain.wait_refuses [OF this] show "lo_wait (background_limiter_ops parse) u w \<noteq> Some (None, w')"
    by (simp add: background_limiter_ops_def)
qed (simp_all add: background_limiter_ops_def mark_blocks_host mark_keeps_covered domain.now_covered)

subsection \<open>A block and the traffic after it\<close>

definition host_covered :: "string \<Rightarrow> domain_limiter \<Rightarrow> bool" where
  "host_covered host dl \<longleftrightarrow>
     match_rule host (dl_rules dl) \<noteq> None \<and>
     (case dl_limiters dl host of None \<Rightarrow> True | Some l \<Rightarrow> lim_ops l = memory_ops)"

lemma domain_covered_host: "domain_covered parse w u = host_covered (extract_host parse u) (lw_limiter w)"
  by (simp add: domain_covered_def host_covered_def Let_def)

text \<open>The end of the block of a host after some traffic: that of the last mark of the host, whether it is
  later or earlier than the one before; a request changes nothing.\<close>

fun next_block :: "url_parser \<Rightarrow> string \<Rightarrow> domain_op \<Rightarrow> time \<Rightarrow> time" where
  "next_block parse host (DAllow u turn) t = t"
| "next_block parse host (DMark u until tc) t = (if extract_host parse u = host then until else t)"

definition block_after :: "url_parser \<Rightarrow> string \<Rightarrow> domain_op list \<Rightarrow> time \<Rightarrow> time" where
  "block_after parse host ops t = fold (next_block parse host) ops t"

lemma increment_keeps_block:
  "st_increment memory_ops k window tc t m = (r, m') \<Longrightarrow> st_get_blocked memory_ops k m' = st_get_blocked memory_ops k m"
  by (auto simp: memory_ops_def mem_increment_def mem_get_blocked_def get_or_create_def Let_def split: option.splits if_splits)

lemma limiter_allow_keeps_block:
  assumes "lim_ops l = memory_ops" "allow k now tc t l = (ok, l')"
  shows "lim_ops l' = memory_ops \<and> st_get_blocked memory_ops k (lim_store l') = st_get_blocked memory_ops k (lim_store l)"
  using assms by (auto simp: allow_def Let_def increment_keeps_block split: if_splits prod.splits)

lemma domain_allow_keeps_block:
  assumes "host_covered host dl" "domain_allow parse u rnd t1 t2 t3 t4 t5 dl = (ok, dl')"
  shows "host_covered host dl' \<and> host_blocked host dl' = host_blocked host dl"
proof (cases "match_rule (extract_host parse u) (dl_rules dl)")
  case None
  then show ?thesis using assms by (simp add: domain_allow_def)
next
  case (Some rule)
  let ?h = "extract_host parse u"
  obtain l dl1 where l: "get_limiter ?h rule dl = (l, dl1)" by fastforce
  obtain b l1 where a: "allow ?h t2 t3 t4 l = (b, l1)" by fastforce
  show ?thesis
  proof (cases "?h = host")
    case True
    have m: "lim_ops l = memory_ops" "st_get_blocked memory_ops host (lim_store l) = host_blocked host dl"
      using l assms(1) True
      by (auto simp: get_limiter_def host_covered_def host_blocked_def new_limiter_def new_limiter_with_def memory_blocked
          Let_def split: option.splits)
    from limiter_allow_keeps_block [OF m(1) a] show ?thesis
      using assms Some l a m True get_limiter_frame [OF l]
      by (auto simp: domain_allow_def Let_def host_covered_def host_blocked_def split: if_splits)
  next
    case False
    then show ?thesis using assms Some l a
      by (auto simp: domain_allow_def Let_def host_covered_def host_blocked_def get_limiter_def split: if_splits option.splits)
  qed
qed

lemma domain_step_block:
  assumes "host_covered host dl"
  shows "host_covered host (fst (domain_step parse op (dl, lg))) \<and>
    host_blocked host (fst (domain_step parse op (dl, lg))) = next_block parse host op (host_blocked host dl)"
proof (cases op)
  case (DAllow u turn)
  then show ?thesis using domain_allow_keeps_block [OF assms]
    by (cases "domain_allow parse u (wt_rnd turn) (wt_t1 turn) (wt_t2 turn) (wt_t3 turn) (wt_t4 turn) (wt_t5 turn) dl") simp
next
  case (DMark u until tc)
  then show ?thesis using assms
    by (auto simp: domain_mark_rate_limited_def mark_rate_limited_def get_limiter_def host_covered_def host_blocked_def
        new_limiter_def new_limiter_with_def memory_blocked Let_def split: option.splits)
qed

lemma traffic_block:
  "host_covered host (fst st) \<Longrightarrow>
     host_covered host (fst (fold (domain_step parse) ops st)) \<and>
     host_blocked host (fst (fold (domain_step parse) ops st)) = block_after parse host ops (host_blocked host (fst st))"
proof (induction ops arbitrary: st)
  case (Cons op ops)
  then show ?case using domain_step_block [of host "fst st" parse op "snd st"] by (simp add: block_after_def)
qed (simp add: block_after_def)

text \<open>Without marks that end earlier the block only grows; but a second 429 whose Retry-After ends earlier
  cuts it short.\<close>

lemma block_only_grows:
  assumes "list_all (\<lambda>op. case op of DAllow u turn \<Rightarrow> True | DMark u until tc \<Rightarrow> extract_host parse u = host \<longrightarrow> t \<le> until) ops"
  shows "t \<le> t' \<Longrightarrow> t \<le> block_after parse host ops t'"
  using assms
proof (induction ops arbitrary: t')
  case (Cons op ops)
  then show ?case by (cases op) (auto simp: block_after_def)
qed (simp add: block_after_def)

lemma later_answer_cuts_block:
  assumes "extract_host parse u = host" "until < t"
  shows "block_after parse host [DMark u until tc] t < t"
  using assms by (simp add: block_after_def)

subsection \<open>Properties\<close>

text \<open>C9: a server that says how long to wait is obeyed, as far as its last answer goes. When the rate-limit
  middleware has returned a 429 with a Retry-After for a host that has a rule, the host is blocked until the
  time of the answer plus the time asked for. After any traffic of the limiter, requests and marks of this
  and of other hosts among it, the host is blocked until the end of its last mark, the one of this answer
  if none has followed; and while the limiter reads times before that, no later request for the host is sent:
  the middleware does the same whatever its handler would do, that is, it does not call it. A later
  mark replaces the block even when it ends earlier.\<close>

theorem retry_after_is_obeyed:
  assumes answered: "rate_limit_middleware pd (domain_limiter_ops parse) h q w = Some ((Some r, None), q1, w1)"
    "rs_status r = 429" "lookup_str (rs_headers r) ''retry-after'' \<noteq> []"
    and host: "extract_host parse (rq_url q1) = host" "extract_host parse (rq_url q2) = host" "host_covered host (lw_limiter w1)"
    and traffic: "lw_limiter w2 = fst (fold (domain_step parse) ops (lw_limiter w1, lg))"
    and clock: "domain_early (block_after parse host ops (lw_clock w1 (lw_ticks w1 - 3) +
        parse_retry_after_value pd (lw_clock w1 (lw_ticks w1 - 2)) (lookup_str (rs_headers r) ''retry-after''))) w2"
  shows "rate_limit_middleware pd (domain_limiter_ops parse) h1 q2 w2 =
    rate_limit_middleware pd (domain_limiter_ops parse) h2 q2 w2"
proof (rule domain.blocked_not_sent)
  have cov: "domain_covered parse w1 (rq_url q1)" using host by (simp add: domain_covered_host)
  obtain v now v3 now' v4 where v: "lo_now (domain_limiter_ops parse) v = (now, v3)" "lo_now (domain_limiter_ops parse) v3 = (now', v4)"
      "domain_blocked parse w1 (rq_url q1) = now + parse_retry_after_value pd now' (lookup_str (rs_headers r) ''retry-after'')"
      "w1 = lo_mark (domain_limiter_ops parse) (rq_url q1) (domain_blocked parse w1 (rq_url q1)) v4"
    using domain.answer_429_blocks [OF answered cov] by blast
  have "lw_clock w1 = lw_clock v" "lw_ticks w1 = lw_ticks v + 3" "now = lw_clock v (lw_ticks v)" "now' = lw_clock v (lw_ticks v + 1)"
    using v(1,2) by (subst v(4), auto simp: domain_limiter_ops_def)+
  then have until: "host_blocked host (lw_limiter w1) = lw_clock w1 (lw_ticks w1 - 3) +
      parse_retry_after_value pd (lw_clock w1 (lw_ticks w1 - 2)) (lookup_str (rs_headers r) ''retry-after'')"
    using v(3) host(1) by (simp add: domain_blocked_def)
  have later: "host_covered host (lw_limiter w2)"
      "host_blocked host (lw_limiter w2) = block_after parse host ops (host_blocked host (lw_limiter w1))"
    using traffic_block [of host "(lw_limiter w1, lg)" parse ops] host(3) traffic by simp_all
  show "domain_covered parse w2 (rq_url q2)" using later(1) host(2) by (simp add: domain_covered_host)
  show "domain_early (domain_blocked parse w2 (rq_url q2)) w2" using clock later(2) until host(2) by (simp add: domain_blocked_def)
qed

text \<open>A rule for every host, and one answer of the server: try again in 30 seconds.\<close>

definition slow_server :: "limiter_world handler" where
  "slow_server q w = Some ((Some \<lparr>rs_body = [], rs_headers = [''retry-after'' \<mapsto> ''30''], rs_status = 429\<rparr>, None), q, w)"

definition turn_at :: "time \<Rightarrow> wait_turn" where
  "turn_at t = \<lparr>wt_rnd = 0, wt_t1 = t, wt_t2 = t, wt_t3 = t, wt_t4 = t, wt_t5 = t, wt_cancelled = False\<rparr>"

definition polite_world :: "limiter_world" where
  "polite_world =
     \<lparr>lw_limiter = new_domain_limiter [\<lparr>dc_domain = [], dc_requests = 5, dc_window = minute, dc_min_delay = 0, dc_random_delay = 0\<rparr>],
      lw_waits = [[turn_at 10], [turn_at 20, turn_at 30]], lw_clock = (\<lambda>n. 10), lw_ticks = 0\<rparr>"

definition polite_request :: http_request where
  "polite_request = \<lparr>rq_method = ''GET'', rq_url = ''u'', rq_headers = None, rq_body = None, rq_order = []\<rparr>"

lemma polite_wait:
  "\<exists>dl. domain_wait Some ''u'' [turn_at 10] (lw_limiter polite_world) = (Some True, dl) \<and> host_covered ''u'' dl"
proof -
  let ?d = "lw_limiter polite_world"
  obtain ok dl where a: "domain_allow Some ''u'' 0 10 10 10 10 10 ?d = (ok, dl)" by fastforce
  have host: "extract_host Some ''u'' = ''u''" by code_simp
  have "host_covered ''u'' ?d" by (simp add: host_covered_def polite_world_def new_domain_limiter_def)
  from domain_allow_keeps_block [OF this a] have "host_covered ''u'' dl" by simp
  moreover have "ok"
    using a by (simp add: host domain_allow_def polite_world_def new_domain_limiter_def too_soon_def get_limiter_def new_limiter_def
        new_limiter_with_def allow_def cap_for_def memory_ops_def mem_get_blocked_def new_memory_store_def mem_increment_def
        get_or_create_def Let_def split: if_splits prod.splits)
  ultimately show ?thesis using a by (simp add: turn_at_def)
qed

lemma polite_answer:
  "\<exists>w1. rate_limit_middleware (\<lambda>l s. None) (domain_limiter_ops Some) slow_server polite_request polite_world =
     Some ((Some \<lparr>rs_body = [], rs_headers = [''retry-after'' \<mapsto> ''30''], rs_status = 429\<rparr>, None), polite_request, w1) \<and>
     host_covered ''u'' (lw_limiter w1) \<and> lw_waits w1 = [[turn_at 20, turn_at 30]] \<and> lw_clock w1 = (\<lambda>n. 10)"
proof -
  obtain dl where dl: "domain_wait Some ''u'' [turn_at 10] (lw_limiter polite_world) = (Some True, dl)" "host_covered ''u'' dl"
    using polite_wait by blast
  let ?v = "polite_world\<lparr>lw_limiter := dl, lw_waits := [[turn_at 20, turn_at 30]]\<rparr>"
  have wait: "lo_wait (domain_limiter_ops Some) ''u'' polite_world = Some (None, ?v)"
    using dl(1) by (simp add: domain_limiter_ops_def polite_world_def del: domain_wait.simps)
  let ?w1 = "lo_mark (domain_limiter_ops Some) ''u'' (10 + parse_retry_after_value (\<lambda>l s. None) 10 ''30'') (?v\<lparr>lw_ticks := 2\<rparr>)"
  have host: "extract_host Some ''u'' = ''u''" by code_simp
  have now: "lo_now (domain_limiter_ops Some) ?v = (10, ?v\<lparr>lw_ticks := Suc 0\<rparr>)"
    "lo_now (domain_limiter_ops Some) (?v\<lparr>lw_ticks := Suc 0\<rparr>) = (10, ?v\<lparr>lw_ticks := 2\<rparr>)"
    by (simp_all add: domain_limiter_ops_def polite_world_def)
  have "host_covered ''u'' (lw_limiter ?w1)"
    using mark_keeps_covered [of Some "''u''" _ "?v\<lparr>lw_ticks := 2\<rparr>" "''u''"] dl(2) by (simp add: domain_covered_host host)
  moreover have "lw_waits ?w1 = [[turn_at 20, turn_at 30]]" "lw_clock ?w1 = (\<lambda>n. 10)"
    by (simp_all add: domain_limiter_ops_def polite_world_def)
  moreover have "rate_limit_middleware (\<lambda>l s. None) (domain_limiter_ops Some) slow_server polite_request polite_world =
      Some ((Some \<lparr>rs_body = [], rs_headers = [''retry-after'' \<mapsto> ''30''], rs_status = 429\<rparr>, None), polite_request, ?w1)"
    by (simp add: rate_limit_middleware_def polite_request_def wait slow_server_def Let_def lookup_str_def now)
  ultimately show ?thesis by blast
qed

theorem retry_after_is_obeyed_witness:
  "\<exists>r w1. rate_limit_middleware (\<lambda>l s. None) (domain_limiter_ops Some) slow_server polite_request polite_world =
       Some ((Some r, None), polite_request, w1) \<and>
     (let w2 = w1\<lparr>lw_limiter := fst (fold (domain_step Some) [DAllow ''u'' (turn_at 15)] (lw_limiter w1, []))\<rparr>
      in rate_limit_middleware (\<lambda>l s. None) (domain_limiter_ops Some) slow_server polite_request w2 =
         rate_limit_middleware (\<lambda>l s. None) (domain_limiter_ops Some) (\<lambda>q w. None) polite_request w2)"
proof -
  obtain w1 where w1: "rate_limit_middleware (\<lambda>l s. None) (domain_limiter_ops Some) slow_server polite_request polite_world =
       Some ((Some \<lparr>rs_body = [], rs_headers = [''retry-after'' \<mapsto> ''30''], rs_status = 429\<rparr>, None), polite_request, w1)"
     "host_covered ''u'' (lw_limiter w1)" "lw_waits w1 = [[turn_at 20, turn_at 30]]" "lw_clock w1 = (\<lambda>n. 10)"
    using polite_answer by blast
  let ?w2 = "w1\<lparr>lw_limiter := fst (fold (domain_step Some) [DAllow ''u'' (turn_at 15)] (lw_limiter w1, []))\<rparr>"
  have host: "extract_host Some (rq_url polite_request) = ''u''" by code_simp
  have "parse_retry_after_value (\<lambda>l s. None) 10 ''30'' = 30000000000" by code_simp
  then have early: "domain_early (lw_clock w1 (lw_ticks w1 - 3) + parse_retry_after_value (\<lambda>l s. None) (lw_clock w1 (lw_ticks w1 - 2)) ''30'') ?w2"
    by (simp add: domain_early_def w1 turn_at_def)
  then have early: "domain_early (block_after Some ''u'' [DAllow ''u'' (turn_at 15)] (lw_clock w1 (lw_ticks w1 - 3) +
      parse_retry_after_value (\<lambda>l s. None) (lw_clock w1 (lw_ticks w1 - 2)) ''30'')) ?w2"
    by (simp add: block_after_def)
  have "rate_limit_middleware (\<lambda>l s. None) (domain_limiter_ops Some) slow_server polite_request ?w2 =
      rate_limit_middleware (\<lambda>l s. None) (domain_limiter_ops Some) (\<lambda>q w. None) polite_request ?w2"
    by (rule retry_after_is_obeyed [OF w1(1) _ _ host host w1(2), where ops = "[DAllow ''u'' (turn_at 15)]" and lg = "[]"])
      (use early in \<open>simp_all add: lookup_str_def\<close>)
  with w1(1) show ?thesis by (auto simp: Let_def)
qed

end
