(* ===== verification/Pooled_Client.thy ===== *)
theory Pooled_Client
  imports Backend_Tls Proxy_Pool Webshare
begin

text \<open>
  A client with a pool of proxies on the tls-client backend: what the loop of \<^verbatim>\<open>src/client.go\<close>, the note
  of \<^verbatim>\<open>src/backend_tlsclient.go\<close> and the rotation of the pools of \<^verbatim>\<open>src/proxypool/\<close> guarantee together.
  That the library is not called in some states is stated as independence: nothing changes
  when its behaviour there is replaced by any other.
\<close>

subsection \<open>Handlers that agree where an invariant holds\<close>

definition kept :: "('s \<Rightarrow> bool) \<Rightarrow> ('r \<times> 'q \<times> 's) option \<Rightarrow> bool" where
  "kept I x \<longleftrightarrow> (case x of None \<Rightarrow> True | Some (r, q, s) \<Rightarrow> I s)"

lemma kept_simps [simp]: "kept I None" "kept I (Some (r, q, s)) = I s"
  by (simp_all add: kept_def)

definition agree :: "('w \<Rightarrow> bool) \<Rightarrow> 'w handler \<Rightarrow> 'w handler \<Rightarrow> bool" where
  "agree I h h' \<longleftrightarrow> (\<forall>q w. I w \<longrightarrow> h' q w = h q w \<and> kept I (h q w))"

definition uniform :: "('w \<Rightarrow> bool) \<Rightarrow> 'w middleware \<Rightarrow> bool" where
  "uniform I m \<longleftrightarrow> (\<forall>h h'. agree I h h' \<longrightarrow> agree I (m h) (m h'))"

lemma agreeD: "agree I h h' \<Longrightarrow> I w \<Longrightarrow> h' q w = h q w \<and> kept I (h q w)"
  by (simp add: agree_def)

lemma uniformI:
  "(\<And>h h' q w. agree I h h' \<Longrightarrow> I w \<Longrightarrow> m h' q w = m h q w \<and> kept I (m h q w)) \<Longrightarrow> uniform I m"
  unfolding uniform_def agree_def by blast

lemma chain_agree: "list_all (uniform I) ms \<Longrightarrow> agree I h h' \<Longrightarrow> agree I (chain ms h) (chain ms h')"
  by (induction ms) (auto simp: uniform_def)

lemma logging_uniform: "uniform I logging_middleware"
proof (rule uniformI)
  fix h h' :: "'a handler" and q :: http_request and w assume "agree I h h'" "I w"
  from agreeD [OF this, of q] show "logging_middleware h' q w = logging_middleware h q w \<and> kept I (logging_middleware h q w)"
    by (cases "h q w") (auto simp: logging_middleware_def)
qed

lemma detect_uniform: "uniform I cloudflare_detect_middleware"
proof (rule uniformI)
  fix h h' :: "'a handler" and q :: http_request and w assume "agree I h h'" "I w"
  from agreeD [OF this, of q]
  show "cloudflare_detect_middleware h' q w = cloudflare_detect_middleware h q w \<and> kept I (cloudflare_detect_middleware h q w)"
    by (cases "h q w") (auto simp: cloudflare_detect_middleware_def split: Option.bind_split)
qed

lemma client_hints_uniform: "uniform I client_hints_middleware"
  by (rule uniformI) (auto simp: client_hints_middleware_def Let_def agree_def split: option.split)

lemma cookie_uniform:
  assumes get: "\<And>d w. I w \<Longrightarrow> I (snd (cp_get ops d w))" and solve: "\<And>d c w. I w \<Longrightarrow> I (snd (cp_solve ops d c w))"
  shows "uniform I (cloudflare_cookie_middleware parse ops)"
proof (rule uniformI)
  fix h h' :: "'a handler" and q :: http_request and w assume h: "agree I h h'" and w: "I w"
  let ?d = "extract_host parse (rq_url q)"
  obtain c w1 where get': "cp_get ops ?d w = (c, w1)" by fastforce
  then have "I w1" using get [OF w, of ?d] by simp
  note first = agreeD [OF h this, of "inject_cookie c q"]
  have again: "I w3 \<Longrightarrow> h' q3 w3 = h q3 w3 \<and> kept I (h q3 w3)" for q3 w3 by (rule agreeD [OF h])
  show "cloudflare_cookie_middleware parse ops h' q w = cloudflare_cookie_middleware parse ops h q w \<and>
      kept I (cloudflare_cookie_middleware parse ops h q w)"
  proof (cases "h (inject_cookie c q) w1")
    case None
    then show ?thesis using first get' by (simp add: cloudflare_cookie_middleware_def)
  next
    case (Some x)
    obtain resp err q2 w2 where x: "x = ((resp, err), q2, w2)" by (metis prod.collapse)
    then have "I w2" using first Some by simp
    then show ?thesis
      using first get' Some x again solve [of w2 ?d]
      by (auto simp: cloudflare_cookie_middleware_def split: option.split sum.split prod.split Option.bind_split) (metis snd_conv)+
  qed
qed

lemma smart_fetch_uniform:
  assumes "\<And>u w. I w \<Longrightarrow> I (snd (fetch u w))"
  shows "uniform I (smart_fetch_middleware fetch)"
proof (rule uniformI)
  fix h h' :: "'a handler" and q :: http_request and w assume "agree I h h'" "I w"
  note first = agreeD [OF this, of q]
  show "smart_fetch_middleware fetch h' q w = smart_fetch_middleware fetch h q w \<and> kept I (smart_fetch_middleware fetch h q w)"
  proof (cases "h q w")
    case None
    then show ?thesis using first by (simp add: smart_fetch_middleware_def)
  next
    case (Some x)
    obtain resp err q1 w1 where x: "x = ((resp, err), q1, w1)" by (metis prod.collapse)
    then have "I w1" using first Some by simp
    then show ?thesis
      using first Some x assms [of w1 "rq_url q1"]
      by (auto simp: smart_fetch_middleware_def split: option.split sum.split prod.split Option.bind_split)
  qed
qed

subsection \<open>The loop over the proxies\<close>

text \<open>\<open>K\<close> holds between the attempts and \<open>I\<close> once a proxy has been set. Two clients that rotate alike, with handlers
  that agree under \<open>I\<close>, do the same.\<close>

lemma do_loop_agree:
  assumes rotate: "\<And>s. rotate_proxy bc' s = rotate_proxy bc s"
      "\<And>s e s1. K s \<Longrightarrow> rotate_proxy bc s = Some (e, s1) \<Longrightarrow> K s1 \<and> (e = None \<longrightarrow> I s1)"
    and h: "agree I h h'" and IK: "\<And>s. I s \<Longrightarrow> K s"
    and report: "\<And>s. report_auth bc' s = report_auth bc s" "\<And>s. K s \<Longrightarrow> K (report_auth bc s)"
    and pause: "\<And>s. K s \<Longrightarrow> K (s\<lparr>cs_world := cl_pause bc (cs_world s)\<rparr>)" "cl_pause bc' = cl_pause bc"
    and pool: "cl_proxy_pool bc' = cl_proxy_pool bc"
  shows "K s \<Longrightarrow> do_loop bc' h' n attempt k q s = do_loop bc h n attempt k q s \<and> kept K (do_loop bc h n attempt k q s)"
proof (induction k arbitrary: attempt q s)
  case 0
  then show ?case by simp
next
  case (Suc k)
  show ?case
  proof (cases "rotate_proxy bc s")
    case None
    then show ?thesis using rotate(1) by simp
  next
    case (Some es)
    obtain e s1 where es: "es = (e, s1)" by (cases es)
    have s1: "K s1" "e = None \<longrightarrow> I s1" using rotate(2) [OF Suc.prems] Some es by simp_all
    show ?thesis
    proof (cases e)
      case (Some x)
      then show ?thesis
        using \<open>rotate_proxy bc s = Some es\<close> es rotate(1) s1 Suc.IH [OF s1(1)] by simp
    next
      case None
      note rot = \<open>rotate_proxy bc s = Some es\<close> [unfolded es None]
      have hq: "h' q s1 = h q s1 \<and> kept I (h q s1)" using agreeD [OF h] s1 None by simp
      show ?thesis
      proof (cases "h q s1")
        case None
        then show ?thesis using rot rotate(1) hq by simp
      next
        case (Some y)
        obtain resp err q1 s2 where y: "y = ((resp, err), q1, s2)" by (metis prod.collapse)
        then have s2: "K s2" "K (report_auth bc s2)" using hq Some IK report(2) by simp_all
        note paused = pause(1) [OF s2(1)] pause(1) [OF s2(2)]
        show ?thesis
          using rot rotate(1) hq Some y s2 paused Suc.IH report(1) pause(2) pool
          by (cases resp; cases err) (auto simp: Let_def)
      qed
    qed
  qed
qed

subsection \<open>A rotating pool on tls-client\<close>

text \<open>The pool lives in the world beside the state of the library; a view of the two says how the pool is used, which
  proxies it rotates over, and which proxy the library sends through. The pool is one that keeps the contract
  \<open>rotating_pool\<close> and whose list does not depend on the reports it gets.\<close>

type_synonym ('p, 'v) pooled_world = "('p \<times> 'v) tls_world"

record ('p, 'v) pool_view =
  vw_pool :: "'p pool_ops"
  vw_proxies :: "'p \<Rightarrow> string list"
  vw_in_use :: "'v \<Rightarrow> string"

definition rotating_view :: "('p, 'v) pool_view \<Rightarrow> bool" where
  "rotating_view V \<longleftrightarrow>
     (\<exists>counter. rotating_pool (vw_pool V) (vw_proxies V) counter) \<and>
     (\<forall>f p. pp_report_auth (vw_pool V) = Some f \<longrightarrow> vw_proxies V (f p) = vw_proxies V p)"

definition static_view :: "('v \<Rightarrow> string) \<Rightarrow> (static_pool, 'v) pool_view" where
  "static_view in_use = \<lparr>vw_pool = static_ops, vw_proxies = sp_proxies, vw_in_use = in_use\<rparr>"

definition webshare_view :: "time \<Rightarrow> time \<Rightarrow> ('v \<Rightarrow> string) \<Rightarrow> ('w webshare, 'v) pool_view" where
  "webshare_view now now' in_use = \<lparr>vw_pool = webshare_ops now now', vw_proxies = ws_proxies, vw_in_use = in_use\<rparr>"

lemma rotating_views [simp]: "rotating_view (static_view in_use)" "rotating_view (webshare_view now now' in_use)"
  using static.rotating_pool_axioms webshare.rotating_pool_axioms
  by (auto simp: rotating_view_def static_view_def static_ops_def webshare_view_def webshare_ops_def
      webshare_report_auth_failure_def Let_def split: if_splits)

definition world_pool :: "('p, 'v) pooled_world \<Rightarrow> 'p" where
  "world_pool w = fst (tw_lib w)"

text \<open>The pool as the client sees it.\<close>

definition pool_provider :: "'p pool_ops \<Rightarrow> ('p, 'v) pooled_world proxy_provider" where
  "pool_provider pops =
     \<lparr>px_next = (\<lambda>w. let (u, p) = pp_next pops (world_pool w) in (u, w\<lparr>tw_lib := (p, snd (tw_lib w))\<rparr>)),
      px_report = map_option (\<lambda>f w. w\<lparr>tw_lib := (f (world_pool w), snd (tw_lib w))\<rparr>) (pp_report_auth pops)\<rparr>"

definition undisturbed :: "('p, 'v) pool_view \<Rightarrow> ('p, 'v) pooled_world \<Rightarrow> ('p, 'v) pooled_world \<Rightarrow> bool" where
  "undisturbed V v v' \<longleftrightarrow>
     vw_in_use V (snd (tw_lib v')) = vw_in_use V (snd (tw_lib v)) \<and> tw_proxy v' = tw_proxy v \<and>
     vw_proxies V (world_pool v') = vw_proxies V (world_pool v)"

text \<open>A library that uses the proxy it accepted last, and keeps it when it refuses one.\<close>

definition switched :: "('p, 'v) pool_view \<Rightarrow> string \<Rightarrow> ('p, 'v) pooled_world \<Rightarrow> go_error option \<times> ('p, 'v) pooled_world \<Rightarrow> bool" where
  "switched V u v x \<longleftrightarrow>
     tw_proxy (snd x) = tw_proxy v \<and> vw_proxies V (world_pool (snd x)) = vw_proxies V (world_pool v) \<and>
     vw_in_use V (snd (tw_lib (snd x))) = (if fst x = None then u else vw_in_use V (snd (tw_lib v)))"

definition proxied_library :: "('p, 'v) pool_view \<Rightarrow> ('p, 'v) pooled_world tls_http_client \<Rightarrow> bool" where
  "proxied_library V c \<longleftrightarrow>
     (\<forall>g u v. switched V u v (tc_set_proxy c g u v)) \<and>
     (\<forall>g q v. undisturbed V v (snd (snd (tc_do c g q v)))) \<and>
     (\<forall>v. undisturbed V v (tc_close c v) \<and> undisturbed V v (tc_close_idle c v))"

definition noted :: "('p, 'v) pool_view \<Rightarrow> string list \<Rightarrow> ('p, 'v) pooled_world \<Rightarrow> bool" where
  "noted V urls w \<longleftrightarrow> vw_in_use V (snd (tw_lib w)) = tw_proxy w \<and> vw_proxies V (world_pool w) = urls"

definition through_pool :: "('p, 'v) pool_view \<Rightarrow> string list \<Rightarrow> ('p, 'v) pooled_world \<Rightarrow> bool" where
  "through_pool V urls w \<longleftrightarrow> noted V urls w \<and> vw_in_use V (snd (tw_lib w)) \<in> set urls"

lemma undisturbed_keeps:
  assumes "undisturbed V v v'"
  shows "noted V urls v \<Longrightarrow> noted V urls v'" and "through_pool V urls v \<Longrightarrow> through_pool V urls v'"
  using assms by (auto simp: undisturbed_def noted_def through_pool_def)

lemma pool_provider_next:
  assumes "rotating_view V" "noted V urls w" "urls \<noteq> []" "length urls < 2 ^ 64" "px_next (pool_provider (vw_pool V)) w = (u, w')"
  shows "u \<in> set urls \<and> noted V urls w'"
proof -
  obtain counter where "rotating_pool (vw_pool V) (vw_proxies V) counter" using assms(1) by (auto simp: rotating_view_def)
  then have "fst (pp_next (vw_pool V) (world_pool w)) \<in> set urls" "vw_proxies V (snd (pp_next (vw_pool V) (world_pool w))) = urls"
    using rotating_pool.next_in_proxies [of "vw_pool V" "vw_proxies V" counter "world_pool w"]
      rotating_pool.next_proxies [of "vw_pool V" "vw_proxies V" counter "world_pool w"] assms(2-4)
    by (simp_all add: noted_def)
  moreover have "u = fst (pp_next (vw_pool V) (world_pool w))"
    "w' = w\<lparr>tw_lib := (snd (pp_next (vw_pool V) (world_pool w)), snd (tw_lib w))\<rparr>"
    using assms(5) by (simp_all add: pool_provider_def case_prod_beta)
  ultimately show ?thesis using assms(2) by (simp add: noted_def world_pool_def)
qed

lemma pool_provider_report:
  assumes "rotating_view V" "noted V urls w" "px_report (pool_provider (vw_pool V)) = Some f"
  shows "noted V urls (f w)"
  using assms by (auto simp: rotating_view_def pool_provider_def noted_def world_pool_def)

lemma set_proxy_noted:
  assumes "proxied_library V c" "noted V urls w" "tls_set_proxy c g u w = (r, w')"
  shows "noted V urls w' \<and> (r = None \<longrightarrow> vw_in_use V (snd (tw_lib w')) = u)"
proof (cases "u = tw_proxy w")
  case True
  then show ?thesis using assms by (auto simp: tls_set_proxy_def noted_def)
next
  case False
  let ?v = "tc_close_idle c w"
  have v: "noted V urls ?v"
    using assms(1,2) undisturbed_keeps(1) [of V w ?v] by (simp add: proxied_library_def)
  obtain r1 v1 where set: "tc_set_proxy c g u ?v = (r1, v1)" by fastforce
  have "switched V u ?v (r1, v1)" using assms(1) set unfolding proxied_library_def by metis
  then show ?thesis using False assms(3) set v
    by (cases r1) (auto simp: tls_set_proxy_def switched_def noted_def world_pool_def)
qed

subsection \<open>The client\<close>

definition pooled_client ::
    "('p, 'v) pool_view \<Rightarrow> 'r backend_env \<Rightarrow> ('p, 'v) pooled_world tls_http_client \<Rightarrow> ('p, 'v) pooled_world browser_client \<Rightarrow> bool"
where
  "pooled_client V env c bc \<longleftrightarrow>
     rotating_view V \<and> cl_doer bc = tls_client_doer env c \<and> cl_proxy_pool bc = Some (pool_provider (vw_pool V)) \<and> cl_pool_closer bc = None \<and>
     cl_doer_closer bc = hd_close (cl_doer bc) \<and> cl_doer_idler bc = hd_idle (cl_doer bc) \<and>
     (\<forall>w. undisturbed V w (cl_pause bc w))"

text \<open>The same client on a library whose Do is another.\<close>

definition on_other_do ::
    "'r backend_env \<Rightarrow> 'l tls_world tls_http_client \<Rightarrow>
     (dial_guard option \<Rightarrow> wire_request \<Rightarrow> 'l tls_world \<Rightarrow> (go_error + wire_response) \<times> string option \<times> 'l tls_world) \<Rightarrow>
     'l tls_world browser_client \<Rightarrow> 'l tls_world browser_client"
where
  "on_other_do env c f bc = bc\<lparr>cl_doer := tls_client_doer env (c\<lparr>tc_do := f\<rparr>)\<rparr>"

lemma commit_sets:
  "apply_commit set_proxy u ep a w = Some (r, a', w') \<Longrightarrow> \<exists>a1. set_proxy a1 u w = (r, w')"
  by (auto simp: apply_commit_def Let_def split: option.splits prod.splits if_splits)

lemma client_set_proxy_noted:
  assumes "pooled_client V env c bc" "proxied_library V c" "noted V urls (cs_world s)"
    "client_set_proxy bc u s = Some (r, s1)"
  shows "noted V urls (cs_world s1) \<and> (r = None \<longrightarrow> vw_in_use V (snd (tw_lib (cs_world s1))) = u)"
proof -
  have "\<exists>g. tls_set_proxy c g u (cs_world s) = (r, cs_world s1)"
    using assms(1,4) by (auto simp: client_set_proxy_def pooled_client_def tls_client_doer_def allowance_apply_def
        dest!: commit_sets split: option.splits prod.splits)
  then show ?thesis using set_proxy_noted [OF assms(2,3)] by blast
qed

lemma rotate_through_pool:
  assumes "pooled_client V env c bc" "proxied_library V c" "urls \<noteq> []" "length urls < 2 ^ 64"
    and "noted V urls (cs_world s)" "rotate_proxy bc s = Some (e, s1)"
  shows "noted V urls (cs_world s1) \<and> (e = None \<longrightarrow> through_pool V urls (cs_world s1))"
proof -
  obtain u w1 where u: "px_next (pool_provider (vw_pool V)) (cs_world s) = (u, w1)" by fastforce
  then have w1: "u \<in> set urls" "noted V urls w1" using pool_provider_next [OF _ assms(5,3,4)] assms(1) by (auto simp: pooled_client_def)
  have "client_set_proxy bc u (s\<lparr>cs_world := w1\<rparr>) = Some (e, s1)"
    using assms(1,6) u by (simp add: rotate_proxy_def pooled_client_def)
  from client_set_proxy_noted [OF assms(1,2) _ this, of urls] show ?thesis
    using w1 by (auto simp: through_pool_def)
qed

lemma other_do_fields:
  assumes "cl_doer bc = tls_client_doer env c"
  shows "client_set_proxy (on_other_do env c f bc) u s = client_set_proxy bc u s"
    and "rotate_proxy (on_other_do env c f bc) s = rotate_proxy bc s"
    and "report_auth (on_other_do env c f bc) s = report_auth bc s"
    and "max_attempts (on_other_do env c f bc) = max_attempts bc"
    and "client_close_idle (on_other_do env c f bc) s = client_close_idle bc s"
    and "client_close (on_other_do env c f bc) s = client_close bc s"
proof -
  have set: "hd_set_proxy (cl_doer (on_other_do env c f bc)) = hd_set_proxy (cl_doer bc)"
    using assms by (simp add: on_other_do_def tls_client_doer_def tls_set_proxy_def fun_eq_iff)
  have rest: "cl_resolve (on_other_do env c f bc) = cl_resolve bc" "current_guard (on_other_do env c f bc) = current_guard bc"
    "cl_proxy_pool (on_other_do env c f bc) = cl_proxy_pool bc"
    by (simp_all add: on_other_do_def current_guard_def fun_eq_iff cong: option.case_cong)
  show *: "client_set_proxy (on_other_do env c f bc) u s = client_set_proxy bc u s" for u s
    by (simp add: client_set_proxy_def set rest split: option.split)
  show "rotate_proxy (on_other_do env c f bc) s = rotate_proxy bc s"
    by (simp add: rotate_proxy_def rest * cong: option.case_cong)
  show "report_auth (on_other_do env c f bc) s = report_auth bc s"
    by (simp add: report_auth_def rest cong: option.case_cong)
qed (simp_all add: on_other_do_def max_attempts_def client_close_idle_def client_close_def cong: option.case_cong)

lemma base_handler_agrees:
  assumes bc: "cl_doer bc = tls_client_doer env c" and c: "proxied_library V c"
    and f: "\<And>g q v. vw_in_use V (snd (tw_lib v)) \<in> set urls \<Longrightarrow> f g q v = tc_do c g q v"
  shows "agree (\<lambda>s. through_pool V urls (cs_world s)) (base_handler bc order) (base_handler (on_other_do env c f bc) order)"
  unfolding agree_def
proof (intro allI impI)
  fix q and s :: "('a, 'b) pooled_world client_state" assume s: "through_pool V urls (cs_world s)"
  let ?bc = "on_other_do env c f bc" and ?I = "through_pool V urls"
  have do: "tls_do env (c\<lparr>tc_do := f\<rparr>) g q2 (cs_world s) = tls_do env c g q2 (cs_world s)" for g q2
    using s f by (simp add: tls_do_def through_pool_def Let_def split: sum.split)
  have kept: "kept ?I (tls_do env c g q2 (cs_world s))" for g q2
  proof -
    have "?I (snd (snd (tc_do c g wq (cs_world s))))" for wq
      using undisturbed_keeps(2) [OF _ s] c by (simp add: proxied_library_def)
    then show ?thesis using s
      by (auto simp: tls_do_def Let_def case_prod_beta split: sum.split)
  qed
  have fields: "cl_url_guard ?bc = cl_url_guard bc" "cl_parse ?bc = cl_parse bc" "cl_fetch_mode ?bc = cl_fetch_mode bc"
    "current_guard ?bc = current_guard bc" "hd_do (cl_doer ?bc) = tls_do env (c\<lparr>tc_do := f\<rparr>)" "hd_do (cl_doer bc) = tls_do env c"
    using bc by (simp_all add: on_other_do_def tls_client_doer_def current_guard_def fun_eq_iff split: option.split)
  have lift: "kept (\<lambda>s. ?I (cs_world s)) (map_option (\<lambda>(r, q3, w'). (r, q3, s\<lparr>cs_world := w'\<rparr>)) x) = kept ?I x" for x :: "(http_result \<times> http_request \<times> ('a, 'b) pooled_world) option"
    by (cases x) auto
  show "base_handler ?bc order q s = base_handler bc order q s \<and> kept (\<lambda>s. ?I (cs_world s)) (base_handler bc order q s)"
    using s kept by (auto simp: base_handler_def fields do lift Let_def split: option.split)
qed

lemma pooled_request:
  assumes bc: "pooled_client V env c bc" "proxied_library V c" and urls: "urls \<noteq> []" "length urls < 2 ^ 64"
    and mw: "list_all (uniform (\<lambda>s. through_pool V urls (cs_world s))) (cl_middlewares bc)"
    and f: "\<And>g q v. vw_in_use V (snd (tw_lib v)) \<in> set urls \<Longrightarrow> f g q v = tc_do c g q v"
    and s: "noted V urls (cs_world s)"
  shows "do_with_retry (on_other_do env c f bc) (build_handler (on_other_do env c f bc) order) q s =
      do_with_retry bc (build_handler bc order) q s \<and>
    kept (\<lambda>s. noted V urls (cs_world s)) (do_with_retry bc (build_handler bc order) q s)"
proof -
  let ?bc = "on_other_do env c f bc" and ?I = "\<lambda>s. through_pool V urls (cs_world s)"
  have doer: "cl_doer bc = tls_client_doer env c" using bc(1) by (simp add: pooled_client_def)
  have ms: "cl_middlewares ?bc = cl_middlewares bc" by (simp add: on_other_do_def)
  have h: "agree ?I (build_handler bc order) (build_handler ?bc order)"
    unfolding build_handler_def ms
    using base_handler_agrees [OF doer bc(2) f, where order = order and urls = urls] chain_agree [OF mw] by simp
  show ?thesis
    unfolding do_with_retry_def other_do_fields(4) [OF doer]
  proof (rule do_loop_agree [where K = "\<lambda>s. noted V urls (cs_world s)" and I = ?I])
    show "agree ?I (build_handler bc order) (build_handler ?bc order)" by (rule h)
    show "rotate_proxy ?bc s = rotate_proxy bc s" "report_auth ?bc s = report_auth bc s" for s
      by (rule other_do_fields [OF doer])+
    show "noted V urls (cs_world s1) \<and> (e = None \<longrightarrow> ?I s1)"
      if "noted V urls (cs_world s)" "rotate_proxy bc s = Some (e, s1)" for s e s1
      by (rule rotate_through_pool [OF bc urls that])
    show "noted V urls (cs_world s)" if "?I s" for s using that by (simp add: through_pool_def)
    show "noted V urls (cs_world (report_auth bc s))" if "noted V urls (cs_world s)" for s
      using that bc(1) pool_provider_report [OF _ that] by (auto simp: report_auth_def pooled_client_def split: option.split)
    show "noted V urls (cs_world (s\<lparr>cs_world := cl_pause bc (cs_world s)\<rparr>))" if "noted V urls (cs_world s)" for s
      using bc(1) undisturbed_keeps(1) [OF _ that] by (simp add: pooled_client_def)
  qed (simp_all add: on_other_do_def s)
qed

lemma pooled_step:
  assumes bc: "pooled_client V env c bc" "proxied_library V c" and urls: "urls \<noteq> []" "length urls < 2 ^ 64"
    and mw: "list_all (uniform (\<lambda>s. through_pool V urls (cs_world s))) (cl_middlewares bc)"
    and f: "\<And>g q v. vw_in_use V (snd (tw_lib v)) \<in> set urls \<Longrightarrow> f g q v = tc_do c g q v"
    and s: "noted V urls (cs_world s)"
  shows "client_step (on_other_do env c f bc) op s = client_step bc op s \<and>
    (case client_step bc op s of None \<Rightarrow> True | Some s' \<Rightarrow> noted V urls (cs_world s'))"
proof -
  have doer: "cl_doer bc = tls_client_doer env c" using bc(1) by (simp add: pooled_client_def)
  note req = pooled_request [OF bc urls mw f s]
  have order: "cl_header_order (on_other_do env c f bc) = cl_header_order bc" by (simp add: on_other_do_def)
  have closers: "undisturbed V w (tls_close c w)" "undisturbed V w (tls_close_idle_connections c w)" for w
    using bc(2) by (simp_all add: proxied_library_def tls_close_def tls_close_idle_connections_def)
  show ?thesis
  proof (cases op)
    case (Request m u hs b)
    then show ?thesis using req [of "cl_header_order bc" "make_request m u hs b"]
      by (cases "do_with_retry bc (build_handler bc (cl_header_order bc)) (make_request m u hs b) s")
         (auto simp: client_do_def order)
  next
    case (OrderedRequest m u hs b ord)
    then show ?thesis using req [of ord "make_request m u hs b"]
      by (cases "do_with_retry bc (build_handler bc ord) (make_request m u hs b) s") (auto simp: do_with_header_order_def)
  next
    case (SwitchProxy u)
    then show ?thesis
      using client_set_proxy_noted [OF bc s, of u] other_do_fields(1) [OF doer]
      by (auto split: option.split)
  next
    case CloseIdle
    then show ?thesis
      using other_do_fields(5) [OF doer] bc(1) undisturbed_keeps(1) [OF closers(2) s]
      by (simp add: client_close_idle_def pooled_client_def tls_client_doer_def)
  next
    case Close
    then show ?thesis
      using other_do_fields(6) [OF doer] bc(1) undisturbed_keeps(1) [OF closers(1) s] s
      by (simp add: client_close_def pooled_client_def tls_client_doer_def Let_def)
  qed
qed

lemma pooled_life:
  assumes "pooled_client V env c bc" "proxied_library V c" "urls \<noteq> []" "length urls < 2 ^ 64"
    and "list_all (uniform (\<lambda>s. through_pool V urls (cs_world s))) (cl_middlewares bc)"
    and "\<And>g q v. vw_in_use V (snd (tw_lib v)) \<in> set urls \<Longrightarrow> f g q v = tc_do c g q v"
  shows "noted V urls (cs_world s) \<Longrightarrow> client_life (on_other_do env c f bc) ops s = client_life bc ops s"
proof (induction ops arbitrary: s)
  case (Cons op ops)
  from pooled_step [OF assms Cons.prems, of op] show ?case
    using Cons.IH by (cases "client_step bc op s") auto
qed simp

subsection \<open>What else acts on the world of a client\<close>

text \<open>The pauses, the cookie provider and the clients of ox-browser do not touch the library, its note or the pool.\<close>

definition quiet_cookies :: "('p, 'v) pool_view \<Rightarrow> ('p, 'v) pooled_world cookie_ops \<Rightarrow> bool" where
  "quiet_cookies V ops \<longleftrightarrow>
     (\<forall>d w. undisturbed V w (snd (cp_get ops d w))) \<and> (\<forall>d c w. undisturbed V w (snd (cp_solve ops d c w)))"

definition quiet_env ::
    "('q, 'v) pool_view \<Rightarrow> (('q, 'v) pooled_world, 'j, 'p, 't) client_env \<Rightarrow> (('q, 'v) pooled_world, 'j, 'p) client_config \<Rightarrow> bool"
where
  "quiet_env V env cfg \<longleftrightarrow>
     (\<forall>w. undisturbed V w (ce_pause env w)) \<and> pred_option (quiet_cookies V) (cc_cookie_provider cfg) \<and>
     (\<forall>s. quiet_cookies V (ce_ox_cookies env s)) \<and>
     (\<forall>c u w. undisturbed V w (snd (ce_fetch_smart env c u w)))"

lemma quiet_cookies_uniform:
  assumes "quiet_cookies V ops"
  shows "uniform (\<lambda>s. through_pool V urls (cs_world s)) (cloudflare_cookie_middleware parse (lift_cookie_ops ops))"
  by (rule cookie_uniform)
     (use assms undisturbed_keeps(2) in \<open>fastforce simp: quiet_cookies_def lift_cookie_ops_def case_prod_beta\<close>)+

lemma quiet_fetch_uniform:
  assumes "\<And>u w. undisturbed V w (snd (fetch u w))"
  shows "uniform (\<lambda>s. through_pool V urls (cs_world s)) (smart_fetch_middleware (lift_fetch fetch))"
  by (rule smart_fetch_uniform)
     (use assms undisturbed_keeps(2) in \<open>fastforce simp: lift_fetch_def case_prod_beta\<close>)

lemma initial_middlewares_uniform:
  assumes "quiet_env V env cfg"
  shows "list_all (uniform (\<lambda>s. through_pool V urls (cs_world s))) (initial_middlewares env cfg)"
  using assms
  by (auto simp: initial_middlewares_def quiet_env_def Let_def
      intro!: logging_uniform detect_uniform quiet_cookies_uniform quiet_fetch_uniform split: option.split)

lemma client_of_pooled:
  assumes "rotating_view V" "quiet_env V env cfg" "cc_proxy_pool cfg = Some (pool_provider (vw_pool V), tp)" "cc_pool_closer cfg = None"
    "\<not> cc_caller_backend cfg"
  shows "pooled_client V benv c (client_of env cfg (tls_client_doer benv c))"
  using assms by (simp add: pooled_client_def client_of_def quiet_env_def)

definition option_proxy :: "('p, 'w) tls_option list \<Rightarrow> string" where
  "option_proxy os = (case List.map_filter (\<lambda>x. case x of OptProxyUrl u \<Rightarrow> Some u | _ \<Rightarrow> None) os of [] \<Rightarrow> [] | u # us \<Rightarrow> u)"

lemma option_proxy_tls [simp]: "option_proxy (tls_options lib cfg profile) = be_proxy_url cfg"
  by (simp add: option_proxy_def tls_options_def List.map_filter_simps split: option.split)

text \<open>A constructor of library clients that all behave, use the configured proxy first and leave the pool alone.\<close>

definition proxied_factory ::
    "('p, 'v) pool_view \<Rightarrow> ('x, 'm, ('p, 'v) pooled_world, 's) tls_client_factory \<Rightarrow> bool"
where
  "proxied_factory V mk \<longleftrightarrow>
     (\<forall>os w c w'. mk os w = (Inr c, w') \<longrightarrow>
        proxied_library V c \<and> vw_in_use V (snd (tw_lib w')) = option_proxy os \<and>
        vw_proxies V (world_pool w') = vw_proxies V (world_pool w))"

lemma new_backend_noted:
  assumes "proxied_factory V mk" "new_tls_client_backend lib benv mk cfg w = (Inr doer, w1)"
  shows "\<exists>c. doer = tls_client_doer benv c \<and> proxied_library V c \<and> noted V (vw_proxies V (world_pool w)) w1"
proof -
  obtain profile c w0 where mk: "mk (tls_options lib cfg profile) w = (Inr c, w0)" "doer = tls_client_doer benv c"
      "w1 = w0\<lparr>tw_proxy := be_proxy_url cfg\<rparr>"
    using assms(2) by (auto simp: new_tls_client_backend_def split: sum.splits prod.splits)
  have "proxied_library V c \<and> vw_in_use V (snd (tw_lib w0)) = option_proxy (tls_options lib cfg profile) \<and>
      vw_proxies V (world_pool w0) = vw_proxies V (world_pool w)"
    using assms(1) mk(1) unfolding proxied_factory_def by blast
  then show ?thesis using mk by (auto simp: noted_def world_pool_def)
qed

end
