(* ===== verification/Spec2Isabelle.thy ===== *)
theory Spec2Isabelle
  imports Go_Errors Pool Domain_Limit Proxy_Pool Retry Profile_Coherence
    Client Backend_Std Backend_Tls Fingerprint_Capture Webshare Sent_Headers Session Round_Tripper Site_Intel Limiter_Contract
    Pooled_Client
begin

text \<open>
  A verification library for go-stealth, a Go toolkit for HTTP clients that look like browsers. The
  model covers the client with its guards, middlewares, backends and retries; the pools, limiters
  and proxy providers the client is used with; sessions and their store; and the fingerprint oracle with
  its capture tool. File names below are relative to \<^verbatim>\<open>src/\<close>.

  \<^bold>\<open>How the parts interact.\<close> A client (\<^verbatim>\<open>client.go\<close>) is made from options
  (\<^verbatim>\<open>client_options.go\<close>): they fix a browser profile (\<^verbatim>\<open>profile.go\<close>), the three SSRF
  guards (\<^verbatim>\<open>ssrf.go\<close>), a proxy or a proxy pool (\<^verbatim>\<open>proxypool/\<close>) and a backend
  (\<^verbatim>\<open>backend_tlsclient.go\<close> or \<^verbatim>\<open>backend_std.go\<close>). A request runs through the
  middlewares, the last of them the client's own, down to the guard of URLs and the backend; the answer
  comes back through the header conversion and the decompression. Blocked answers are retried on the
  next proxy of the pool. The dial guard lets the remembered proxies (\<^verbatim>\<open>proxy_allow.go\<close>)
  through, and each switch of the proxy changes what is remembered. A session owns a client; the round
  tripper offers a client to the standard library; Webshare refreshes its proxies when the client
  reports a 407.

  \<^bold>\<open>Theories and code.\<close>
  \<^item> \<open>Prelude\<close>, \<open>Go_Strings\<close>, \<open>Go_Net\<close>, \<open>Go_Path\<close>, \<open>Float64\<close>, \<open>Go_Errors\<close>: what the code uses of Go's
    standard library: time and durations with their saturation and wrap-around, strings, addresses and
    \<^verbatim>\<open>host:port\<close> texts on words, cleaned paths, exact binary64 arithmetic, and errors as
    trees with \<^verbatim>\<open>errors.Is\<close> and \<^verbatim>\<open>errors.As\<close>.
  \<^item> \<open>Pool_Health\<close>, \<open>Pool\<close> (\<^verbatim>\<open>pool/\<close>): health trackers with 64-bit counters, back-off, and the
    round-robin pool over an explicit store of items.
  \<^item> \<open>Rate_Limit\<close>, \<open>Domain_Limit\<close> (\<^verbatim>\<open>ratelimit/\<close>): the memory store behind its interface, the
    limiter, and limiters per domain.
  \<^item> \<open>Proxy_Pool\<close>, \<open>Webshare\<close> (\<^verbatim>\<open>proxypool/\<close>): the static and the health-tracking pool, and
    the pool from the Webshare API with its goroutines as steps.
  \<^item> \<open>Retry\<close> (\<^verbatim>\<open>retry*.go\<close>, \<^verbatim>\<open>backoff.go\<close>): the retry loop, its waits, and the tracker.
  \<^item> \<open>Profile\<close>, \<open>Profile_Coherence\<close> (\<^verbatim>\<open>profile.go\<close>, \<^verbatim>\<open>ua.go\<close>,
    \<^verbatim>\<open>header_order.go\<close>): the tables and what is computed from them, and their coherence.
  \<^item> \<open>Ssrf\<close>, \<open>Proxy_Allow\<close> (\<^verbatim>\<open>ssrf.go\<close>, \<^verbatim>\<open>proxy_allow.go\<close>): the guards, and the
    proxies they let through.
  \<^item> \<open>Middleware\<close>, \<open>Cloudflare\<close> (\<^verbatim>\<open>middleware*.go\<close>, \<^verbatim>\<open>cloudflare.go\<close>,
    \<^verbatim>\<open>oxbrowser.go\<close>, \<^verbatim>\<open>solver_*.go\<close>): handlers on a world, detection, cookies, solvers.
  \<^item> \<open>Client_Options\<close>, \<open>Client\<close> (\<^verbatim>\<open>client*.go\<close>, \<^verbatim>\<open>backend.go\<close>): options as a datatype,
    the configuration, construction, the loop over the proxies, closing.
  \<^item> \<open>Backend_Http\<close>, \<open>Extension_Order\<close>, \<open>Backend_Tls\<close>, \<open>Backend_Std\<close>, \<open>Decompress\<close>
    (\<^verbatim>\<open>backend_*.go\<close>, \<^verbatim>\<open>extension_order.go\<close>, \<^verbatim>\<open>decompress.go\<close>): headers, cookies
    and bodies in both directions, the options handed to tls-client, and the shuffle of extensions.
  \<^item> \<open>Client_Total\<close>, \<open>Limiter_Contract\<close>: two contracts between parts, what a client needs of a backend to come
    back from every call, and what the rate-limit middlewares need of a limiter; with the facts proved from them.
  \<^item> \<open>Sent_Headers\<close>: the User-Agent of a request, from the caller's map to the request the library is given.
  \<^item> \<open>Pooled_Client\<close>: the loop of the client, the note of the doer and the rotation of a pool put together.
  \<^item> \<open>Session\<close>, \<open>Round_Tripper\<close>, \<open>Site_Intel\<close> (\<^verbatim>\<open>session/\<close>, \<^verbatim>\<open>roundtripper.go\<close>,
    \<^verbatim>\<open>proxy.go\<close>, \<^verbatim>\<open>site_intel.go\<close>): the users of a client.
  \<^item> \<open>Fingerprint\<close>, \<open>Fingerprint_Capture\<close> (\<^verbatim>\<open>internal/fingerprint/\<close>,
    \<^verbatim>\<open>cmd/fingerprint-capture/\<close>): the comparison with recorded browsers, and the tool that
    records them.
  \<^item> This theory: the guards of a client followed from its options to the library it sends through, the
    whole life of a client on its backend, and its requests through a pool.

  \<^bold>\<open>Correspondence.\<close> A struct is a record with a prefix per type, an enumeration a datatype, an
  interface value a record of operations, and a method a function from the old state to the new. A
  Go function that may fail gives \<open>go_error + 'a\<close>, or its result beside a \<open>go_error option\<close> where it gives
  both. A handler that does not return, because it dereferences nil, is \<open>None\<close>. Code outside the repository
  (the TLS library, net/http, the resolver, files, codecs, the random numbers) is an argument that acts on a
  world \<open>'w\<close>; each clock reading is an argument, and so is the order in which Go ranges over a map,
  where it shows. Mutex sections are atomic; what goroutines interleave is a step relation
  (\<open>allowance_reach\<close>, \<open>webshare_step\<close>, \<open>site_step\<close>), a run over a list of operations, or, where a method
  lets go of its mutex, an argument for what the others do meanwhile (\<open>next_with_wait\<close>). One method is
  modelled as a whole although it takes its mutex several times: \<open>healthy_next\<close>, whose facts are about calls that follow
  one another. The single-flight group runs one function per key at a time, as its library documents. Interfaces with laws
  are locales, interpreted on the code's own providers: the store of the limiter, the proxy pools, the health
  stores, the cookie providers, the limiters of the middleware, and the backends.

  \<^bold>\<open>What the facts show.\<close> Safety: blocked targets are never sent, dialled or followed, from the address
  predicates up to the options of the library client; unpacking stays in its directory; a pool of proxies
  never falls back to a direct connection, and a client with a pool sends nothing past it. A session sends its profile's User-Agent. Exactness: the blocked addresses are twelve networks, the
  extension shuffle is a bijection between draws and permitted orders, the oracle's verdict is a
  conjunction of agreements. Scheduling: round robin is fair, cooldowns and delays are kept, limits hold
  in every window. Refinement: the proxy allowance is a list of recent URLs, the session store a map, the
  doer's note of its proxy the library's. Termination: the loops of requests and pages are bounded, and
  every call on a client comes back when the calls of its environment do (\<open>client_never_panics\<close> assumes no result). Lemmas named after a
  deviation (\<open>negative_max_retries\<close>, \<open>client_never_solves\<close>,
  \<open>stacked_codings_stay_encoded\<close>, \<open>session_user_agent_race\<close> and others)
  show where the code and its comments, or two parts of the code, disagree.

  \<^bold>\<open>Bounds and fuel.\<close> No loop has fuel of the model's own: \<open>do_loop\<close>, \<open>retry_loop\<close>, \<open>next_scan\<close> and
  \<open>fetch_pages\<close> recurse on the turns that the code's own bound leaves, and \<open>evict\<close> on the list it shortens.
  Counters are words of 64 bits; durations and the sums the code forms of them wrap where Go's do.

  \<^bold>\<open>Not modelled.\<close> Logging; the aliases of the pacing library (\<^verbatim>\<open>jitter.go\<close>,
  \<^verbatim>\<open>ratelimit/pacer.go\<close>); the reports of progress of the capture tool; the seam for tests in the backend
  configuration; the secret transport of the ox-browser client, which is a library; \<^verbatim>\<open>StdClient\<close>, which
  only wraps a client. Data races of callers that ignore the documented rules (a \<^verbatim>\<open>Do\<close> beside
  \<^verbatim>\<open>Close\<close>) are outside the model, and strings are lists of bytes: case folding and quoting are
  those of ASCII text.
\<close>

subsection \<open>The guards of a client on its backend\<close>

text \<open>What a call of a dialer's \<^verbatim>\<open>Control\<close> function with the current allowance refuses: all the built-in guard refuses,
  except for the remembered proxies.\<close>

definition dials_guarded :: "'w guard_env \<Rightarrow> (proxy_allowance \<Rightarrow> dial_control option) \<Rightarrow> bool" where
  "dials_guarded ge control \<longleftrightarrow>
     (\<forall>a. case control a of
        None \<Rightarrow> False
      | Some f \<Rightarrow> \<forall>network address.
          f network address () =
            (if \<not> is_unix_network network \<and> allowance_allows a address then None else builtin_dial ge network address))"

definition redirects_guarded :: "'w guard_env \<Rightarrow> ('p, 'w) tls_option list \<Rightarrow> bool" where
  "redirects_guarded ge os \<longleftrightarrow>
     OptNotFollowRedirects \<in> set os \<or>
     (\<exists>g. OptCustomRedirectFunc g \<in> set os \<and>
        (\<forall>fr fvia w. g fr fvia w = builtin_redirect ge (adapt_http_request fr) (map adapt_http_request fvia) w))"

fun chooses_backend :: "('w, 'j, 'p) client_option \<Rightarrow> bool" where
  "chooses_backend (WithBackend f) = True"
| "chooses_backend WithStdHTTP = True"
| "chooses_backend _ = False"

lemma configured_backend:
  "list_all (\<lambda>x. \<not> chooses_backend x) opts \<Longrightarrow> cc_backend (configure ge oe opts) = None"
proof (induction opts rule: rev_induct)
  case Nil
  show ?case by (simp add: configure_def default_config_def)
next
  case (snoc opt opts)
  then show ?case by (cases opt) (auto simp: configure_snoc option_defs Let_def split: sum.split prod.split)
qed

lemma dial_guard_handed_over:
  assumes "be_dial_control cfg = Some (\<lambda>a. allowance_wrap a (builtin_dial ge))"
  shows "\<exists>d. OptDialer d \<in> set (tls_options lib cfg profile) \<and> dials_guarded ge d"
    and "\<exists>d. sc_dial (std_client_of slib cfg) = Some d \<and> dials_guarded ge (sd_control d)"
  using assms by (simp_all add: tls_options_def std_client_of_def dials_guarded_def adapt_control_def allowance_wrap_def)

lemma redirect_guard_handed_over:
  assumes "be_redirect_guard cfg = Some (builtin_redirect ge)"
  shows "redirects_guarded ge (tls_options lib cfg profile)"
    and "sc_redirect (std_client_of slib cfg) = UseLastResponse \<or>
      sc_redirect (std_client_of slib cfg) = GuardRedirects (builtin_redirect ge)"
  using assms
  by (auto simp: tls_options_def redirects_guarded_def adapt_redirect_def std_client_of_def std_redirect_policy_def)

text \<open>The backend configuration of a client without guard options.\<close>

lemma backend_config_guarded:
  fixes ge :: "'w guard_env" and oe :: "('w, 'j, 'p) option_env"
  assumes "list_all (\<lambda>x. \<not> is_guard_option x) opts"
  defines "cfg \<equiv> configure ge oe opts"
  shows "be_dial_control (backend_config_of cfg (map_option (\<lambda>g a. allowance_wrap a g) (cc_dial_control cfg))) =
      Some (\<lambda>a. allowance_wrap a (builtin_dial ge))"
    and "be_redirect_guard (backend_config_of cfg (map_option (\<lambda>g a. allowance_wrap a g) (cc_dial_control cfg))) =
      Some (builtin_redirect ge)"
  using no_guard_option_keeps_guards [OF assms(1), of ge oe] by (simp_all add: backend_config_of_def cfg_def)

text \<open>What a client was made of: its configuration, and the answer of its backend's constructor.\<close>

lemma new_client_made:
  fixes env :: "('w, 'j, 'p, 't) client_env"
  assumes "new_client env opts w = Some (Inr (bc, st), w1)"
  defines "cfg \<equiv> configure (ce_guards env) (ce_options env) opts"
  shows "\<exists>doer. bc = client_of env cfg doer \<and>
    (case cc_backend cfg of None \<Rightarrow> ce_tls_backend env | Some f \<Rightarrow> f)
      (backend_config_of cfg (map_option (\<lambda>g a. allowance_wrap a g) (cc_dial_control cfg))) w = (Inr doer, w1)"
  using assms by (auto simp: new_client_def Let_def split: if_splits option.splits sum.splits prod.splits)

text \<open>C3: the SSRF guards reach the wire. Whatever the options of a client are, without a guard option and without
  one that replaces the backend, the library client it sends through was made with a dialer that refuses every
  address the built-in guard refuses, remembered proxies apart, at every moment of its life; it follows
  no redirect, or each only after the built-in redirect guard; and the URL of every request passes the
  built-in URL guard first. \<close>

theorem default_guards_reach_the_wire:
  assumes opts: "list_all (\<lambda>x. \<not> is_guard_option x) opts" "list_all (\<lambda>x. \<not> chooses_backend x) opts"
    and env: "ce_tls_backend env = new_tls_client_backend lib benv mk"
    and made: "new_client env opts w = Some (Inr (bc, st), w1)"
  shows "\<exists>os c w0 d. mk os w = (Inr c, w0) \<and> cl_doer bc = tls_client_doer benv c \<and>
    OptDialer d \<in> set os \<and> dials_guarded (ce_guards env) d \<and> redirects_guarded (ce_guards env) os \<and>
    cl_url_guard bc = Some (builtin_url (ce_guards env))"
proof -
  let ?cfg = "configure (ce_guards env) (ce_options env) opts"
  let ?be = "backend_config_of ?cfg (map_option (\<lambda>g a. allowance_wrap a g) (cc_dial_control ?cfg))"
  obtain doer where bc: "bc = client_of env ?cfg doer" "new_tls_client_backend lib benv mk ?be w = (Inr doer, w1)"
    using new_client_made [OF made] configured_backend [OF opts(2), of "ce_guards env" "ce_options env"] env by auto
  then obtain profile c w0 where mk: "mk (tls_options lib ?be profile) w = (Inr c, w0)" "doer = tls_client_doer benv c"
    by (auto simp: new_tls_client_backend_def split: sum.splits prod.splits)
  obtain d where "OptDialer d \<in> set (tls_options lib ?be profile)" "dials_guarded (ce_guards env) d"
    using dial_guard_handed_over(1) [OF backend_config_guarded(1) [OF opts(1)]] by blast
  moreover have "redirects_guarded (ce_guards env) (tls_options lib ?be profile)"
    by (rule redirect_guard_handed_over(1) [OF backend_config_guarded(2) [OF opts(1)]])
  moreover have "cl_url_guard bc = Some (builtin_url (ce_guards env))" "cl_doer bc = doer"
    using no_guard_option_keeps_guards [OF opts(1), of "ce_guards env" "ce_options env"] by (simp_all add: bc(1) client_of_def)
  ultimately show ?thesis using mk by blast
qed

text \<open>The same configuration gives the client on net/http the same guards.\<close>

lemma default_guards_on_net_http:
  fixes env :: "('w, 'w cookie_jar, 'p, 't) client_env" and slib :: "'w std_lib"
  assumes "list_all (\<lambda>x. \<not> is_guard_option x) opts"
  defines "cfg \<equiv> configure (ce_guards env) (ce_options env) opts"
  defines "c \<equiv> std_client_of slib (backend_config_of cfg (map_option (\<lambda>g a. allowance_wrap a g) (cc_dial_control cfg)))"
  shows "(\<exists>d. sc_dial c = Some d \<and> dials_guarded (ce_guards env) (sd_control d)) \<and>
    (sc_redirect c = UseLastResponse \<or> sc_redirect c = GuardRedirects (builtin_redirect (ce_guards env)))"
  unfolding c_def cfg_def
  using dial_guard_handed_over(2) [OF backend_config_guarded(1) [OF assms(1)]]
    redirect_guard_handed_over(2) [OF backend_config_guarded(2) [OF assms(1)]] by blast

text \<open>An environment whose library makes every client; no name resolves.\<close>

definition wire_lib :: "(unit, unit, unit tls_world, unit) tls_lib" where
  "wire_lib =
     \<lparr>tl_profile = (\<lambda>l. \<lparr>wp_hello = \<lparr>chi_name = [], chi_factory = (\<lambda>w. (Inl ErrCanceled, w))\<rparr>, wp_header_priority = None,
        wp_settings = ()\<rparr>), tl_draws = (\<lambda>w. (\<lambda>n. 0, w)),
      tl_new_jar = \<lparr>fj_set = (\<lambda>u cs w. w), fj_get = (\<lambda>u w. [])\<rparr>\<rparr>"

definition wire_env :: "string backend_env" where
  "wire_env = \<lparr>bn_new_request = (\<lambda>m u. None), bn_range = (\<lambda>h. []), bn_codecs = frame_codecs, bn_parse = (\<lambda>u. Inl ErrCanceled)\<rparr>"

definition wire_client :: "unit tls_world tls_http_client" where
  "wire_client =
     \<lparr>tc_do = (\<lambda>g q w. (Inl ErrCanceled, None, w)), tc_set_proxy = (\<lambda>g u w. (None, w)), tc_cookies = (\<lambda>u w. []),
      tc_close = (\<lambda>w. w), tc_close_idle = (\<lambda>w. w)\<rparr>"

definition wire_client_env :: "(unit tls_world, unit tls_world cookie_jar, unit, unit) client_env" where
  "wire_client_env =
     \<lparr>ce_guards = \<lparr>ge_resolver = (\<lambda>w h. Inl (NetDNSError h False)), ge_ip_str = (\<lambda>ip. [])\<rparr>,
      ce_options = \<lparr>oe_std_backend = (\<lambda>c w. (Inl ErrCanceled, w)), oe_webshare = (\<lambda>k cs. Inl ErrCanceled),
        oe_webshare_rotating = (\<lambda>u p cs. Inl ErrCanceled)\<rparr>,
      ce_tls_backend = new_tls_client_backend wire_lib wire_env (\<lambda>os w. (Inr wire_client, w)),
      ce_parse = (\<lambda>u. Inl ErrCanceled), ce_lookup_addr = (\<lambda>w h. Inl ErrCanceled), ce_pause = (\<lambda>w. w),
      ce_from_env = (\<lambda>t u. Inr t), ce_ox_cookies = (\<lambda>s. \<lparr>cp_get = (\<lambda>d w. ([], w)), cp_solve = (\<lambda>d c w. (Inr [], w))\<rparr>),
      ce_fetch_smart = (\<lambda>c u w. (Inl ErrCanceled, w))\<rparr>"

lemma wire_client_made:
  "\<exists>bc st. new_client wire_client_env [WithFollowRedirects] \<lparr>tw_proxy = [], tw_lib = ()\<rparr> =
     Some (Inr (bc, st), \<lparr>tw_proxy = [], tw_lib = ()\<rparr>)"
  by (simp add: new_client_def wire_client_env_def configure_def option_defs default_config_def Let_def
      new_proxy_allowance_def resolve_proxy_endpoint_def new_tls_client_backend_def backend_config_of_def
      wire_profile_for_def map_tls_profile_def profile_map_def)

theorem default_guards_reach_the_wire_witness:
  "\<exists>bc st d os. new_client wire_client_env [WithFollowRedirects] \<lparr>tw_proxy = [], tw_lib = ()\<rparr> =
     Some (Inr (bc, st), \<lparr>tw_proxy = [], tw_lib = ()\<rparr>) \<and> cl_doer bc = tls_client_doer wire_env wire_client \<and>
     OptDialer d \<in> set (os :: ((unit, unit, unit tls_world, unit) wire_profile, unit tls_world) tls_option list) \<and>
     dials_guarded (ce_guards wire_client_env) d \<and> redirects_guarded (ce_guards wire_client_env) os"
proof -
  obtain bc st where made: "new_client wire_client_env [WithFollowRedirects] \<lparr>tw_proxy = [], tw_lib = ()\<rparr> =
     Some (Inr (bc, st), \<lparr>tw_proxy = [], tw_lib = ()\<rparr>)" using wire_client_made by blast
  have "ce_tls_backend wire_client_env = new_tls_client_backend wire_lib wire_env (\<lambda>os w. (Inr wire_client, w))"
    by (simp add: wire_client_env_def)
  from default_guards_reach_the_wire [OF _ _ this made] show ?thesis using made by fastforce
qed

subsection \<open>The life of a client on its backend\<close>

lemma made_by_tls_backend:
  assumes "list_all (\<lambda>x. \<not> chooses_backend x) opts" "ce_tls_backend env = new_tls_client_backend lib benv mk"
    and "new_client env opts w = Some (Inr (bc, st), w1)"
  shows "\<exists>c. cl_doer bc = tls_client_doer benv c"
    and "cl_middlewares bc = initial_middlewares env (configure (ce_guards env) (ce_options env) opts)"
  using new_client_made [OF assms(3)] configured_backend [OF assms(1), of "ce_guards env" "ce_options env"] assms(2)
  by (auto simp: client_of_def new_tls_client_backend_def split: sum.splits prod.splits)

text \<open>C4: a client never panics, over its whole life. Take a client made by NewClient with any options that leave it the
  built-in backend, and whatever TLS library, network, resolver, pool, cookie provider and guards it was given, as long
  as their own calls return; add with Use any middlewares that answer when their handler does, as the repository's own do. Then every
  sequence of requests, ordered requests, proxy switches, idle closings and closings runs to its end: no
  call fails to return, and none follows a nil response.\<close>

theorem client_never_panics:
  assumes "list_all (\<lambda>x. \<not> chooses_backend x) opts" "ce_tls_backend env = new_tls_client_backend lib benv mk"
    and "new_client env opts w = Some (Inr (bc, st), w1)" "list_all (keeps_answering client_ok) ms"
  shows "client_life (client_use ms bc) ops st \<noteq> None"
proof -
  obtain c where "cl_doer (client_use ms bc) = tls_client_doer benv c"
    using made_by_tls_backend(1) [OF assms(1-3)] by (auto simp: client_use_def)
  moreover have "list_all (keeps_answering client_ok) (cl_middlewares (client_use ms bc))"
    using made_by_tls_backend(2) [OF assms(1-3)] initial_middlewares_answer assms(4) by (simp add: client_use_def)
  moreover have "client_ok st" using new_client_ok [of env opts w] assms(3) by auto
  ultimately show ?thesis using tls.client_lives [of "client_use ms bc" benv c st ops] by auto
qed

lemma client_never_panics_std:
  assumes "cl_doer bc = std_doer benv slib c" "list_all (keeps_answering client_ok) (cl_middlewares bc)" "client_ok st"
  shows "client_life bc ops st \<noteq> None"
  using std.client_lives [OF assms] by auto

theorem client_never_panics_witness:
  "\<exists>bc st. new_client wire_client_env [WithFollowRedirects] \<lparr>tw_proxy = [], tw_lib = ()\<rparr> =
     Some (Inr (bc, st), \<lparr>tw_proxy = [], tw_lib = ()\<rparr>) \<and>
     client_life (client_use [logging_middleware, client_hints_middleware] bc)
       [Request ''GET'' ''u'' None None, SwitchProxy ''p'', Close, Request ''GET'' ''u'' None None] st \<noteq> None"
proof -
  obtain bc st where made: "new_client wire_client_env [WithFollowRedirects] \<lparr>tw_proxy = [], tw_lib = ()\<rparr> =
     Some (Inr (bc, st), \<lparr>tw_proxy = [], tw_lib = ()\<rparr>)" using wire_client_made by blast
  have "ce_tls_backend wire_client_env = new_tls_client_backend wire_lib wire_env (\<lambda>os w. (Inr wire_client, w))"
    by (simp add: wire_client_env_def)
  note runs = client_never_panics [OF _ this made, of "[logging_middleware, client_hints_middleware]"]
  show ?thesis by (intro exI conjI) (rule made, rule runs, simp_all add: logging_answers client_hints_answers)
qed

subsection \<open>A client with a pool of proxies\<close>

lemma backend_not_callers:
  "list_all (\<lambda>x. \<not> chooses_backend x) opts \<Longrightarrow> \<not> cc_caller_backend (configure ge oe opts)"
proof (induction opts rule: rev_induct)
  case Nil
  show ?case by (simp add: configure_def default_config_def)
next
  case (snoc opt opts)
  then show ?case by (cases opt) (auto simp: configure_snoc option_defs Let_def split: sum.split prod.split)
qed

text \<open>C5: with a pool of proxies no request goes past it. Take a client made with a pool of at least one proxy
  whose rotation keeps the contract of \<open>rotating_view\<close>, as that of a static pool or of a Webshare pool between two
  refreshes does, on a TLS library that sends through the proxy it accepted last. Whatever is then done with the client, direct
  proxy switches by the caller included, and whatever else Use has put around its requests,
  the library's Do is only called while the proxy in use is one of the pool: putting any other behaviour in the
  place of Do in all the other states changes nothing. So a proxy that cannot be set never becomes a direct
  connection.\<close>

theorem requests_leave_through_pool:
  fixes env :: "(('q, 'v) pooled_world, ('q, 'v) pooled_world cookie_jar, 'p, 't) client_env"
  defines "cfg opts \<equiv> configure (ce_guards env) (ce_options env) opts"
  assumes opts: "list_all (\<lambda>x. \<not> chooses_backend x) opts" "list_all (\<lambda>x. \<not> makes_pool x) opts"
      "cc_proxy_pool (cfg opts) = Some (pool_provider (vw_pool V), tp)"
    and pool: "rotating_view V" "urls = vw_proxies V (world_pool w)" "urls \<noteq> []" "length urls < 2 ^ 64"
    and env: "ce_tls_backend env = new_tls_client_backend lib benv mk" "proxied_factory V mk" "quiet_env V env (cfg opts)"
    and made: "new_client env opts w = Some (Inr (bc, st), w1)"
    and use: "list_all (uniform (\<lambda>s. through_pool V urls (cs_world s))) ms"
  shows "\<exists>c. cl_doer bc = tls_client_doer benv c \<and>
    (\<forall>f. (\<forall>g q v. vw_in_use V (snd (tw_lib v)) \<in> set urls \<longrightarrow> f g q v = tc_do c g q v) \<longrightarrow>
       client_life (on_other_do benv c f (client_use ms bc)) ops st = client_life (client_use ms bc) ops st)"
proof -
  let ?be = "backend_config_of (cfg opts) (map_option (\<lambda>g a. allowance_wrap a g) (cc_dial_control (cfg opts)))"
  obtain doer where bc: "bc = client_of env (cfg opts) doer" "new_tls_client_backend lib benv mk ?be w = (Inr doer, w1)"
    using new_client_made [OF made] configured_backend [OF opts(1), of "ce_guards env" "ce_options env"] env(1)
    by (auto simp: cfg_def)
  obtain c where c: "doer = tls_client_doer benv c" "proxied_library V c" "noted V urls w1"
    using new_backend_noted [OF env(2) bc(2)] pool(2) by blast
  have world: "cs_world st = w1"
    using made by (auto simp: new_client_def Let_def split: if_splits option.splits sum.splits prod.splits)
  have "pooled_client V benv c bc"
    unfolding bc(1) c(1)
    by (rule client_of_pooled [OF pool(1) env(3) opts(3)])
       (simp_all add: cfg_def no_own_pool [OF opts(2)] backend_not_callers [OF opts(1)])
  then have "pooled_client V benv c (client_use ms bc)" by (simp add: pooled_client_def client_use_def)
  moreover have "list_all (uniform (\<lambda>s. through_pool V urls (cs_world s))) (cl_middlewares (client_use ms bc))"
    using initial_middlewares_uniform [OF env(3)] use by (simp add: bc(1) client_use_def client_of_def)
  ultimately have "client_life (on_other_do benv c f (client_use ms bc)) ops st = client_life (client_use ms bc) ops st"
    if "\<forall>g q v. vw_in_use V (snd (tw_lib v)) \<in> set urls \<longrightarrow> f g q v = tc_do c g q v" for f
    using pooled_life [OF _ c(2) pool(3,4)] that c(3) world by blast
  then show ?thesis using bc(1) c(1) by (auto simp: client_of_def)
qed

text \<open>A world for the witness: two proxies, and a library whose state is the proxy it uses. Its Do fails.\<close>

definition pooled_world :: "(static_pool, string) pooled_world" where
  "pooled_world = \<lparr>tw_proxy = [], tw_lib = (new_static [''http://a:1'', ''http://b:1''], [])\<rparr>"

definition pooled_library :: "(static_pool, string) pooled_world tls_http_client" where
  "pooled_library =
     \<lparr>tc_do = (\<lambda>g q w. (Inl ErrCanceled, None, w)),
      tc_set_proxy = (\<lambda>g u w. (None, w\<lparr>tw_lib := (fst (tw_lib w), u)\<rparr>)),
      tc_cookies = (\<lambda>u w. []), tc_close = (\<lambda>w. w), tc_close_idle = (\<lambda>w. w)\<rparr>"

definition pooled_factory :: "(unit, unit, (static_pool, string) pooled_world, unit) tls_client_factory" where
  "pooled_factory os w = (Inr pooled_library, w\<lparr>tw_lib := (fst (tw_lib w), option_proxy os)\<rparr>)"

definition pooled_tls_lib :: "(unit, unit, (static_pool, string) pooled_world, unit) tls_lib" where
  "pooled_tls_lib =
     \<lparr>tl_profile = (\<lambda>l. \<lparr>wp_hello = \<lparr>chi_name = [], chi_factory = (\<lambda>w. (Inl ErrCanceled, w))\<rparr>, wp_header_priority = None,
        wp_settings = ()\<rparr>), tl_draws = (\<lambda>w. (\<lambda>n. 0, w)),
      tl_new_jar = \<lparr>fj_set = (\<lambda>u cs w. w), fj_get = (\<lambda>u w. [])\<rparr>\<rparr>"

definition pooled_env :: "((static_pool, string) pooled_world, (static_pool, string) pooled_world cookie_jar, unit, unit) client_env" where
  "pooled_env =
     \<lparr>ce_guards = \<lparr>ge_resolver = (\<lambda>w h. Inl (NetDNSError h False)), ge_ip_str = (\<lambda>ip. [])\<rparr>,
      ce_options = \<lparr>oe_std_backend = (\<lambda>c w. (Inl ErrCanceled, w)), oe_webshare = (\<lambda>k cs. Inl ErrCanceled),
        oe_webshare_rotating = (\<lambda>u p cs. Inl ErrCanceled)\<rparr>,
      ce_tls_backend = new_tls_client_backend pooled_tls_lib wire_env pooled_factory,
      ce_parse = (\<lambda>u. Inl ErrCanceled), ce_lookup_addr = (\<lambda>w h. Inl ErrCanceled), ce_pause = (\<lambda>w. w),
      ce_from_env = (\<lambda>t u. Inr t), ce_ox_cookies = (\<lambda>s. \<lparr>cp_get = (\<lambda>d w. ([], w)), cp_solve = (\<lambda>d c w. (Inr [], w))\<rparr>),
      ce_fetch_smart = (\<lambda>c u w. (Inl ErrCanceled, w))\<rparr>"

lemma pooled_client_made:
  "\<exists>bc st w1. new_client pooled_env [WithProxyPool (Some (pool_provider static_ops, None))] pooled_world = Some (Inr (bc, st), w1)"
  by (simp add: new_client_def pooled_env_def configure_def option_defs default_config_def Let_def
      new_proxy_allowance_def resolve_proxy_endpoint_def new_tls_client_backend_def backend_config_of_def
      wire_profile_for_def map_tls_profile_def profile_map_def pooled_factory_def)

lemma pooled_env_behaves:
  "proxied_factory (static_view id) pooled_factory"
  "quiet_env (static_view id) pooled_env (configure (ce_guards pooled_env) (ce_options pooled_env) [WithProxyPool (Some (pool_provider static_ops, None))])"
  by (auto simp: proxied_factory_def pooled_factory_def proxied_library_def pooled_library_def switched_def undisturbed_def static_view_def
      world_pool_def quiet_env_def quiet_cookies_def pooled_env_def configure_def option_defs default_config_def)

theorem requests_leave_through_pool_witness:
  "\<exists>bc st w1 c. new_client pooled_env [WithProxyPool (Some (pool_provider static_ops, None))] pooled_world = Some (Inr (bc, st), w1) \<and>
     cl_doer bc = tls_client_doer wire_env c \<and>
     client_life (on_other_do wire_env c
         (\<lambda>g q v. if snd (tw_lib v) \<in> {''http://a:1'', ''http://b:1''} then tc_do c g q v else (Inl ErrCanceled, None, pooled_world))
         (client_use [logging_middleware] bc)) [Request ''GET'' ''u'' None None, SwitchProxy [], Request ''GET'' ''u'' None None] st =
       client_life (client_use [logging_middleware] bc) [Request ''GET'' ''u'' None None, SwitchProxy [], Request ''GET'' ''u'' None None] st"
proof -
  let ?opts = "[WithProxyPool (Some (pool_provider static_ops, None))] :: ((static_pool, string) pooled_world, (static_pool, string) pooled_world cookie_jar, unit) client_option list"
  obtain bc st w1 where made: "new_client pooled_env ?opts pooled_world = Some (Inr (bc, st), w1)"
    using pooled_client_made by blast
  have urls: "[''http://a:1'', ''http://b:1''] = vw_proxies (static_view id) (world_pool pooled_world)"
    by (simp add: pooled_world_def world_pool_def new_static_def static_view_def)
  have backend: "ce_tls_backend pooled_env = new_tls_client_backend pooled_tls_lib wire_env pooled_factory"
    by (simp add: pooled_env_def)
  have pool: "cc_proxy_pool (configure (ce_guards pooled_env) (ce_options pooled_env) ?opts) = Some (pool_provider (vw_pool (static_view id)), None)"
    by (simp add: configure_def option_defs default_config_def static_view_def)
  obtain c where "cl_doer bc = tls_client_doer wire_env c"
      "\<And>f ops. \<forall>g q v. vw_in_use (static_view id) (snd (tw_lib v)) \<in> set [''http://a:1'', ''http://b:1''] \<longrightarrow> f g q v = tc_do c g q v \<Longrightarrow>
         client_life (on_other_do wire_env c f (client_use [logging_middleware] bc))
           [Request ''GET'' ''u'' None None, SwitchProxy [], Request ''GET'' ''u'' None None] st =
         client_life (client_use [logging_middleware] bc) [Request ''GET'' ''u'' None None, SwitchProxy [], Request ''GET'' ''u'' None None] st"
    using requests_leave_through_pool [OF _ _ pool rotating_views(1) urls _ _ backend pooled_env_behaves made, of "[logging_middleware]"
        "[Request ''GET'' ''u'' None None, SwitchProxy [], Request ''GET'' ''u'' None None]"]
    by (auto simp: logging_uniform)
  with made show ?thesis by (intro exI conjI) (assumption+, simp add: static_view_def)
qed

end
